(* ===== verification/Prelude.thy ===== *)
theory Prelude
  imports Main "HOL-Library.Multiset"
begin

text \<open>
  Shared vocabulary of the development: Go strings as byte lists with the functions of the
  \<open>strings\<close>, \<open>strconv\<close> and \<open>fmt\<close> packages the sources use, Go errors with the sentinels that
  \<open>errors.Is\<close> looks for, Go maps, the iteration order of \<open>range\<close> over a map, and the generic
  list and relation lemmas that the component theories share.
\<close>

named_theorems go_string \<open>evaluation and algebra of the string functions\<close>
named_theorems go_map \<open>reading and writing Go maps\<close>

section \<open>Strings\<close>

text \<open>
  A Go string is a sequence of bytes, here \<^typ>\<open>string\<close> (a list of \<^typ>\<open>char\<close>, 256 values).
  \<open>strings.TrimSpace\<close> removes the Unicode white space at both ends; the encodings of these code
  points in UTF-8 are listed, so that trimming is a matter of stripping byte prefixes and suffixes.
\<close>

definition utf8_spaces :: "string list" where
  "utf8_spaces =
    [[CHR 0x09], [CHR 0x0A], [CHR 0x0B], [CHR 0x0C], [CHR 0x0D], [CHR 0x20],
     [CHR 0xC2, CHR 0x85], [CHR 0xC2, CHR 0xA0], [CHR 0xE1, CHR 0x9A, CHR 0x80],
     [CHR 0xE2, CHR 0x80, CHR 0x80], [CHR 0xE2, CHR 0x80, CHR 0x81], [CHR 0xE2, CHR 0x80, CHR 0x82],
     [CHR 0xE2, CHR 0x80, CHR 0x83], [CHR 0xE2, CHR 0x80, CHR 0x84], [CHR 0xE2, CHR 0x80, CHR 0x85],
     [CHR 0xE2, CHR 0x80, CHR 0x86], [CHR 0xE2, CHR 0x80, CHR 0x87], [CHR 0xE2, CHR 0x80, CHR 0x88],
     [CHR 0xE2, CHR 0x80, CHR 0x89], [CHR 0xE2, CHR 0x80, CHR 0x8A],
     [CHR 0xE2, CHR 0x80, CHR 0xA8], [CHR 0xE2, CHR 0x80, CHR 0xA9], [CHR 0xE2, CHR 0x80, CHR 0xAF],
     [CHR 0xE2, CHR 0x81, CHR 0x9F], [CHR 0xE3, CHR 0x80, CHR 0x80]]"

definition HasPrefix :: "string \<Rightarrow> string \<Rightarrow> bool" where
  "HasPrefix s p \<longleftrightarrow> take (length p) s = p"

lemma find_SomeD: "find P xs = Some x \<Longrightarrow> x \<in> set xs \<and> P x"
  by (induction xs) (auto split: if_splits)

lemma HasPrefix_drop_shorter:
  assumes "HasPrefix s p" and "p \<noteq> []"
  shows "length (drop (length p) s) < length s"
proof -
  from assms have "s \<noteq> []" by (auto simp: HasPrefix_def)
  with assms(2) show ?thesis by (cases p; cases s) auto
qed

function strip_front :: "string list \<Rightarrow> string \<Rightarrow> string" where
  "strip_front ps s =
     (case find (\<lambda>p. p \<noteq> [] \<and> HasPrefix s p) ps of
        None \<Rightarrow> s
      | Some p \<Rightarrow> strip_front ps (drop (length p) s))"
  by pat_completeness auto
termination
  by (relation "measure (\<lambda>(ps, s). length s)")
    (simp, drule find_SomeD, metis HasPrefix_drop_shorter case_prod_conv in_measure)

declare strip_front.simps [simp del]

definition TrimLeftSpace :: "string \<Rightarrow> string" where
  "TrimLeftSpace s = strip_front utf8_spaces s"

definition TrimRightSpace :: "string \<Rightarrow> string" where
  "TrimRightSpace s = rev (strip_front (map rev utf8_spaces) (rev s))"

definition TrimSpace :: "string \<Rightarrow> string" where
  "TrimSpace s = TrimRightSpace (TrimLeftSpace s)"

text \<open>\<open>strings.TrimRight(s, cut)\<close> for a one-byte cut set, \<open>strings.TrimPrefix\<close>, \<open>strings.Contains\<close>,
  \<open>strings.Join\<close>, \<open>strings.Index\<close> of one byte and \<open>strings.ToLower\<close> on ASCII letters.\<close>

definition TrimRight :: "string \<Rightarrow> char \<Rightarrow> string" where
  "TrimRight s c = rev (dropWhile (\<lambda>x. x = c) (rev s))"

definition TrimPrefix :: "string \<Rightarrow> string \<Rightarrow> string" where
  "TrimPrefix s p = (if HasPrefix s p then drop (length p) s else s)"

fun Contains :: "string \<Rightarrow> string \<Rightarrow> bool" where
  "Contains [] sub \<longleftrightarrow> sub = []"
| "Contains (c # s) sub \<longleftrightarrow> HasPrefix (c # s) sub \<or> Contains s sub"

fun Join :: "string list \<Rightarrow> string \<Rightarrow> string" where
  "Join [] sep = []"
| "Join [x] sep = x"
| "Join (x # y # xs) sep = x @ sep @ Join (y # xs) sep"

text \<open>The format \<open>'%s'\<close>: the text between single quotes.\<close>

definition squoted :: "string \<Rightarrow> string" where
  "squoted s = CHR 0x27 # s @ [CHR 0x27]"

text \<open>The format \<open>%q\<close> on printable UTF-8 text: double quotes around the text, with the quote, the
  backslash and the control characters escaped.\<close>

definition hex_digit :: "nat \<Rightarrow> char" where
  "hex_digit n = char_of (if n < 10 then 48 + n else 87 + n)"

definition escape_char :: "char \<Rightarrow> string" where
  "escape_char c =
     (let n = of_char c :: nat; bs = CHR 0x5C in
      if n = 0x22 \<or> n = 0x5C then [bs, c]
      else if n = 7 then [bs, CHR ''a''] else if n = 8 then [bs, CHR ''b'']
      else if n = 9 then [bs, CHR ''t''] else if n = 10 then [bs, CHR ''n'']
      else if n = 11 then [bs, CHR ''v''] else if n = 12 then [bs, CHR ''f'']
      else if n = 13 then [bs, CHR ''r'']
      else if n < 32 \<or> n = 127 then [bs, CHR ''x'', hex_digit (n div 16), hex_digit (n mod 16)]
      else [c])"

definition quoted :: "string \<Rightarrow> string" where
  "quoted s = CHR 0x22 # concat (map escape_char s) @ [CHR 0x22]"

text \<open>\<open>strconv.Itoa\<close> and \<open>%d\<close>: decimal digits, most significant first.\<close>

definition digit :: "nat \<Rightarrow> char" where
  "digit n = char_of (48 + n)"

fun decimal :: "nat \<Rightarrow> string" where
  "decimal n = (if n < 10 then [digit n] else decimal (n div 10) @ [digit (n mod 10)])"

declare decimal.simps [simp del]

definition Itoa :: "int \<Rightarrow> string" where
  "Itoa i = (if i < 0 then CHR ''-'' # decimal (nat (- i)) else decimal (nat i))"

lemma of_digit: "n < 10 \<Longrightarrow> (of_char (digit n) :: nat) = 48 + n"
  by (simp add: digit_def)

lemma set_decimal: "c \<in> set (decimal n) \<Longrightarrow> \<exists>d < 10. c = digit d"
proof (induction n rule: decimal.induct)
  case (1 n)
  show ?case
  proof (cases "n < 10")
    case True
    with 1(2) show ?thesis by (subst (asm) decimal.simps) auto
  next
    case False
    with 1(2) have "c \<in> set (decimal (n div 10)) \<or> c = digit (n mod 10)"
      by (subst (asm) decimal.simps) auto
    with 1(1) [OF False] show ?thesis by (auto intro: exI [of _ "n mod 10"])
  qed
qed

lemma notin_decimal: "(of_char c :: nat) < 48 \<or> 57 < (of_char c :: nat) \<Longrightarrow> c \<notin> set (decimal n)"
  using set_decimal [of c n] of_digit by fastforce

definition decimal_value :: "string \<Rightarrow> nat" where
  "decimal_value s = foldl (\<lambda>a c. 10 * a + (of_char c - 48)) 0 s"

lemma decimal_value_decimal: "decimal_value (decimal n) = n"
proof (induction n rule: decimal.induct)
  case (1 n)
  then show ?case
    by (subst decimal.simps) (auto simp: decimal_value_def of_digit)
qed

lemma Itoa_inj: "Itoa i = Itoa j \<Longrightarrow> i = j"
proof -
  have minus: "decimal n \<noteq> CHR ''-'' # s" for n s
    using notin_decimal [of "CHR ''-''" n] by auto
  assume "Itoa i = Itoa j"
  then consider "i < 0" "j < 0" "decimal (nat (- i)) = decimal (nat (- j))"
    | "0 \<le> i" "0 \<le> j" "decimal (nat i) = decimal (nat j)"
    using minus minus [THEN not_sym] by (auto simp: Itoa_def split: if_splits)
  then show "i = j" by cases (metis decimal_value_decimal nat_eq_iff2 neg_equal_iff_equal less_le neg_0_le_iff_le, metis decimal_value_decimal eq_nat_nat_iff)
qed

lemma colon_notin_Itoa: "CHR '':'' \<notin> set (Itoa i)"
  using notin_decimal [of "CHR '':''"] by (auto simp: Itoa_def)

section \<open>Errors\<close>

text \<open>
  A Go error is its message together with the sentinel values in its chain. \<open>fmt.Errorf\<close> with
  \<open>%w\<close> prepends text and keeps the chain (\<open>wrapf\<close>), with \<open>%v\<close> it keeps the text only
  (\<open>Errorf\<close>); \<open>errors.Is\<close> looks a sentinel up in the chain.
\<close>

datatype sentinel =
    ErrConnectionClosed | ErrFatal | ErrNotFound | ErrNoRows | ErrCacheMiss
  | CtxCanceled | CtxDeadlineExceeded | MySQLError nat | AmqpUnrecoverable | NetTimeout
  | ErrInvalidReportQuery | ErrReportNotFound | ErrUpstreamTimeout
  | ErrAuthenticationRequired | ErrAuthorizationFailed | ErrAlreadyUpToDate | RedisNil

record goerr =
  Error :: string
  chain :: "sentinel list"

definition Errorf :: "string \<Rightarrow> goerr" where
  "Errorf m = \<lparr>Error = m, chain = []\<rparr>"

definition wrapf :: "string \<Rightarrow> goerr \<Rightarrow> goerr" where
  "wrapf m e = \<lparr>Error = m @ Error e, chain = chain e\<rparr>"

definition errors_Is :: "goerr \<Rightarrow> sentinel \<Rightarrow> bool" where
  "errors_Is e s \<longleftrightarrow> s \<in> set (chain e)"

lemma errors_Is_Errorf [simp]: "\<not> errors_Is (Errorf m) s"
  by (simp add: errors_Is_def Errorf_def)

lemma errors_Is_wrapf [simp]: "errors_Is (wrapf m e) s = errors_Is e s"
  by (simp add: errors_Is_def wrapf_def)

section \<open>Operations that fail or return\<close>

text \<open>
  An operation on a state returns an error or a value, and the new state in both cases: effects that
  happened before an error stay. \<open>andthen\<close> is the Go idiom \<open>if err != nil { return err }\<close>, and
  \<open>wp m Q E s\<close> says that \<open>m\<close> started in \<open>s\<close> returns with \<open>Q\<close> or fails with \<open>E\<close>.
\<close>

type_synonym ('s, 'a) op = "'s \<Rightarrow> (goerr + 'a) \<times> 's"

definition ret :: "'a \<Rightarrow> ('s, 'a) op" where
  "ret x s = (Inr x, s)"

definition fail :: "goerr \<Rightarrow> ('s, 'a) op" where
  "fail e s = (Inl e, s)"

definition andthen :: "('s, 'a) op \<Rightarrow> ('a \<Rightarrow> ('s, 'b) op) \<Rightarrow> ('s, 'b) op" where
  "andthen m f s = (case m s of (Inl e, s1) \<Rightarrow> (Inl e, s1) | (Inr x, s1) \<Rightarrow> f x s1)"

text \<open>\<open>_ = op()\<close>: the error is dropped.\<close>

definition ignore_err :: "('s, 'a) op \<Rightarrow> ('s, unit) op" where
  "ignore_err m s = (Inr (), snd (m s))"

definition wrap_err :: "(goerr \<Rightarrow> goerr) \<Rightarrow> ('s, 'a) op \<Rightarrow> ('s, 'a) op" where
  "wrap_err f m s = (case m s of (Inl e, s1) \<Rightarrow> (Inl (f e), s1) | (Inr x, s1) \<Rightarrow> (Inr x, s1))"

fun each :: "('a \<Rightarrow> ('s, unit) op) \<Rightarrow> 'a list \<Rightarrow> ('s, unit) op" where
  "each f [] = ret ()"
| "each f (x # xs) = andthen (f x) (\<lambda>_. each f xs)"

definition wp :: "('s, 'a) op \<Rightarrow> ('a \<Rightarrow> 's \<Rightarrow> bool) \<Rightarrow> (goerr \<Rightarrow> 's \<Rightarrow> bool) \<Rightarrow> 's \<Rightarrow> bool" where
  "wp m Q E s \<longleftrightarrow> (case m s of (Inl e, s1) \<Rightarrow> E e s1 | (Inr x, s1) \<Rightarrow> Q x s1)"

lemma wp_ret [simp]: "wp (ret x) Q E = Q x"
  by (simp add: fun_eq_iff wp_def ret_def)

lemma wp_fail [simp]: "wp (fail e) Q E = E e"
  by (simp add: fun_eq_iff wp_def fail_def)

lemma wp_andthen [simp]: "wp (andthen m f) Q E = wp m (\<lambda>x. wp (f x) Q E) E"
  by (simp add: fun_eq_iff wp_def andthen_def split: prod.split sum.split)

lemma wp_wrap_err [simp]: "wp (wrap_err g m) Q E = wp m Q (\<lambda>e. E (g e))"
  by (simp add: fun_eq_iff wp_def wrap_err_def split: prod.split sum.split)

lemma wp_ignore_err [simp]: "wp (ignore_err m) Q E = wp m (\<lambda>_. Q ()) (\<lambda>_. Q ())"
  by (auto simp: fun_eq_iff wp_def ignore_err_def split: prod.split sum.split)

lemma wp_mono:
  "wp m Q E s \<Longrightarrow> (\<And>x s1. Q x s1 \<Longrightarrow> Q' x s1) \<Longrightarrow> (\<And>e s1. E e s1 \<Longrightarrow> E' e s1) \<Longrightarrow> wp m Q' E' s"
  by (auto simp: wp_def split: prod.splits sum.splits)

lemma wp_if [simp]: "wp (if b then m else n) Q E = (if b then wp m Q E else wp n Q E)"
  by simp

lemma wp_Inr: "wp m Q E s \<Longrightarrow> m s = (Inr x, s1) \<Longrightarrow> Q x s1"
  and wp_Inl: "wp m Q E s \<Longrightarrow> m s = (Inl e, s1) \<Longrightarrow> E e s1"
  by (simp_all add: wp_def)

lemma wp_snd: "wp m (\<lambda>_. P) (\<lambda>_. P) s = P (snd (m s))"
  by (auto simp: wp_def split: prod.split sum.split)

lemma wp_each:
  assumes "\<And>x s. x \<in> set xs \<Longrightarrow> I s \<Longrightarrow> wp (f x) (\<lambda>_. I) E s" and "I s"
  shows "wp (each f xs) (\<lambda>_. I) E s"
  using assms
proof (induction xs arbitrary: s)
  case (Cons x xs)
  show ?case
    unfolding each.simps wp_andthen
    by (rule wp_mono [OF Cons.prems(1) [of x s]]) (use Cons in auto)
qed simp

section \<open>What an operation leaves alone\<close>

definition keeps :: "('s \<Rightarrow> 'x) \<Rightarrow> ('s, 'a) op \<Rightarrow> bool" where
  "keeps f m \<longleftrightarrow> (\<forall>s. f (snd (m s)) = f s)"

lemma keepsD: "keeps f m \<Longrightarrow> m s = (r, s') \<Longrightarrow> f s' = f s"
  unfolding keeps_def by (metis snd_conv)

lemma keeps_snd: "keeps f m \<Longrightarrow> f (snd (m s)) = f s"
  by (simp add: keeps_def)

lemma keeps_try:
  assumes "keeps f m" and "\<And>e. keeps f (g e)" and "\<And>x. keeps f (h x)"
  shows "keeps f (\<lambda>s. case m s of (Inl e, s1) \<Rightarrow> g e s1 | (Inr x, s1) \<Rightarrow> h x s1)"
  unfolding keeps_def
proof
  fix s
  obtain r s1 where m: "m s = (r, s1)" by (meson surj_pair)
  with keepsD [OF assms(1) m] assms(2,3)
  show "f (snd (case m s of (Inl e, s1) \<Rightarrow> g e s1 | (Inr x, s1) \<Rightarrow> h x s1)) = f s"
    by (cases r) (simp_all add: keeps_snd)
qed

lemma keeps_ret [simp, intro]: "keeps f (ret x)" and keeps_fail [simp, intro]: "keeps f (fail e)"
  by (simp_all add: keeps_def ret_def fail_def)

lemma keeps_andthen [intro]: "keeps f m \<Longrightarrow> (\<And>x. keeps f (g x)) \<Longrightarrow> keeps f (andthen m g)"
  by (auto simp: keeps_def andthen_def split: prod.split sum.split) (metis snd_conv)+

lemma keeps_ignore_err [intro]: "keeps f m \<Longrightarrow> keeps f (ignore_err m)"
  by (simp add: keeps_def ignore_err_def)

lemma keeps_wrap_err [intro]: "keeps f m \<Longrightarrow> keeps f (wrap_err g m)"
  by (auto simp: keeps_def wrap_err_def split: prod.split sum.split) (metis snd_conv)+

section \<open>Predicates that operations preserve\<close>

definition preserves :: "('s \<Rightarrow> bool) \<Rightarrow> ('s, 'a) op \<Rightarrow> bool" where
  "preserves P m \<longleftrightarrow> (\<forall>s. P s \<longrightarrow> P (snd (m s)))"

lemma preservesD: "preserves P m \<Longrightarrow> P s \<Longrightarrow> P (snd (m s))"
  by (simp add: preserves_def)

lemma preserves_ret [simp, intro]: "preserves P (ret x)" and preserves_fail [simp, intro]: "preserves P (fail e)"
  by (simp_all add: preserves_def ret_def fail_def)

lemma preserves_andthen [intro]: "preserves P m \<Longrightarrow> (\<And>x. preserves P (f x)) \<Longrightarrow> preserves P (andthen m f)"
  by (fastforce simp: preserves_def andthen_def split: prod.split sum.split)

lemma preserves_wrap_err [intro]: "preserves P m \<Longrightarrow> preserves P (wrap_err g m)"
  by (fastforce simp: preserves_def wrap_err_def split: prod.split sum.split)

lemma preserves_ignore_err [intro]: "preserves P m \<Longrightarrow> preserves P (ignore_err m)"
  by (simp add: preserves_def ignore_err_def)

lemma preserves_if [intro]: "(b \<Longrightarrow> preserves P m) \<Longrightarrow> (\<not> b \<Longrightarrow> preserves P n) \<Longrightarrow> preserves P (if b then m else n)"
  by simp

lemma preserves_each [intro]: "(\<And>x. preserves P (f x)) \<Longrightarrow> preserves P (each f xs)"
  by (induction xs) auto

lemma keeps_preserves: "keeps f m \<Longrightarrow> preserves (\<lambda>s. P (f s)) m"
  by (simp add: keeps_def preserves_def)

lemma preserves_wp: "preserves P m \<Longrightarrow> P s \<Longrightarrow> wp m (\<lambda>_. P) (\<lambda>_. P) s"
  by (simp add: wp_snd preservesD)

section \<open>Maps and their iteration order\<close>

text \<open>
  A Go map of strings is a partial function where only lookups matter, and an association list
  with distinct keys (\<open>AList\<close>-style update, insertion order) where the program ranges over it or
  counts its keys. \<open>range\<close> visits every key exactly once in an unspecified order: the model takes
  the order as a parameter \<open>ord\<close> that permutes the list of keys, and \<open>range_order ord\<close> is all that
  the language promises of it.
\<close>

type_synonym 'v gomap = "(string \<times> 'v) list"

fun map_set :: "'k \<Rightarrow> 'v \<Rightarrow> ('k \<times> 'v) list \<Rightarrow> ('k \<times> 'v) list" where
  "map_set k v [] = [(k, v)]"
| "map_set k v ((k', v') # m) = (if k = k' then (k, v) # m else (k', v') # map_set k v m)"

definition map_get :: "'v \<Rightarrow> ('k \<times> 'v) list \<Rightarrow> 'k \<Rightarrow> 'v" where
  "map_get zero m k = (case map_of m k of None \<Rightarrow> zero | Some v \<Rightarrow> v)"

definition keys :: "('k \<times> 'v) list \<Rightarrow> 'k list" where
  "keys m = map fst m"

definition range_order :: "('k list \<Rightarrow> 'k list) \<Rightarrow> bool" where
  "range_order ord \<longleftrightarrow> (\<forall>ks. mset (ord ks) = mset ks)"

lemma map_of_map_set [go_map, simp]: "map_of (map_set k v m) = (map_of m)(k \<mapsto> v)"
  by (induction k v m rule: map_set.induct) auto

lemma map_get_map_set [go_map]:
  "map_get z (map_set k v m) k' = (if k' = k then v else map_get z m k')"
  by (simp add: map_get_def)

lemma map_get_Nil [go_map, simp]: "map_get z [] k = z"
  by (simp add: map_get_def)

lemma set_keys_map_set [simp]: "set (keys (map_set k v m)) = insert k (set (keys m))"
  by (induction k v m rule: map_set.induct) (auto simp: keys_def)

lemma distinct_keys_map_set: "distinct (keys m) \<Longrightarrow> distinct (keys (map_set k v m))"
proof (induction k v m rule: map_set.induct)
  case (2 k v k' v' m)
  then show ?case using set_keys_map_set [of k v m] by (auto simp: keys_def)
qed (simp add: keys_def)

lemma length_map_set:
  "length (map_set k v m) = (if k \<in> set (keys m) then length m else Suc (length m))"
  by (induction k v m rule: map_set.induct) (auto simp: keys_def)

lemma map_get_notin: "k \<notin> set (keys m) \<Longrightarrow> map_get z m k = z"
  by (simp add: map_get_def keys_def flip: map_of_eq_None_iff)

text \<open>Folding \<open>map_set\<close> keeps the value of a key that every entry for it agrees on.\<close>

lemma map_get_fold:
  assumes "\<And>x. x \<in> set xs \<Longrightarrow> f x = k \<Longrightarrow> g x = v" and "k \<in> f ` set xs \<or> map_get z m k = v"
  shows "map_get z (fold (\<lambda>x. map_set (f x) (g x)) xs m) k = v"
  using assms
proof (induction xs arbitrary: m)
  case (Cons x xs)
  have "k \<in> f ` set xs \<or> map_get z (map_set (f x) (g x) m) k = v" using Cons.prems by (auto simp: map_get_map_set)
  with Cons.IH [of "map_set (f x) (g x) m"] Cons.prems(1) show ?case by simp
qed simp

lemma list_all2_ex: "list_all2 P xs ys \<Longrightarrow> x \<in> set xs \<Longrightarrow> \<exists>y \<in> set ys. P x y"
  and list_all2_ex_left: "list_all2 P xs ys \<Longrightarrow> y \<in> set ys \<Longrightarrow> \<exists>x \<in> set xs. P x y"
  by (metis list_all2_conv_all_nth in_set_conv_nth)+

lemma nth_in_take: "i < k \<Longrightarrow> k < length xs \<Longrightarrow> xs ! i \<in> set (take k xs)"
  by (metis in_set_conv_nth length_take less_trans min_less_iff_conj nth_take)

lemma length_keys [simp]: "length (keys m) = length m"
  by (simp add: keys_def)

lemma keys_Nil [simp]: "keys [] = []"
  by (simp add: keys_def)

lemma set_range_order: "range_order ord \<Longrightarrow> set (ord ks) = set ks"
  unfolding range_order_def by (metis set_mset_mset)

lemma distinct_range_order: "range_order ord \<Longrightarrow> distinct (ord ks) = distinct ks"
  unfolding range_order_def by (metis mset_eq_imp_distinct_iff)

lemma range_order_id: "range_order (\<lambda>ks. ks)"
  by (simp add: range_order_def)

lemma range_order_rev: "range_order rev"
  by (simp add: range_order_def)

end
