(* ===== verification/Models.thy ===== *)
theory Models
  imports Prelude
begin

text \<open>
  The domain types of \<open>internal/models\<close>, \<open>internal/messages\<close> and \<open>internal/api\<close>: pipeline
  definitions, execution plans, report payloads, the job message on the queue and the HTTP
  request and response bodies, each a record with the fields of the Go struct (prefixed by the
  struct, since record selectors share one name space). Slices are lists (a nil slice is the
  empty list), pointers that may be nil are options, \<open>int\<close> is \<^typ>\<open>int\<close>, and \<open>time.Time\<close> is the
  number of nanoseconds as an \<^typ>\<open>int\<close>.

  \<open>yaml.Node\<close> of \<open>gopkg.in/yaml.v3\<close> is the tree a parsed document is delivered in. A mapping
  node stores its entries as alternating keys and values; the model stores them as pairs, so an
  even \<open>Content\<close> is built into the type.
\<close>

section \<open>Pipelines\<close>

record Stage =
  stageName :: string

record Job =
  jobName :: string
  jobStage :: string
  jobImage :: string
  jobScript :: "string list"
  jobNeeds :: "string list"
  jobFailures :: bool

record Pipeline =
  pipelineName :: string
  pipelineStages :: "Stage list"
  pipelineJobs :: "Job list"

record Location =
  locLine :: int
  locColumn :: int

record ValidationError =
  veFilePath :: string
  veLocation :: Location
  veMessage :: string

definition ValidationError_Error :: "ValidationError \<Rightarrow> string" where
  "ValidationError_Error e =
     veFilePath e @ '':'' @ Itoa (locLine (veLocation e)) @ '':'' @
     Itoa (locColumn (veLocation e)) @ '': '' @ veMessage e"

section \<open>Plans\<close>

record JobExecutionPlan =
  jepName :: string
  jepImage :: string
  jepScript :: "string list"

record StageExecutionPlan =
  sepName :: string
  sepJobs :: "JobExecutionPlan list"

record ExecutionPlan =
  epStages :: "StageExecutionPlan list"

text \<open>The maps of a \<open>StagePlan\<close> are ranged over and counted (\<open>len\<close>), so they are association lists.\<close>

record StagePlan =
  spName :: string
  spJobs :: "JobExecutionPlan list"
  spNeeds :: "string list gomap"
  spDependents :: "string list gomap"
  spInDegree :: "int gomap"
  spJobByName :: "JobExecutionPlan gomap"

section \<open>Messages and API bodies\<close>

record JobExecutionMessage =
  jmRunNo :: int
  jmPipelineName :: string
  jmStage :: string
  jmBranch :: string
  jmCommit :: string
  jmRepoURL :: string
  jmWorkspacePath :: string
  jmJob :: JobExecutionPlan

record ValidateRequest =
  vqYAMLContent :: string
  vqCommit :: string
  vqPipelinePath :: string

record ValidateResponse =
  vrValid :: bool
  vrErrors :: "string list"

record DryRunResponse =
  drValid :: bool
  drErrors :: "string list"
  drExecutionPlan :: "ExecutionPlan option"

record RunRequest =
  rqYAMLContent :: string
  rqBranch :: string
  rqCommit :: string
  rqRepoURL :: string
  rqWorkspacePath :: string

record RunResponse =
  rrPipeline :: string
  rrRunNo :: int
  rrStatus :: string
  rrErrors :: "string list"
  rrMessage :: string

record JobStatusCallbackRequest =
  cbPipeline :: string
  cbRunNo :: int
  cbStage :: string
  cbJob :: string
  cbStatus :: string
  cbLogs :: string
  cbError :: string

section \<open>Report payloads\<close>

record ReportQuery =
  qPipeline :: string
  qRun :: "int option"
  qStage :: string
  qJob :: string

record ReportRun =
  rpRunNo :: int
  rpStatus :: string
  rpTraceID :: string
  rpGitRepo :: string
  rpGitBranch :: string
  rpGitHash :: string
  rpStart :: int
  rpEnd :: "int option"

record ReportJob =
  rjName :: string
  rjStatus :: string
  rjStart :: int
  rjEnd :: "int option"
  rjFailures :: bool

record ReportStage =
  rsName :: string
  rsStatus :: string
  rsStart :: int
  rsEnd :: "int option"
  rsJobs :: "ReportJob list"
  rsJob :: "ReportJob list"

record ReportPipeline =
  rpipeName :: string
  rpipeRuns :: "ReportRun list"
  rpipeRunNo :: int
  rpipeStatus :: string
  rpipeTraceID :: string
  rpipeStart :: int
  rpipeEnd :: "int option"
  rpipeStages :: "ReportStage list"
  rpipeStage :: "ReportStage list"

record ReportResponse =
  respPipeline :: ReportPipeline

section \<open>YAML nodes\<close>

text \<open>
  \<open>ZeroNode\<close> is the node left by \<open>yaml.Unmarshal\<close> on empty input (its \<open>Kind\<close> is 0). The
  attributes of a node are its tag, value, line and column, in this order.
\<close>

datatype yaml_node =
    ZeroNode
  | DocumentNode "yaml_node list"
  | SequenceNode string int int "yaml_node list"
  | MappingNode string int int "(yaml_node \<times> yaml_node) list"
  | ScalarNode string string int int
  | AliasNode string int int

fun Tag :: "yaml_node \<Rightarrow> string" where
  "Tag (SequenceNode t _ _ _) = t"
| "Tag (MappingNode t _ _ _) = t"
| "Tag (ScalarNode t _ _ _) = t"
| "Tag _ = ''''"

fun Value :: "yaml_node \<Rightarrow> string" where
  "Value (ScalarNode _ v _ _) = v"
| "Value (AliasNode v _ _) = v"
| "Value _ = ''''"

fun node_location :: "yaml_node \<Rightarrow> Location" where
  "node_location ZeroNode = \<lparr>locLine = 0, locColumn = 0\<rparr>"
| "node_location (DocumentNode _) = \<lparr>locLine = 1, locColumn = 1\<rparr>"
| "node_location (SequenceNode _ l c _) = \<lparr>locLine = l, locColumn = c\<rparr>"
| "node_location (MappingNode _ l c _) = \<lparr>locLine = l, locColumn = c\<rparr>"
| "node_location (ScalarNode _ _ l c) = \<lparr>locLine = l, locColumn = c\<rparr>"
| "node_location (AliasNode _ l c) = \<lparr>locLine = l, locColumn = c\<rparr>"

fun is_scalar :: "yaml_node \<Rightarrow> bool" where
  "is_scalar (ScalarNode _ _ _ _) = True"
| "is_scalar _ = False"

fun is_sequence :: "yaml_node \<Rightarrow> bool" where
  "is_sequence (SequenceNode _ _ _ _) = True"
| "is_sequence _ = False"

fun is_mapping :: "yaml_node \<Rightarrow> bool" where
  "is_mapping (MappingNode _ _ _ _) = True"
| "is_mapping _ = False"

text \<open>The entries of a mapping node and the items of a sequence node.\<close>

fun entries :: "yaml_node \<Rightarrow> (yaml_node \<times> yaml_node) list" where
  "entries (MappingNode _ _ _ es) = es"
| "entries _ = []"

fun items :: "yaml_node \<Rightarrow> yaml_node list" where
  "items (SequenceNode _ _ _ xs) = xs"
| "items _ = []"

text \<open>\<open>Stage.UnmarshalYAML\<close>: a stage entry is a scalar or a mapping. Decoding the mapping into the
  struct is yaml.v3's work, a parameter \<open>decode\<close>.\<close>

definition Stage_UnmarshalYAML :: "(yaml_node \<Rightarrow> goerr + Stage) \<Rightarrow> yaml_node \<Rightarrow> goerr + Stage" where
  "Stage_UnmarshalYAML decode node =
     (case node of
        ScalarNode t v l c \<Rightarrow> Inr \<lparr>stageName = v\<rparr>
      | MappingNode t l c es \<Rightarrow> decode node
      | _ \<Rightarrow> Inl (Errorf (''stage must be a string or mapping, got '' @ Tag node)))"

end
