(* ===== verification/Parser.thy ===== *)
theory Parser
  imports Models
begin

text \<open>
  \<open>internal/common/parser/parser.go\<close>: from a YAML tree to the \<open>Pipeline\<close> model. The YAML library
  (\<open>yaml.Unmarshal\<close>) and the file system (\<open>os.ReadFile\<close>) are parameters of \<open>Parse\<close>; the tree walk
  is modelled in full. The lemmas show that a document written in the pipeline format is read back
  as the pipeline it describes, that jobs and job nodes stay aligned, and which inputs are refused.
\<close>

section \<open>The tree walk\<close>

definition IsReservedTopLevelKey :: "string \<Rightarrow> bool" where
  "IsReservedTopLevelKey key \<longleftrightarrow>
     key = ''name'' \<or> key = ''pipeline'' \<or> key = ''stages'' \<or> key = ''jobs''"

text \<open>A nil node is \<open>None\<close>; the loop over \<open>Content\<close> in steps of two is a search over the entries.\<close>

definition findMappingNode :: "yaml_node option \<Rightarrow> string \<Rightarrow> yaml_node option" where
  "findMappingNode root key =
     (case root of
        None \<Rightarrow> None
      | Some r \<Rightarrow>
          if \<not> is_mapping r then None
          else map_option snd (find (\<lambda>(k, v). Value k = key) (entries r)))"

fun appendStringValues :: "string list \<Rightarrow> yaml_node \<Rightarrow> string list" where
  "appendStringValues existing (ScalarNode t v l c) = existing @ [v]"
| "appendStringValues existing (SequenceNode t l c xs) =
     existing @ map Value (filter is_scalar xs)"
| "appendStringValues existing _ = existing"

definition parseStageEntry :: "yaml_node \<Rightarrow> Stage list" where
  "parseStageEntry entry =
     (if is_scalar entry then [\<lparr>stageName = Value entry\<rparr>]
      else if is_mapping entry then
        (case findMappingNode (Some entry) ''name'' of
           None \<Rightarrow> []
         | Some nameNode \<Rightarrow> [\<lparr>stageName = Value nameNode\<rparr>])
      else [])"

definition parseStages :: "yaml_node option \<Rightarrow> Stage list" where
  "parseStages node =
     (case node of
        None \<Rightarrow> []
      | Some n \<Rightarrow> if \<not> is_sequence n then [] else concat (map parseStageEntry (items n)))"

text \<open>One field of a job step, on the pair of the job under construction and its script lines.\<close>

definition parseJobField :: "yaml_node \<times> yaml_node \<Rightarrow> Job \<times> string list \<Rightarrow> Job \<times> string list" where
  "parseJobField field st =
     (let (keyNode, fieldValue) = field; (job, scriptLines) = st; fieldKey = Value keyNode in
      if fieldKey = ''stage'' then
        (if is_scalar fieldValue then (job\<lparr>jobStage := Value fieldValue\<rparr>, scriptLines) else st)
      else if fieldKey = ''image'' then
        (if is_scalar fieldValue then (job\<lparr>jobImage := Value fieldValue\<rparr>, scriptLines) else st)
      else if fieldKey = ''script'' then
        (job, appendStringValues scriptLines fieldValue)
      else if fieldKey = ''needs'' then
        (job\<lparr>jobNeeds := appendStringValues (jobNeeds job) fieldValue\<rparr>, scriptLines)
      else if fieldKey = ''failures'' then
        (if is_scalar fieldValue \<and> Tag fieldValue = ''!!bool''
         then (job\<lparr>jobFailures := (Value fieldValue = ''true'')\<rparr>, scriptLines) else st)
      else st)"

definition empty_job :: "string \<Rightarrow> Job" where
  "empty_job name =
     \<lparr>jobName = name, jobStage = '''', jobImage = '''', jobScript = [], jobNeeds = [],
      jobFailures = False\<rparr>"

definition parseJob :: "string \<Rightarrow> yaml_node \<Rightarrow> Job" where
  "parseJob name node =
     (if \<not> is_sequence node then empty_job name
      else
        let (job, scriptLines) =
          fold (\<lambda>entry st. if is_mapping entry then fold parseJobField (entries entry) st else st)
            (items node) (empty_job name, [])
        in job\<lparr>jobScript := scriptLines\<rparr>)"

definition parseJobs :: "yaml_node \<Rightarrow> Job list" where
  "parseJobs root =
     (if \<not> is_mapping root then []
      else map (\<lambda>(k, v). parseJob (Value k) v)
             (filter (\<lambda>(k, v). \<not> IsReservedTopLevelKey (Value k)) (entries root)))"

definition getDefaultStages :: "Stage list" where
  "getDefaultStages = [\<lparr>stageName = ''build''\<rparr>, \<lparr>stageName = ''test''\<rparr>, \<lparr>stageName = ''docs''\<rparr>]"

definition buildPipeline :: "yaml_node \<Rightarrow> goerr + Pipeline" where
  "buildPipeline root =
     (case root of
        DocumentNode (content # _) \<Rightarrow>
          if \<not> is_mapping content then Inl (Errorf ''root must be a mapping'')
          else
            (case find (\<lambda>(k, v). Value k = ''name'' \<or> Value k = ''jobs'') (entries content) of
               Some (key, v) \<Rightarrow>
                 Inl (Errorf (''pipeline format does not allow top-level `'' @ Value key @
                   ''` key (line '' @ Itoa (locLine (node_location key)) @ '')''))
             | None \<Rightarrow>
                 let pipelineNode = findMappingNode (Some content) ''pipeline'';
                     name = (case findMappingNode pipelineNode ''name'' of
                               None \<Rightarrow> '''' | Some nameNode \<Rightarrow> Value nameNode);
                     stages = parseStages (findMappingNode (Some content) ''stages'')
                 in Inr \<lparr>pipelineName = name,
                          pipelineStages = (if stages = [] then getDefaultStages else stages),
                          pipelineJobs = parseJobs content\<rparr>)
      | _ \<Rightarrow> Inl (Errorf ''invalid YAML document''))"

definition parseYAMLData ::
  "(string \<Rightarrow> goerr + yaml_node) \<Rightarrow> string \<Rightarrow> goerr + Pipeline \<times> yaml_node" where
  "parseYAMLData unmarshal data =
     (case unmarshal data of
        Inl e \<Rightarrow> Inl (wrapf ''failed to parse YAML: '' e)
      | Inr rootNode \<Rightarrow>
          (case buildPipeline rootNode of
             Inl e \<Rightarrow> Inl e
           | Inr pipeline \<Rightarrow> Inr (pipeline, rootNode)))"

record Parser =
  parserFilePath :: string
  parserContent :: string

definition NewParser :: "string \<Rightarrow> Parser" where
  "NewParser path = \<lparr>parserFilePath = path, parserContent = ''''\<rparr>"

definition NewParserFromContent :: "string \<Rightarrow> Parser" where
  "NewParserFromContent content = \<lparr>parserFilePath = '''', parserContent = content\<rparr>"

definition Parse ::
  "(string \<Rightarrow> goerr + yaml_node) \<Rightarrow> (string \<Rightarrow> goerr + string) \<Rightarrow> Parser \<Rightarrow>
     goerr + Pipeline \<times> yaml_node" where
  "Parse unmarshal readFile p =
     (if parserContent p \<noteq> '''' then parseYAMLData unmarshal (parserContent p)
      else
        (case readFile (parserFilePath p) of
           Inl e \<Rightarrow> Inl (wrapf ''failed to read file: '' e)
         | Inr data \<Rightarrow> parseYAMLData unmarshal data))"

record JobNode =
  jnName :: string
  jnKey :: yaml_node
  jnValue :: yaml_node

definition GetJobNodes :: "yaml_node \<Rightarrow> JobNode list" where
  "GetJobNodes rootNode =
     (case rootNode of
        DocumentNode (content # _) \<Rightarrow>
          if is_mapping content then
            map (\<lambda>(k, v). \<lparr>jnName = Value k, jnKey = k, jnValue = v\<rparr>)
              (filter (\<lambda>(k, v). \<not> IsReservedTopLevelKey (Value k)) (entries content))
          else []
      | _ \<Rightarrow> [])"

section \<open>What the walk returns\<close>

lemma jobName_fold_parseJobField [simp]:
  "jobName (fst (fold parseJobField fs st)) = jobName (fst st)"
  by (induction fs arbitrary: st) (auto simp: parseJobField_def Let_def split: prod.splits)

lemma jobName_fold_entries:
  "jobName (fst (fold (\<lambda>entry st. if is_mapping entry then fold parseJobField (entries entry) st else st)
     es st)) = jobName (fst st)"
  by (induction es arbitrary: st) auto

lemma jobName_parseJob [simp]: "jobName (parseJob name node) = name"
  using jobName_fold_entries [of "items node" "(empty_job name, [])"]
  by (auto simp: parseJob_def empty_job_def split: prod.split)

lemma buildPipeline_Inr:
  assumes "buildPipeline root = Inr p"
  obtains content rest where "root = DocumentNode (content # rest)" and "is_mapping content"
    and "pipelineJobs p = parseJobs content" and "pipelineStages p \<noteq> []"
  using assms
  by (auto simp: buildPipeline_def getDefaultStages_def Let_def
      split: yaml_node.splits list.splits if_splits option.splits)

lemma buildPipeline_stages_nonempty: "buildPipeline root = Inr p \<Longrightarrow> pipelineStages p \<noteq> []"
  by (erule buildPipeline_Inr)

lemma jobs_match_nodes:
  assumes "buildPipeline root = Inr p"
  shows "pipelineJobs p = map (\<lambda>jn. parseJob (jnName jn) (jnValue jn)) (GetJobNodes root)"
  using assms
  by (elim buildPipeline_Inr) (auto simp: GetJobNodes_def parseJobs_def)

lemma GetJobNodes_key: "jn \<in> set (GetJobNodes root) \<Longrightarrow> jnName jn = Value (jnKey jn)"
  by (auto simp: GetJobNodes_def split: yaml_node.splits list.splits if_splits)

section \<open>The pipeline format\<close>

text \<open>The document that describes a pipeline, in the layout of the README: \<open>pipeline.name\<close>, the
  \<open>stages\<close>, and one top-level sequence of one-field mappings per job.\<close>

definition str_node :: "string \<Rightarrow> yaml_node" where
  "str_node s = ScalarNode ''!!str'' s 1 1"

definition map_node :: "(string \<times> yaml_node) list \<Rightarrow> yaml_node" where
  "map_node fs = MappingNode ''!!map'' 1 1 (map (\<lambda>(k, v). (str_node k, v)) fs)"

definition seq_node :: "yaml_node list \<Rightarrow> yaml_node" where
  "seq_node xs = SequenceNode ''!!seq'' 1 1 xs"

definition job_node :: "Job \<Rightarrow> yaml_node" where
  "job_node job = seq_node (map (\<lambda>field. map_node [field])
     [(''stage'', str_node (jobStage job)),
      (''image'', str_node (jobImage job)),
      (''script'', seq_node (map str_node (jobScript job))),
      (''needs'', seq_node (map str_node (jobNeeds job))),
      (''failures'', ScalarNode ''!!bool'' (if jobFailures job then ''true'' else ''false'') 1 1)])"

definition pipeline_document :: "Pipeline \<Rightarrow> yaml_node" where
  "pipeline_document p = DocumentNode [map_node
     ([(''pipeline'', map_node [(''name'', str_node (pipelineName p))]),
       (''stages'', seq_node (map (\<lambda>s. str_node (stageName s)) (pipelineStages p)))]
      @ map (\<lambda>job. (jobName job, job_node job)) (pipelineJobs p))]"

lemmas node_defs = str_node_def map_node_def seq_node_def

lemma Value_str_node [simp]: "Value (str_node s) = s" and is_scalar_str_node [simp]: "is_scalar (str_node s)"
  by (simp_all add: str_node_def)

lemma entries_map_node [simp]: "entries (map_node fs) = map (\<lambda>(k, v). (str_node k, v)) fs"
  and items_seq_node [simp]: "items (seq_node xs) = xs"
  and is_mapping_map_node [simp]: "is_mapping (map_node fs)"
  and is_sequence_seq_node [simp]: "is_sequence (seq_node xs)"
  by (simp_all add: node_defs)

lemma appendStringValues_strs [simp]:
  "appendStringValues acc (seq_node (map str_node ss)) = acc @ ss"
  by (simp add: seq_node_def comp_def)

lemma parseJob_job_node: "parseJob (jobName job) (job_node job) = job"
  by (simp add: parseJob_def job_node_def parseJobField_def empty_job_def)

lemma parseStages_strs:
  "parseStages (Some (seq_node (map (\<lambda>s. str_node (stageName s)) stages))) = stages"
  by (induction stages) (simp_all add: parseStages_def parseStageEntry_def)

lemma parseJobs_document:
  assumes "\<forall>job \<in> set jobs. \<not> IsReservedTopLevelKey (jobName job)"
    and "\<forall>(k, v) \<in> set reserved. IsReservedTopLevelKey k"
  shows "parseJobs (map_node (reserved @ map (\<lambda>job. (jobName job, job_node job)) jobs)) = jobs"
proof -
  let ?jobs = "map (\<lambda>(k, v). (str_node k, v)) (map (\<lambda>job. (jobName job, job_node job)) jobs)"
  have "filter (\<lambda>(k, v). \<not> IsReservedTopLevelKey (Value k)) (map (\<lambda>(k, v). (str_node k, v)) reserved) = []"
    using assms(2) by (induction reserved) auto
  moreover have "filter (\<lambda>(k, v). \<not> IsReservedTopLevelKey (Value k)) ?jobs = ?jobs"
    using assms(1) by (induction jobs) auto
  moreover have "map (\<lambda>(k, v). parseJob (Value k) v) ?jobs = jobs"
    by (simp add: parseJob_job_node map_idI)
  ultimately show ?thesis by (simp add: parseJobs_def)
qed

text \<open>C19. Round trip: building the pipeline of the document that describes \<open>p\<close> gives back \<open>p\<close>, with
  every stage, job, script line, need and flag, provided \<open>p\<close> has a stage and no job takes a reserved
  top-level name.\<close>

theorem buildPipeline_pipeline_document:
  assumes "pipelineStages p \<noteq> []"
    and "\<forall>job \<in> set (pipelineJobs p). \<not> IsReservedTopLevelKey (jobName job)"
  shows "buildPipeline (pipeline_document p) = Inr p"
proof -
  let ?jobs = "map (\<lambda>job. (jobName job, job_node job)) (pipelineJobs p)"
  have no_bad: "find (\<lambda>(k, v). Value k = ''name'' \<or> Value k = ''jobs'')
      (map (\<lambda>(k, v). (str_node k, v)) ?jobs) = None"
    using assms(2) by (auto simp: find_None_iff IsReservedTopLevelKey_def)
  have "parseJobs (map_node ([(''pipeline'', x), (''stages'', y)] @ ?jobs)) = pipelineJobs p" for x y
    using assms(2) by (rule parseJobs_document) (simp add: IsReservedTopLevelKey_def)
  with no_bad assms(1) show ?thesis
    by (simp add: buildPipeline_def pipeline_document_def findMappingNode_def parseStages_strs)
qed

lemma buildPipeline_pipeline_document_witness:
  "let job = \<lparr>jobName = ''compile'', jobStage = ''build'', jobImage = ''golang'',
                jobScript = [''go build''], jobNeeds = [], jobFailures = True\<rparr>;
       p = \<lparr>pipelineName = ''demo'', pipelineStages = [\<lparr>stageName = ''build''\<rparr>], pipelineJobs = [job]\<rparr>
   in buildPipeline (pipeline_document p) = Inr p"
  unfolding Let_def by (rule buildPipeline_pipeline_document) (simp_all add: IsReservedTopLevelKey_def)

end
