(* ===== verification/Cycle_Check.thy ===== *)
theory Cycle_Check
  imports Models
begin

text \<open>
  The cycle detection of \<open>checkNoCycles\<close> (\<open>internal/common/verifier/validation_checks.go\<close>): a
  depth-first search over the \<open>needs\<close> graph with a visited set and a recursion stack. The
  recursive closure \<open>dfs\<close> updates two shared maps; here the maps are passed through, a
  \<open>map[string]bool\<close> being the set of the keys that map to true. The theory shows that the search
  ends, that it finds nothing exactly when the graph is acyclic, and that what it finds is a cycle.
\<close>

section \<open>The graph\<close>

definition needs_graph :: "Job list \<Rightarrow> string list gomap" where
  "needs_graph jobs = fold (\<lambda>job g. map_set (jobName job) (jobNeeds job) g) jobs []"

abbreviation neighbors :: "string list gomap \<Rightarrow> string \<Rightarrow> string list" where
  "neighbors g \<equiv> map_get [] g"

definition edges :: "string list gomap \<Rightarrow> (string \<times> string) set" where
  "edges g = {(a, b). b \<in> set (neighbors g a)}"

definition nodes :: "string list gomap \<Rightarrow> string set" where
  "nodes g = set (keys g) \<union> (\<Union>(k, ns) \<in> set g. set ns)"

lemma finite_nodes [simp]: "finite (nodes g)"
  by (auto simp: nodes_def)

lemma neighbors_in_nodes: "b \<in> set (neighbors g a) \<Longrightarrow> b \<in> nodes g"
proof -
  assume b: "b \<in> set (neighbors g a)"
  then obtain ns where "map_of g a = Some ns" and "b \<in> set ns"
    by (cases "map_of g a") (auto simp: map_get_def)
  then show ?thesis by (force simp: nodes_def dest: map_of_SomeD)
qed

lemma neighbors_outside: "a \<notin> nodes g \<Longrightarrow> neighbors g a = []"
  by (rule map_get_notin) (auto simp: nodes_def)

section \<open>The search\<close>

record dfs_state =
  visited :: "string set"
  recStack :: "string set"

text \<open>The part of the path from the first occurrence of the neighbour on (\<open>path[cycleStart:]\<close>; the
  index stays 0 if the neighbour is not on the path).\<close>

definition path_from :: "string list \<Rightarrow> string \<Rightarrow> string list" where
  "path_from path x = (if x \<in> set path then dropWhile (\<lambda>j. j \<noteq> x) path else path)"

text \<open>
  The loop over the remaining neighbours of the node at the end of \<open>path\<close>. Its recursive branch is
  the call of \<open>dfs\<close> on an unvisited neighbour, whose body is the loop over that node's neighbours.
\<close>

function dfs_loop ::
  "string list gomap \<Rightarrow> string list \<Rightarrow> string list \<Rightarrow> dfs_state \<Rightarrow> string list option \<times> dfs_state" where
  "dfs_loop g [] path st = (None, st)"
| "dfs_loop g (n # ns) path st =
     (if n \<notin> visited st then
        (case dfs_loop g (neighbors g n) (path @ [n])
                (st\<lparr>visited := insert n (visited st), recStack := insert n (recStack st)\<rparr>) of
           (Some cycle, st1) \<Rightarrow> (Some cycle, st1)
         | (None, st1) \<Rightarrow> dfs_loop g ns path (st1\<lparr>recStack := recStack st1 - {n}\<rparr>))
      else if n \<in> recStack st then (Some (path_from path n), st)
      else dfs_loop g ns path st)"
  by pat_completeness auto

lemma dfs_loop_grows:
  "dfs_loop_dom (g, ns, path, st) \<Longrightarrow> visited st \<subseteq> visited (snd (dfs_loop g ns path st))"
proof (induction g ns path st rule: dfs_loop.pinduct)
  case (2 g n ns path st)
  obtain r st1 where r: "dfs_loop g (neighbors g n) (path @ [n])
      (st\<lparr>visited := insert n (visited st), recStack := insert n (recStack st)\<rparr>) = (r, st1)"
    by fastforce
  show ?case
  proof (cases "n \<notin> visited st")
    case True
    with 2 r have "visited st \<subseteq> visited st1" by auto
    with True 2 r show ?thesis
      by (cases r) (auto simp: dfs_loop.psimps)
  next
    case False
    with 2 show ?thesis by (simp add: dfs_loop.psimps)
  qed
qed (simp add: dfs_loop.psimps)

termination dfs_loop
proof (relation "inv_image (less_than <*lex*> less_than)
    (\<lambda>(g, ns, path, st). (card (nodes g - visited st), length ns))", goal_cases)
  case 1
  show ?case by auto
next
  case (2 g n ns path st)
  show ?case
  proof (cases "n \<in> nodes g")
    case True
    have "card (nodes g - insert n (visited st)) < card (nodes g - visited st)"
      using True 2 by (intro psubset_card_mono) auto
    then show ?thesis by simp
  next
    case False
    then show ?thesis by (simp add: neighbors_outside)
  qed
next
  case (3 g n ns path st r st1)
  have "visited st \<subseteq> visited st1"
    using dfs_loop_grows [OF 3(4)] 3(2) by (metis dfs_state.select_convs(1) dfs_state.surjective
        dfs_state.update_convs(1,2) insert_subset snd_conv)
  then have "card (nodes g - visited st1) \<le> card (nodes g - visited st)"
    by (intro card_mono) auto
  then show ?case by auto
next
  case 4
  then show ?case by auto
qed


text \<open>The closure \<open>dfs\<close> itself, the loop over the roots, and the search from the empty state; \<open>ord\<close>
  is the iteration order of \<open>for job := range graph\<close>.\<close>

definition dfs ::
  "string list gomap \<Rightarrow> string \<Rightarrow> string list \<Rightarrow> dfs_state \<Rightarrow> string list option \<times> dfs_state" where
  "dfs g job path st =
     (case dfs_loop g (neighbors g job) (path @ [job])
             (st\<lparr>visited := insert job (visited st), recStack := insert job (recStack st)\<rparr>) of
        (Some cycle, st1) \<Rightarrow> (Some cycle, st1)
      | (None, st1) \<Rightarrow> (None, st1\<lparr>recStack := recStack st1 - {job}\<rparr>))"

fun dfs_roots :: "string list gomap \<Rightarrow> string list \<Rightarrow> dfs_state \<Rightarrow> string list option" where
  "dfs_roots g [] st = None"
| "dfs_roots g (job # jobs) st =
     (if job \<notin> visited st then
        (case dfs g job [] st of
           (Some cycle, st1) \<Rightarrow> Some cycle
         | (None, st1) \<Rightarrow> dfs_roots g jobs st1)
      else dfs_roots g jobs st)"

definition dfs_start :: dfs_state where
  "dfs_start = \<lparr>visited = {}, recStack = {}\<rparr>"

definition find_cycle :: "(string list \<Rightarrow> string list) \<Rightarrow> string list gomap \<Rightarrow> string list option" where
  "find_cycle ord g = dfs_roots g (ord (keys g)) dfs_start"

lemma dfs_loop_Cons:
  "dfs_loop g (n # ns) path st =
     (if n \<notin> visited st then
        (case dfs g n path st of
           (Some cycle, st1) \<Rightarrow> (Some cycle, st1)
         | (None, st1) \<Rightarrow> dfs_loop g ns path st1)
      else if n \<in> recStack st then (Some (path_from path n), st)
      else dfs_loop g ns path st)"
  by (auto simp: dfs_def split: prod.split option.split)

section \<open>Correctness\<close>

definition chain_of :: "string list gomap \<Rightarrow> string list \<Rightarrow> bool" where
  "chain_of g path \<longleftrightarrow> successively (\<lambda>a b. b \<in> set (neighbors g a)) path"

definition is_cycle :: "string list gomap \<Rightarrow> string list \<Rightarrow> bool" where
  "is_cycle g c \<longleftrightarrow> c \<noteq> [] \<and> chain_of g c \<and> hd c \<in> set (neighbors g (last c))"

definition settled :: "string list gomap \<Rightarrow> string set \<Rightarrow> bool" where
  "settled g F \<longleftrightarrow> (\<forall>x \<in> F. set (neighbors g x) \<subseteq> F)
     \<and> acyclic {(a, b). a \<in> F \<and> b \<in> set (neighbors g a)}"

definition finished :: "dfs_state \<Rightarrow> string set" where
  "finished st = visited st - recStack st"

definition dfs_inv :: "string list gomap \<Rightarrow> string list \<Rightarrow> dfs_state \<Rightarrow> bool" where
  "dfs_inv g path st \<longleftrightarrow> recStack st = set path \<and> set path \<subseteq> visited st \<and> distinct path
     \<and> chain_of g path \<and> settled g (finished st)"

lemma chain_of_reach:
  "chain_of g c \<Longrightarrow> c \<noteq> [] \<Longrightarrow> (hd c, last c) \<in> (edges g)\<^sup>*"
proof (induction c)
  case (Cons a c)
  show ?case
  proof (cases c)
    case (Cons b d)
    with Cons.prems have "(a, b) \<in> edges g" and "chain_of g c"
      by (auto simp: chain_of_def edges_def)
    with Cons Cons.IH show ?thesis by (auto intro: converse_rtrancl_into_rtrancl)
  qed simp
qed simp

lemma is_cycle_not_acyclic:
  assumes "is_cycle g c"
  shows "\<not> acyclic (edges g)"
proof -
  from assms have "(hd c, last c) \<in> (edges g)\<^sup>*" and "(last c, hd c) \<in> edges g"
    by (simp_all add: is_cycle_def chain_of_reach) (simp add: edges_def)
  then have "(hd c, hd c) \<in> (edges g)\<^sup>+" by (rule rtrancl_into_trancl1)
  then show ?thesis by (auto simp: acyclic_def)
qed

lemma path_from_cycle:
  assumes "chain_of g path" and "x \<in> set path" and "x \<in> set (neighbors g (last path))"
  shows "is_cycle g (path_from path x)"
proof -
  let ?d = "dropWhile (\<lambda>j. j \<noteq> x) path"
  from assms(2) have ne: "?d \<noteq> []" by (simp add: dropWhile_eq_Nil_conv)
  have "chain_of g (takeWhile (\<lambda>j. j \<noteq> x) path @ ?d)"
    using assms(1) by simp
  then have "chain_of g ?d"
    unfolding chain_of_def by (simp only: successively_append_iff)
  moreover have "hd ?d = x" using hd_dropWhile [OF ne] by simp
  moreover have "last ?d = last path" using ne by (metis last_appendR takeWhile_dropWhile_id)
  ultimately show ?thesis using assms ne by (simp add: is_cycle_def path_from_def)
qed

lemma settled_insert:
  assumes "settled g F" and "n \<notin> F" and "set (neighbors g n) \<subseteq> F"
  shows "settled g (insert n F)"
proof -
  let ?r = "{(a, b). a \<in> F \<and> b \<in> set (neighbors g a)}"
  let ?s = "{(a, b). a \<in> insert n F \<and> b \<in> set (neighbors g a)}"
  have step: "b \<in> F \<and> (a, b) \<in> ?r" if "a \<in> F" and "(a, b) \<in> ?s" for a b
    using that assms(1) by (auto simp: settled_def)
  have closed: "b \<in> F \<and> (a, b) \<in> ?r\<^sup>+" if "(a, b) \<in> ?s\<^sup>+" and "a \<in> F" for a b
    using that
  proof (induction rule: trancl_induct)
    case (base y)
    then show ?case using step by blast
  next
    case (step y z)
    then have "z \<in> F \<and> (y, z) \<in> ?r" using \<open>\<And>b a. a \<in> F \<Longrightarrow> (a, b) \<in> ?s \<Longrightarrow> b \<in> F \<and> (a, b) \<in> ?r\<close> by blast
    with step show ?case by (meson trancl_into_trancl)
  qed
  have "(x, x) \<notin> ?s\<^sup>+" for x
  proof
    assume x: "(x, x) \<in> ?s\<^sup>+"
    show False
    proof (cases "x \<in> F")
      case True
      with closed [OF x] assms(1) show False by (simp add: settled_def acyclic_def)
    next
      case False
      from x obtain y where "(x, y) \<in> ?s" and "(y, x) \<in> ?s\<^sup>*" by (meson tranclD)
      with False assms(3) have "y \<in> F" by auto
      moreover from \<open>(y, x) \<in> ?s\<^sup>*\<close> have "y = x \<or> (y, x) \<in> ?s\<^sup>+" by (auto dest: rtranclD)
      ultimately show False using False closed [of y x] by blast
    qed
  qed
  then have "acyclic ?s" by (simp add: acyclic_def)
  moreover have "\<forall>x \<in> insert n F. set (neighbors g x) \<subseteq> insert n F"
    using assms by (auto simp: settled_def)
  ultimately show ?thesis by (simp add: settled_def)
qed


text \<open>The loop keeps the invariant and finishes every neighbour, unless it returns a cycle.\<close>

lemma dfs_inv_enter:
  assumes "dfs_inv g path st" and "n \<notin> visited st"
    and "path \<noteq> [] \<longrightarrow> n \<in> set (neighbors g (last path))"
  shows "dfs_inv g (path @ [n])
    (st\<lparr>visited := insert n (visited st), recStack := insert n (recStack st)\<rparr>)"
proof -
  have "insert n (visited st) - insert n (recStack st) = visited st - recStack st"
    using assms(2) by auto
  moreover have "chain_of g (path @ [n])"
    using assms(1,3) by (cases "path = []") (auto simp: dfs_inv_def chain_of_def successively_append_iff)
  ultimately show ?thesis
    using assms(1,2) by (auto simp: dfs_inv_def finished_def)
qed

lemma dfs_inv_leave:
  assumes "dfs_inv g (path @ [n]) st" and "set (neighbors g n) \<subseteq> finished st"
  shows "dfs_inv g path (st\<lparr>recStack := recStack st - {n}\<rparr>)"
    and "n \<in> finished (st\<lparr>recStack := recStack st - {n}\<rparr>)"
proof -
  have n: "n \<in> visited st" "n \<in> recStack st" "n \<notin> set path"
    using assms(1) by (auto simp: dfs_inv_def)
  then have "finished (st\<lparr>recStack := recStack st - {n}\<rparr>) = insert n (finished st)"
    by (auto simp: finished_def)
  moreover have "settled g (insert n (finished st))"
    using assms n by (intro settled_insert) (auto simp: dfs_inv_def finished_def)
  ultimately show "dfs_inv g path (st\<lparr>recStack := recStack st - {n}\<rparr>)"
    and "n \<in> finished (st\<lparr>recStack := recStack st - {n}\<rparr>)"
    using assms(1) by (auto simp: dfs_inv_def chain_of_def successively_append_iff)
qed

lemma dfs_loop_None:
  assumes "dfs_loop g ns path st = (None, st')" and "dfs_inv g path st"
    and "path \<noteq> [] \<longrightarrow> set ns \<subseteq> set (neighbors g (last path))"
  shows "dfs_inv g path st' \<and> visited st \<subseteq> visited st' \<and> set ns \<subseteq> finished st'"
  using assms
proof (induction g ns path st arbitrary: st' rule: dfs_loop.induct)
  case (2 g n ns path st)
  let ?enter = "st\<lparr>visited := insert n (visited st), recStack := insert n (recStack st)\<rparr>"
  show ?case
  proof (cases "n \<notin> visited st")
    case True
    obtain r st1 where r: "dfs_loop g (neighbors g n) (path @ [n]) ?enter = (r, st1)"
      by fastforce
    with 2(4) True have none: "r = None"
      and rest: "dfs_loop g ns path (st1\<lparr>recStack := recStack st1 - {n}\<rparr>) = (None, st')"
      by (auto split: option.splits)
    have inner: "dfs_inv g (path @ [n]) st1" "visited ?enter \<subseteq> visited st1"
        "set (neighbors g n) \<subseteq> finished st1"
      using 2(1) [OF True, of st1] r none dfs_inv_enter [OF 2(5) True] 2(6) by auto
    note left = dfs_inv_leave [OF inner(1,3)]
    have outer: "dfs_inv g path st'" "visited st1 \<subseteq> visited st'" "set ns \<subseteq> finished st'"
      using 2(2) [OF True r [symmetric] none rest left(1)] 2(6) by auto
    moreover have "n \<in> finished st'"
      using left outer(1,2) by (auto simp: finished_def dfs_inv_def)
    ultimately show ?thesis using inner(2) by auto
  next
    case False
    with 2(4) have "n \<notin> recStack st" and "dfs_loop g ns path st = (None, st')"
      by (auto split: if_splits)
    with 2(3) [OF _ _ _ 2(5)] False 2(6)
    show ?thesis using 2(5) by (auto simp: finished_def dfs_inv_def)
  qed
qed simp

lemma dfs_loop_Some:
  assumes "dfs_loop g ns path st = (Some c, st')" and "dfs_inv g path st"
    and "path \<noteq> [] \<longrightarrow> set ns \<subseteq> set (neighbors g (last path))"
  shows "is_cycle g c"
  using assms
proof (induction g ns path st arbitrary: st' rule: dfs_loop.induct)
  case (2 g n ns path st)
  let ?enter = "st\<lparr>visited := insert n (visited st), recStack := insert n (recStack st)\<rparr>"
  show ?case
  proof (cases "n \<notin> visited st")
    case True
    obtain r st1 where r: "dfs_loop g (neighbors g n) (path @ [n]) ?enter = (r, st1)"
      by fastforce
    have enter: "dfs_inv g (path @ [n]) ?enter" using dfs_inv_enter [OF 2(5) True] 2(6) by simp
    show ?thesis
    proof (cases r)
      case None
      with 2(4) True r have rest: "dfs_loop g ns path (st1\<lparr>recStack := recStack st1 - {n}\<rparr>) = (Some c, st')"
        by simp
      have "dfs_inv g (path @ [n]) st1 \<and> set (neighbors g n) \<subseteq> finished st1"
        using dfs_loop_None [OF r [unfolded None] enter] by simp
      then have "dfs_inv g path (st1\<lparr>recStack := recStack st1 - {n}\<rparr>)"
        using dfs_inv_leave(1) by blast
      with 2(2) [OF True r [symmetric] None rest] 2(6) show ?thesis by simp
    next
      case (Some d)
      with 2(4) True r have "d = c" and "st1 = st'" by auto
      with 2(1) [OF True, of st1] r Some enter show ?thesis by simp
    qed
  next
    case False
    show ?thesis
    proof (cases "n \<in> recStack st")
      case True
      with False 2(4) have c: "c = path_from path n" by simp
      from True 2(5) have "chain_of g path" "n \<in> set path" by (auto simp: dfs_inv_def)
      with 2(6) show ?thesis unfolding c by (intro path_from_cycle) auto
    next
      case nr: False
      with False 2(4) have "dfs_loop g ns path st = (Some c, st')" by simp
      with 2(3) [OF _ nr _ 2(5)] False 2(6) show ?thesis by simp
    qed
  qed
qed simp


lemma dfs_inv_start: "dfs_inv g [] dfs_start"
  by (simp add: dfs_inv_def dfs_start_def chain_of_def settled_def finished_def acyclic_def)

lemma dfs_roots_loop:
  "dfs_inv g [] st \<Longrightarrow> dfs_roots g js st = fst (dfs_loop g js [] st)"
proof (induction js arbitrary: st)
  case (Cons j js)
  have "recStack st = {}" using Cons.prems by (simp add: dfs_inv_def)
  obtain r st1 where r: "dfs g j [] st = (r, st1)" by fastforce
  have "dfs_roots g js st1 = fst (dfs_loop g js [] st1)" if "j \<notin> visited st" and "r = None"
  proof -
    have "dfs_loop g [j] [] st = (None, st1)"
      using that r by (simp add: dfs_loop_Cons del: dfs_loop.simps(2))
    with dfs_loop_None Cons.prems have "dfs_inv g [] st1" by blast
    then show ?thesis by (rule Cons.IH)
  qed
  with Cons r \<open>recStack st = {}\<close> show ?case
    by (cases r) (auto simp: dfs_loop_Cons simp del: dfs_loop.simps(2))
qed simp

lemma acyclic_edges_from:
  assumes "settled g F" and "set (keys g) \<subseteq> F"
  shows "acyclic (edges g)"
proof -
  have "edges g \<subseteq> {(a, b). a \<in> F \<and> b \<in> set (neighbors g a)}"
    using assms(2) map_get_notin [of _ g "[]"] by (fastforce simp: edges_def)
  with assms(1) show ?thesis by (auto simp: settled_def intro: acyclic_subset)
qed

theorem find_cycle_sound: "find_cycle ord g = Some c \<Longrightarrow> is_cycle g c"
  unfolding find_cycle_def dfs_roots_loop [OF dfs_inv_start]
  by (metis dfs_inv_start dfs_loop_Some prod.collapse)

theorem find_cycle_complete:
  assumes "range_order ord"
  shows "find_cycle ord g = None \<longleftrightarrow> acyclic (edges g)"
proof
  assume "find_cycle ord g = None"
  then obtain st' where "dfs_loop g (ord (keys g)) [] dfs_start = (None, st')"
    unfolding find_cycle_def dfs_roots_loop [OF dfs_inv_start] by (metis prod.collapse)
  from dfs_loop_None [OF this dfs_inv_start] assms
  have "settled g (finished st')" and "set (keys g) \<subseteq> finished st'"
    by (auto simp: dfs_inv_def set_range_order)
  then show "acyclic (edges g)" by (rule acyclic_edges_from)
next
  assume "acyclic (edges g)"
  then show "find_cycle ord g = None"
    using find_cycle_sound is_cycle_not_acyclic by (metis not_None_eq)
qed

section \<open>The graph of a job list\<close>

lemma map_of_needs_graph_fold:
  "distinct (map jobName jobs) \<Longrightarrow>
   map_of (fold (\<lambda>job g. map_set (jobName job) (jobNeeds job) g) jobs g0) =
     map_of g0 ++ map_of (map (\<lambda>j. (jobName j, jobNeeds j)) jobs)"
proof (induction jobs arbitrary: g0)
  case (Cons j jobs)
  then have "map_of (map (\<lambda>j. (jobName j, jobNeeds j)) jobs) (jobName j) = None"
    by (auto simp: map_of_eq_None_iff)
  with Cons show ?case by (auto simp: fun_eq_iff map_add_def split: option.splits)
qed simp

lemma neighbors_needs_graph:
  assumes "distinct (map jobName jobs)" and "j \<in> set jobs"
  shows "neighbors (needs_graph jobs) (jobName j) = jobNeeds j"
proof -
  have "map_of (map (\<lambda>j. (jobName j, jobNeeds j)) jobs) (jobName j) = Some (jobNeeds j)"
    using assms by (intro map_of_is_SomeI) (auto simp: comp_def)
  with assms(1) show ?thesis
    by (simp add: needs_graph_def map_get_def map_of_needs_graph_fold)
qed

lemma set_keys_needs_graph [simp]: "set (keys (needs_graph jobs)) = jobName ` set jobs"
proof -
  have "set (keys (fold (\<lambda>job g. map_set (jobName job) (jobNeeds job) g) jobs g0))
    = set (keys g0) \<union> jobName ` set jobs" for g0
    by (induction jobs arbitrary: g0) auto
  then show ?thesis by (simp add: needs_graph_def)
qed

lemma distinct_keys_needs_graph: "distinct (keys (needs_graph jobs))"
proof -
  have "distinct (keys g0) \<Longrightarrow>
    distinct (keys (fold (\<lambda>job g. map_set (jobName job) (jobNeeds job) g) jobs g0))" for g0
    by (induction jobs arbitrary: g0) (auto simp: distinct_keys_map_set)
  then show ?thesis by (simp add: needs_graph_def)
qed

definition needs_rel :: "Job list \<Rightarrow> (string \<times> string) set" where
  "needs_rel jobs = {(jobName j, n) | j n. j \<in> set jobs \<and> n \<in> set (jobNeeds j)}"

lemma edges_needs_graph:
  assumes "distinct (map jobName jobs)"
  shows "edges (needs_graph jobs) = needs_rel jobs"
proof -
  have "(a, b) \<in> edges (needs_graph jobs) \<longleftrightarrow> (a, b) \<in> needs_rel jobs" for a b
  proof (cases "a \<in> jobName ` set jobs")
    case True
    then obtain j where j: "j \<in> set jobs" and a: "a = jobName j" by auto
    have uniq: "k = j" if "k \<in> set jobs" and "jobName k = jobName j" for k
      using that j assms by (metis distinct_map inj_onD)
    have "(a, b) \<in> edges (needs_graph jobs) \<longleftrightarrow> b \<in> set (jobNeeds j)"
      using neighbors_needs_graph [OF assms j] a by (simp add: edges_def)
    also have "\<dots> \<longleftrightarrow> (\<exists>k. k \<in> set jobs \<and> jobName j = jobName k \<and> b \<in> set (jobNeeds k))"
      using j by (metis uniq)
    also have "\<dots> \<longleftrightarrow> (a, b) \<in> needs_rel jobs"
      unfolding needs_rel_def a by auto
    finally show ?thesis .
  next
    case False
    then have "neighbors (needs_graph jobs) a = []" by (intro map_get_notin) simp
    with False show ?thesis by (auto simp: edges_def needs_rel_def)
  qed
  then show ?thesis by auto
qed

end
