(* ===== verification/Planner.thy ===== *)
theory Planner
  imports Cycle_Check
begin

text \<open>
  \<open>internal/common/planner/planner.go\<close>: the execution plan of a pipeline. Jobs of a stage are
  ordered by Kahn's algorithm on the \<open>needs\<close> graph; the queue starts with the keys of the in-degree
  map in the order Go ranges over it (the parameter \<open>ord\<close>). The theory shows that the result lists
  jobs of the stage, each at most once and after everything it needs, and that it lists all of them
  exactly when the \<open>needs\<close> of the stage stay inside the stage and have no cycle. The locale
  \<open>job_scheduler\<close> is this contract, which the orchestrator relies on.
\<close>

section \<open>Kahn's algorithm\<close>

definition jobsForStage :: "string \<Rightarrow> Pipeline option \<Rightarrow> Job list" where
  "jobsForStage stage pipeline =
     (case pipeline of
        None \<Rightarrow> []
      | Some p \<Rightarrow> filter (\<lambda>job. jobStage job = stage) (pipelineJobs p))"

definition zero_job :: Job where
  "zero_job = \<lparr>jobName = '''', jobStage = '''', jobImage = '''', jobScript = [], jobNeeds = [],
     jobFailures = False\<rparr>"

definition job_map :: "Job list \<Rightarrow> Job gomap" where
  "job_map jobs = fold (\<lambda>job m. map_set (jobName job) job m) jobs []"

definition in_degrees :: "Job list \<Rightarrow> int gomap" where
  "in_degrees jobs = fold (\<lambda>job m. map_set (jobName job) (int (length (jobNeeds job))) m) jobs []"

text \<open>\<open>dependents[need] = append(dependents[need], x)\<close> for every \<open>need\<close> of every job, where \<open>x\<close> is the
  job itself in \<open>scheduleJobsInStage\<close> and its name in \<open>BuildStagePlan\<close>.\<close>

definition add_dependents :: "(Job \<Rightarrow> 'a) \<Rightarrow> Job \<Rightarrow> 'a list gomap \<Rightarrow> 'a list gomap" where
  "add_dependents f job m = fold (\<lambda>need m. map_set need (map_get [] m need @ [f job]) m) (jobNeeds job) m"

definition dependents_by :: "(Job \<Rightarrow> 'a) \<Rightarrow> Job list \<Rightarrow> 'a list gomap" where
  "dependents_by f jobs = fold (add_dependents f) jobs []"

text \<open>The inner loop over the dependents of the dequeued name.\<close>

fun release :: "string list \<Rightarrow> string list \<Rightarrow> int gomap \<Rightarrow> string list \<times> int gomap" where
  "release [] queue deg = (queue, deg)"
| "release (d # ds) queue deg =
     (let deg1 = map_set d (map_get 0 deg d - 1) deg
      in release ds (if map_get 0 deg1 d = 0 then queue @ [d] else queue) deg1)"

definition positive :: "int gomap \<Rightarrow> nat" where
  "positive deg = length (filter (\<lambda>(k, v). 0 < v) deg)"

lemma positive_map_set:
  "positive (map_set k (map_get 0 deg k - 1) deg) + (if map_get 0 deg k = 1 then 1 else 0) = positive deg"
proof (induction deg)
  case (Cons e deg)
  then show ?case by (cases e) (auto simp: positive_def map_get_def)
qed (simp add: positive_def)

lemma release_measure:
  "release ds queue deg = (queue', deg') \<Longrightarrow> length queue' + positive deg' = length queue + positive deg"
proof (induction ds queue deg rule: release.induct)
  case (2 d ds queue deg)
  then show ?case
    using positive_map_set [of d deg] by (auto simp: Let_def map_get_map_set split: if_splits)
qed simp

function kahn_loop ::
  "Job gomap \<Rightarrow> Job list gomap \<Rightarrow> string list \<Rightarrow> int gomap \<Rightarrow> Job list \<Rightarrow> Job list" where
  "kahn_loop jobMap dependents [] inDegree result = result"
| "kahn_loop jobMap dependents (name # queue) inDegree result =
     (let (queue1, inDegree1) = release (map jobName (map_get [] dependents name)) queue inDegree
      in kahn_loop jobMap dependents queue1 inDegree1 (result @ [map_get zero_job jobMap name]))"
  by pat_completeness auto
termination
  by (relation "measure (\<lambda>(jm, d, queue, deg, r). length queue + positive deg)")
    (auto dest!: release_measure [OF sym])

definition scheduleJobsInStage :: "(string list \<Rightarrow> string list) \<Rightarrow> Job list \<Rightarrow> Job list" where
  "scheduleJobsInStage ord jobs =
     (if jobs = [] then []
      else
        let jobMap = job_map jobs;
            dependents = dependents_by (\<lambda>job. job) jobs;
            inDegree = in_degrees jobs;
            queue = filter (\<lambda>name. map_get 0 inDegree name = 0) (ord (keys inDegree))
        in kahn_loop jobMap dependents queue inDegree [])"

section \<open>Plans\<close>

definition job_plan :: "Job \<Rightarrow> JobExecutionPlan" where
  "job_plan job = \<lparr>jepName = jobName job, jepImage = jobImage job, jepScript = jobScript job\<rparr>"

definition buildStagePlan :: "(string list \<Rightarrow> string list) \<Rightarrow> Stage \<Rightarrow> Pipeline \<Rightarrow> StageExecutionPlan" where
  "buildStagePlan ord stage pipeline =
     \<lparr>sepName = stageName stage,
      sepJobs = map job_plan (scheduleJobsInStage ord (jobsForStage (stageName stage) (Some pipeline)))\<rparr>"

definition GenerateExecutionPlan :: "(string list \<Rightarrow> string list) \<Rightarrow> Pipeline \<Rightarrow> goerr + ExecutionPlan" where
  "GenerateExecutionPlan ord pipeline =
     Inr \<lparr>epStages = map (\<lambda>stage. buildStagePlan ord stage pipeline) (pipelineStages pipeline)\<rparr>"

definition BuildStagePlan :: "(string list \<Rightarrow> string list) \<Rightarrow> string \<Rightarrow> Pipeline option \<Rightarrow> StagePlan" where
  "BuildStagePlan ord stage pipeline =
     (let stageJobs = jobsForStage stage pipeline;
          orderedJobs = scheduleJobsInStage ord stageJobs
      in \<lparr>spName = stage,
          spJobs = map job_plan orderedJobs,
          spNeeds = needs_graph stageJobs,
          spDependents = dependents_by jobName stageJobs,
          spInDegree = in_degrees stageJobs,
          spJobByName = fold (\<lambda>job m. map_set (jobName job) (job_plan job) m) orderedJobs []\<rparr>)"

section \<open>The maps built from a job list\<close>

text \<open>Folding \<open>map_set\<close> over jobs with distinct names gives the map the jobs describe.\<close>

lemma map_get_fold_set:
  assumes "distinct (map jobName jobs)" and "j \<in> set jobs"
  shows "map_get z (fold (\<lambda>job m. map_set (jobName job) (f job) m) jobs m0) (jobName j) = f j"
  using assms by (intro map_get_fold) (auto simp: distinct_map inj_on_def)

lemma set_keys_fold_set:
  "set (keys (fold (\<lambda>job m. map_set (jobName job) (f job) m) jobs m0)) = set (keys m0) \<union> jobName ` set jobs"
  by (induction jobs arbitrary: m0) auto

lemma distinct_keys_fold_set:
  "distinct (keys m0) \<Longrightarrow> distinct (keys (fold (\<lambda>job m. map_set (jobName job) (f job) m) jobs m0))"
  by (induction jobs arbitrary: m0) (auto simp: distinct_keys_map_set)

lemma map_get_job_map:
  "distinct (map jobName jobs) \<Longrightarrow> j \<in> set jobs \<Longrightarrow> map_get zero_job (job_map jobs) (jobName j) = j"
  unfolding job_map_def by (rule map_get_fold_set)

lemma map_get_in_degrees:
  "distinct (map jobName jobs) \<Longrightarrow> j \<in> set jobs \<Longrightarrow>
   map_get 0 (in_degrees jobs) (jobName j) = int (length (jobNeeds j))"
  unfolding in_degrees_def by (rule map_get_fold_set)

lemma set_keys_in_degrees [simp]: "set (keys (in_degrees jobs)) = jobName ` set jobs"
  by (simp add: in_degrees_def set_keys_fold_set)

lemma distinct_keys_in_degrees: "distinct (keys (in_degrees jobs))"
  by (simp add: in_degrees_def distinct_keys_fold_set)

lemma map_get_add_dependents:
  "map_get [] (add_dependents f job m) n = map_get [] m n @ replicate (count_list (jobNeeds job) n) (f job)"
proof -
  have "map_get [] (fold (\<lambda>need m. map_set need (map_get [] m need @ [f job]) m) ns m) n
      = map_get [] m n @ replicate (count_list ns n) (f job)" for ns
    by (induction ns arbitrary: m) (auto simp: map_get_map_set replicate_append_same [symmetric])
  then show ?thesis by (simp add: add_dependents_def)
qed

lemma map_get_dependents_by:
  "map_get [] (dependents_by f jobs) n = concat (map (\<lambda>j. replicate (count_list (jobNeeds j) n) (f j)) jobs)"
proof -
  have "map_get [] (fold (add_dependents f) jobs m) n
      = map_get [] m n @ concat (map (\<lambda>j. replicate (count_list (jobNeeds j) n) (f j)) jobs)" for m
    by (induction jobs arbitrary: m) (auto simp: map_get_add_dependents)
  then show ?thesis by (simp add: dependents_by_def)
qed

text \<open>A job occurs among the dependents of a name as often as it lists the name in its needs.\<close>

lemma count_dependents:
  assumes "distinct (map jobName jobs)" and "j \<in> set jobs"
  shows "count_list (concat (map (\<lambda>j. replicate (count_list (jobNeeds j) n) (jobName j)) jobs)) (jobName j)
    = count_list (jobNeeds j) n"
  using assms
proof (induction jobs)
  case (Cons k jobs)
  have rep: "count_list (replicate c x) y = (if x = y then c else 0)" for c :: nat and x y :: string
    by (induction c) auto
  have other: "count_list (concat (map (\<lambda>j. replicate (count_list (jobNeeds j) n) (jobName j)) jobs)) x = 0"
    if "x \<notin> jobName ` set jobs" for x
    using that by (induction jobs) (auto simp: rep)
  from Cons show ?case by (cases "j = k") (auto simp: rep other)
qed simp


section \<open>Correctness of the order\<close>

text \<open>The inner loop subtracts the number of occurrences and enqueues each name that reaches zero.\<close>

lemma release_degrees:
  "release ds queue deg = (queue', deg') \<Longrightarrow> map_get 0 deg' m = map_get 0 deg m - int (count_list ds m)"
  by (induction ds queue deg rule: release.induct) (auto simp: Let_def map_get_map_set)

lemma release_queue:
  "release ds queue deg = (queue', deg') \<Longrightarrow>
   \<exists>new. queue' = queue @ new \<and> distinct new
     \<and> (\<forall>m. m \<in> set new \<longleftrightarrow> 0 < map_get 0 deg m \<and> map_get 0 deg' m \<le> 0)"
proof (induction ds queue deg rule: release.induct)
  case (2 d ds queue deg)
  let ?deg1 = "map_set d (map_get 0 deg d - 1) deg"
  let ?q1 = "if map_get 0 ?deg1 d = 0 then queue @ [d] else queue"
  have rest: "release ds ?q1 ?deg1 = (queue', deg')" using 2(2) by (simp add: Let_def)
  from 2(1) [OF refl rest] obtain new where new: "queue' = ?q1 @ new" "distinct new"
      "\<forall>m. m \<in> set new \<longleftrightarrow> 0 < map_get 0 ?deg1 m \<and> map_get 0 deg' m \<le> 0" by blast
  have below: "map_get 0 deg' d \<le> map_get 0 deg d - 1"
    using release_degrees [OF rest, of d] by (simp add: map_get_map_set)
  have deg1: "map_get 0 ?deg1 m = (if m = d then map_get 0 deg d - 1 else map_get 0 deg m)" for m
    by (simp add: map_get_map_set)
  have mem: "m \<in> set new \<longleftrightarrow> 0 < (if m = d then map_get 0 deg d - 1 else map_get 0 deg m) \<and> map_get 0 deg' m \<le> 0" for m
    using new(3) deg1 by simp
  show ?case
  proof (cases "map_get 0 deg d = 1")
    case True
    then have "queue' = queue @ (d # new)" using new(1) deg1 [of d] by simp
    moreover have "m \<in> set (d # new) \<longleftrightarrow> 0 < map_get 0 deg m \<and> map_get 0 deg' m \<le> 0" for m
      using mem [of m] True below by (cases "m = d") auto
    moreover have "distinct (d # new)" using mem [of d] True new(2) by simp
    ultimately show ?thesis by blast
  next
    case False
    then have "queue' = queue @ new" using new(1) deg1 [of d] by simp
    moreover have "m \<in> set new \<longleftrightarrow> 0 < map_get 0 deg m \<and> map_get 0 deg' m \<le> 0" for m
      using mem [of m] False below by (cases "m = d") auto
    ultimately show ?thesis using new(2) by blast
  qed
qed auto

text \<open>The open needs of a job: the occurrences that are not among the names already emitted.\<close>

definition open_needs :: "string set \<Rightarrow> Job \<Rightarrow> nat" where
  "open_needs emitted job = length (filter (\<lambda>n. n \<notin> emitted) (jobNeeds job))"

lemma open_needs_0: "open_needs D j = 0 \<longleftrightarrow> set (jobNeeds j) \<subseteq> D"
  by (auto simp: open_needs_def filter_empty_conv)

lemma open_needs_insert:
  "n \<notin> D \<Longrightarrow> open_needs (insert n D) j + count_list (jobNeeds j) n = open_needs D j"
proof -
  assume n: "n \<notin> D"
  have "length (filter (\<lambda>x. x \<notin> insert n D) ns) + count_list ns n = length (filter (\<lambda>x. x \<notin> D) ns)" for ns
    using n by (induction ns) auto
  then show ?thesis by (simp add: open_needs_def)
qed

definition topo_sorted :: "Job list \<Rightarrow> bool" where
  "topo_sorted js \<longleftrightarrow> (\<forall>i < length js. set (jobNeeds (js ! i)) \<subseteq> jobName ` set (take i js))"

definition kahn_inv :: "Job list \<Rightarrow> string list \<Rightarrow> int gomap \<Rightarrow> Job list \<Rightarrow> bool" where
  "kahn_inv jobs queue deg result \<longleftrightarrow>
     set result \<subseteq> set jobs \<and> distinct (map jobName result @ queue)
     \<and> set queue \<subseteq> jobName ` set jobs \<and> topo_sorted result
     \<and> (\<forall>j \<in> set jobs. map_get 0 deg (jobName j) = int (open_needs (jobName ` set result) j)
          \<and> (jobName j \<in> jobName ` set result \<union> set queue \<longleftrightarrow> open_needs (jobName ` set result) j = 0))"

lemma topo_sorted_snoc:
  "topo_sorted (js @ [j]) \<longleftrightarrow> topo_sorted js \<and> set (jobNeeds j) \<subseteq> jobName ` set js"
  by (auto simp: topo_sorted_def nth_append less_Suc_eq)

lemma job_unique:
  "distinct (map jobName jobs) \<Longrightarrow> j \<in> set jobs \<Longrightarrow> k \<in> set jobs \<Longrightarrow> jobName j = jobName k \<Longrightarrow> j = k"
  by (metis distinct_map inj_onD)

lemma kahn_inv_step:
  assumes dist: "distinct (map jobName jobs)" and inv: "kahn_inv jobs (name # queue) deg result"
    and rel: "release (map jobName (map_get [] (dependents_by (\<lambda>job. job) jobs) name)) queue deg = (queue1, deg1)"
  shows "kahn_inv jobs queue1 deg1 (result @ [map_get zero_job (job_map jobs) name])"
proof -
  obtain j0 where j0: "j0 \<in> set jobs" "name = jobName j0" using inv by (auto simp: kahn_inv_def)
  then have next_job: "map_get zero_job (job_map jobs) name = j0" by (simp add: map_get_job_map dist)
  let ?D = "jobName ` set result" and ?D1 = "jobName ` set (result @ [j0])"
  have fresh: "name \<notin> ?D" and D1: "?D1 = insert name ?D"
    using inv j0 by (auto simp: kahn_inv_def)
  have deps: "map jobName (map_get [] (dependents_by (\<lambda>job. job) jobs) name)
      = concat (map (\<lambda>j. replicate (count_list (jobNeeds j) name) (jobName j)) jobs)"
    by (simp add: map_get_dependents_by map_concat comp_def)
  have deg1: "map_get 0 deg1 (jobName j) = int (open_needs ?D1 j)" if "j \<in> set jobs" for j
  proof -
    have "map_get 0 deg (jobName j) = int (open_needs ?D j)" using inv that by (simp add: kahn_inv_def)
    with release_degrees [OF rel, of "jobName j"] open_needs_insert [OF fresh, of j]
    show ?thesis unfolding D1 deps count_dependents [OF dist that] by linarith
  qed
  have mono: "open_needs ?D1 j \<le> open_needs ?D j" for j
    using open_needs_insert [OF fresh, of j] unfolding D1 by linarith
  obtain new where new: "queue1 = queue @ new" "distinct new"
      "\<And>m. m \<in> set new \<longleftrightarrow> 0 < map_get 0 deg m \<and> map_get 0 deg1 m \<le> 0"
    using release_queue [OF rel] by blast
  have new_job: "m \<in> jobName ` set jobs" if "m \<in> set new" for m
  proof (rule ccontr)
    assume "m \<notin> jobName ` set jobs"
    then have "count_list (concat (map (\<lambda>j. replicate (count_list (jobNeeds j) name) (jobName j)) jobs)) m = 0"
      by (auto simp: count_list_0_iff)
    with release_degrees [OF rel, of m] new(3) [of m] that show False by (auto simp: deps)
  qed
  have new_iff: "jobName j \<in> set new \<longleftrightarrow> 0 < open_needs ?D j \<and> open_needs ?D1 j = 0" if "j \<in> set jobs" for j
    using new(3) [of "jobName j"] deg1 [OF that] inv that by (simp add: kahn_inv_def)
  have status: "jobName j \<in> ?D \<union> set (name # queue) \<longleftrightarrow> open_needs ?D j = 0" if "j \<in> set jobs" for j
    using inv that by (simp add: kahn_inv_def)
  have "m \<notin> ?D \<union> set (name # queue)" if m: "m \<in> set new" for m
  proof -
    from new_job [OF m] obtain j where "j \<in> set jobs" "m = jobName j" by blast
    with m new_iff [of j] status [of j] show ?thesis by simp
  qed
  moreover have "distinct (map jobName result @ name # queue)"
    using inv by (simp add: kahn_inv_def)
  ultimately have "distinct (map jobName (result @ [j0]) @ queue1)"
    using new(1,2) j0(2) by auto
  moreover have "topo_sorted (result @ [j0])"
    using inv status [OF j0(1)] j0(2) by (simp add: kahn_inv_def topo_sorted_snoc open_needs_0)
  moreover have "jobName j \<in> ?D1 \<union> set queue1 \<longleftrightarrow> open_needs ?D1 j = 0" if "j \<in> set jobs" for j
    using status [OF that] new_iff [OF that] mono [of j] new(1) unfolding D1 by auto
  ultimately show ?thesis
    using inv j0 deg1 new(1) new_job unfolding next_job by (auto simp: kahn_inv_def)
qed

lemma kahn_loop_inv:
  assumes "distinct (map jobName jobs)" and "kahn_inv jobs queue deg result"
  shows "\<exists>deg'. kahn_inv jobs [] deg' (kahn_loop (job_map jobs) (dependents_by (\<lambda>job. job) jobs) queue deg result)"
  using assms(2)
proof (induction "job_map jobs" "dependents_by (\<lambda>job. job) jobs" queue deg result rule: kahn_loop.induct)
  case (2 name queue deg result)
  obtain queue1 deg1 where rel:
      "release (map jobName (map_get [] (dependents_by (\<lambda>job. job) jobs) name)) queue deg = (queue1, deg1)"
    by fastforce
  show ?case
    using 2(1) [OF rel [symmetric] refl kahn_inv_step [OF assms(1) 2(2) rel]] rel by simp
qed auto

lemma kahn_inv_start:
  assumes "distinct (map jobName jobs)" and "range_order ord"
  shows "kahn_inv jobs (filter (\<lambda>name. map_get 0 (in_degrees jobs) name = 0) (ord (keys (in_degrees jobs))))
    (in_degrees jobs) []"
  using assms map_get_in_degrees [OF assms(1)]
  by (auto simp: kahn_inv_def topo_sorted_def open_needs_def set_range_order distinct_range_order
      distinct_keys_in_degrees)


lemma schedule_inv:
  assumes "distinct (map jobName jobs)" and "range_order ord"
  shows "\<exists>deg. kahn_inv jobs [] deg (scheduleJobsInStage ord jobs)"
proof (cases "jobs = []")
  case True
  then show ?thesis by (simp add: scheduleJobsInStage_def kahn_inv_def topo_sorted_def)
next
  case False
  then show ?thesis
    using kahn_loop_inv [OF assms(1) kahn_inv_start [OF assms]] by (simp add: scheduleJobsInStage_def Let_def)
qed

text \<open>An order that lists a job after its needs has no cycle, whatever the needs are.\<close>

lemma topo_sorted_acyclic:
  assumes "topo_sorted js" and "distinct (map jobName js)"
  shows "acyclic (needs_rel js)" and "snd ` needs_rel js \<subseteq> jobName ` set js"
proof -
  have step: "\<exists>i k. k < i \<and> i < length js \<and> a = jobName (js ! i) \<and> b = jobName (js ! k)"
    if "(a, b) \<in> needs_rel js" for a b
  proof -
    from that obtain i where i: "i < length js" "a = jobName (js ! i)" "b \<in> set (jobNeeds (js ! i))"
      by (auto simp: needs_rel_def in_set_conv_nth)
    with assms(1) have "b \<in> jobName ` set (take i js)" by (auto simp: topo_sorted_def)
    then obtain k where "k < i" "b = jobName (js ! k)"
      by (auto simp: in_set_conv_nth)
    with i show ?thesis by blast
  qed
  then show "snd ` needs_rel js \<subseteq> jobName ` set js"
    by (fastforce dest: nth_mem)
  have idx: "i = k" if "i < length js" "k < length js" "jobName (js ! i) = jobName (js ! k)" for i k
    using that assms(2) by (metis distinct_conv_nth length_map nth_map)
  define pos where "pos x = (THE i. i < length js \<and> jobName (js ! i) = x)" for x
  have pos: "pos (jobName (js ! i)) = i" if "i < length js" for i
    unfolding pos_def using that idx by blast
  have "pos b < pos a" if ab: "(a, b) \<in> needs_rel js" for a b
    using step [OF ab] pos by (metis order.strict_trans)
  then have "(needs_rel js)\<inverse> \<subseteq> inv_image less_than pos" by auto
  then have "wf ((needs_rel js)\<inverse>)" by (rule wf_subset [rotated]) simp
  then show "acyclic (needs_rel js)" using wf_acyclic acyclic_converse by blast
qed

text \<open>With closed and acyclic needs nothing is left over: a least job outside the result would have
  no open need, hence be in the result.\<close>

lemma kahn_inv_complete:
  assumes inv: "kahn_inv jobs [] deg result" and closed: "snd ` needs_rel jobs \<subseteq> jobName ` set jobs"
    and acyc: "acyclic (needs_rel jobs)"
  shows "jobName ` set jobs \<subseteq> jobName ` set result"
proof (rule ccontr)
  let ?left = "jobName ` set jobs - jobName ` set result"
  assume "\<not> jobName ` set jobs \<subseteq> jobName ` set result"
  then obtain x where "x \<in> ?left" by blast
  have "needs_rel jobs = (\<Union>j \<in> set jobs. (\<lambda>n. (jobName j, n)) ` set (jobNeeds j))"
    by (auto simp: needs_rel_def)
  then have "finite (needs_rel jobs)" by simp
  with acyc have "wf ((needs_rel jobs)\<inverse>)" by (simp add: finite_acyclic_wf_converse)
  with \<open>x \<in> ?left\<close> obtain a where a: "a \<in> ?left" "\<And>b. (a, b) \<in> needs_rel jobs \<Longrightarrow> b \<notin> ?left"
    by (metis wfE_min converse_iff)
  then obtain j where j: "j \<in> set jobs" "a = jobName j" by auto
  have "set (jobNeeds j) \<subseteq> jobName ` set result"
  proof
    fix b assume "b \<in> set (jobNeeds j)"
    with j have "(a, b) \<in> needs_rel jobs" by (auto simp: needs_rel_def)
    with a(2) closed show "b \<in> jobName ` set result" by force
  qed
  with inv j have "a \<in> jobName ` set result" by (auto simp: kahn_inv_def open_needs_0)
  with a(1) show False by simp
qed


section \<open>The contract of the scheduler\<close>

text \<open>
  What a client of the planner relies on: the order holds jobs of the stage only, each once and
  after its needs, and no job is missing when the needs are closed and acyclic.
\<close>

locale job_scheduler =
  fixes schedule :: "(string list \<Rightarrow> string list) \<Rightarrow> Job list \<Rightarrow> Job list"
  assumes schedule_sound: "range_order ord \<Longrightarrow> distinct (map jobName jobs) \<Longrightarrow>
      set (schedule ord jobs) \<subseteq> set jobs \<and> distinct (map jobName (schedule ord jobs))
      \<and> topo_sorted (schedule ord jobs)"
    and schedule_covers: "range_order ord \<Longrightarrow> distinct (map jobName jobs) \<Longrightarrow>
      snd ` needs_rel jobs \<subseteq> jobName ` set jobs \<Longrightarrow> acyclic (needs_rel jobs) \<Longrightarrow>
      set jobs \<subseteq> set (schedule ord jobs)"
begin

lemma covers_iff:
  assumes "range_order ord" and "distinct (map jobName jobs)"
  shows "set (schedule ord jobs) = set jobs \<longleftrightarrow>
    snd ` needs_rel jobs \<subseteq> jobName ` set jobs \<and> acyclic (needs_rel jobs)"
proof
  assume eq: "set (schedule ord jobs) = set jobs"
  then have "needs_rel (schedule ord jobs) = needs_rel jobs" by (simp add: needs_rel_def)
  with topo_sorted_acyclic schedule_sound [OF assms] eq
  show "snd ` needs_rel jobs \<subseteq> jobName ` set jobs \<and> acyclic (needs_rel jobs)" by metis
next
  assume "snd ` needs_rel jobs \<subseteq> jobName ` set jobs \<and> acyclic (needs_rel jobs)"
  with schedule_covers [OF assms] schedule_sound [OF assms]
  show "set (schedule ord jobs) = set jobs" by blast
qed

lemma permutation:
  assumes "range_order ord" and "distinct (map jobName jobs)"
    and "snd ` needs_rel jobs \<subseteq> jobName ` set jobs" and "acyclic (needs_rel jobs)"
  shows "mset (schedule ord jobs) = mset jobs"
proof -
  have "set (schedule ord jobs) = set jobs" using covers_iff assms by simp
  moreover have "distinct (schedule ord jobs)" and "distinct jobs"
    using schedule_sound [OF assms(1,2)] assms(2) by (auto simp: distinct_map)
  ultimately show ?thesis by (simp add: set_eq_iff_mset_eq_distinct)
qed

text \<open>Some job can start: the first one of a complete order has no needs.\<close>

lemma first_has_no_needs:
  assumes "range_order ord" and "distinct (map jobName jobs)" and "schedule ord jobs = j # rest"
  shows "jobNeeds j = []"
  using schedule_sound [OF assms(1,2)] assms(3) by (force simp: topo_sorted_def)

end

interpretation kahn: job_scheduler scheduleJobsInStage
proof unfold_locales
  fix ord :: "string list \<Rightarrow> string list" and jobs :: "Job list"
  assume a: "range_order ord" "distinct (map jobName jobs)"
  obtain deg where inv: "kahn_inv jobs [] deg (scheduleJobsInStage ord jobs)"
    using schedule_inv [OF a(2,1)] by blast
  then show "set (scheduleJobsInStage ord jobs) \<subseteq> set jobs
      \<and> distinct (map jobName (scheduleJobsInStage ord jobs))
      \<and> topo_sorted (scheduleJobsInStage ord jobs)"
    by (simp add: kahn_inv_def)
  assume "snd ` needs_rel jobs \<subseteq> jobName ` set jobs" "acyclic (needs_rel jobs)"
  with inv have names: "jobName ` set jobs \<subseteq> jobName ` set (scheduleJobsInStage ord jobs)"
    by (rule kahn_inv_complete)
  show "set jobs \<subseteq> set (scheduleJobsInStage ord jobs)"
  proof
    fix j assume j: "j \<in> set jobs"
    with names obtain k where "k \<in> set (scheduleJobsInStage ord jobs)" "jobName j = jobName k" by blast
    with inv j job_unique [OF a(2)] show "j \<in> set (scheduleJobsInStage ord jobs)"
      by (metis kahn_inv_def subsetD)
  qed
qed

text \<open>Scheduling a stage: whatever order Go ranges over the in-degree map in, the result holds jobs of
  the stage only, each once, every job after all its needs; and it holds all of them exactly when no
  need points outside the stage and the needs have no cycle. Jobs it cannot order are dropped.\<close>

theorem scheduleJobsInStage_topological:
  assumes "range_order ord" and "distinct (map jobName jobs)"
  shows "set (scheduleJobsInStage ord jobs) \<subseteq> set jobs
    \<and> distinct (map jobName (scheduleJobsInStage ord jobs))
    \<and> topo_sorted (scheduleJobsInStage ord jobs)
    \<and> (set (scheduleJobsInStage ord jobs) = set jobs \<longleftrightarrow>
         snd ` needs_rel jobs \<subseteq> jobName ` set jobs \<and> acyclic (needs_rel jobs))"
  using kahn.schedule_sound [OF assms] kahn.covers_iff [OF assms] by blast

lemma scheduleJobsInStage_topological_witness:
  "\<exists>order. mset order = mset [''a'', ''b'', ''c'']
     \<and> (let job = (\<lambda>n needs. zero_job\<lparr>jobName := n, jobNeeds := needs\<rparr>);
            jobs = [job ''a'' [''b'', ''c''], job ''b'' [''c''], job ''c'' []]
        in map jobName (scheduleJobsInStage rev jobs) = order \<and> topo_sorted (scheduleJobsInStage rev jobs))"
proof -
  let ?job = "\<lambda>n needs. zero_job\<lparr>jobName := n, jobNeeds := needs\<rparr>"
  let ?jobs = "[?job ''a'' [''b'', ''c''], ?job ''b'' [''c''], ?job ''c'' []]"
  have "topo_sorted (scheduleJobsInStage rev ?jobs)"
    using scheduleJobsInStage_topological [OF range_order_rev, of ?jobs] by simp
  moreover have "map jobName (scheduleJobsInStage rev ?jobs) = [''c'', ''b'', ''a'']" by code_simp
  ultimately show ?thesis by (auto simp: Let_def)
qed

end
