(* ===== verification/Verifier.thy ===== *)
theory Verifier
  imports Parser Planner
begin

text \<open>
  \<open>internal/common/verifier\<close>: the validation rules. Every check returns the list of its errors (or
  at most one), with the message text and the location the Go code computes. \<open>Verify\<close> runs them in
  the order of the source. The theory shows that the structural checks are silent exactly on
  well-formed pipelines, so a verified pipeline is one the planner can order completely.
\<close>

section \<open>Locations\<close>

record PipelineVerifier =
  filePath :: string
  vPipeline :: Pipeline
  rootNode :: yaml_node

definition NewPipelineVerifier :: "string \<Rightarrow> Pipeline \<Rightarrow> yaml_node \<Rightarrow> PipelineVerifier" where
  "NewPipelineVerifier path p root = \<lparr>filePath = path, vPipeline = p, rootNode = root\<rparr>"

definition fallbackLocation :: Location where
  "fallbackLocation = \<lparr>locLine = 1, locColumn = 1\<rparr>"

definition getRootMappingNode :: "PipelineVerifier \<Rightarrow> yaml_node option" where
  "getRootMappingNode v =
     (case rootNode v of
        DocumentNode (content # _) \<Rightarrow> if is_mapping content then Some content else None
      | _ \<Rightarrow> None)"

definition root_entries :: "PipelineVerifier \<Rightarrow> (yaml_node \<times> yaml_node) list" where
  "root_entries v = (case getRootMappingNode v of None \<Rightarrow> [] | Some root \<Rightarrow> entries root)"

definition getTopLevelNode :: "PipelineVerifier \<Rightarrow> string \<Rightarrow> yaml_node option" where
  "getTopLevelNode v key = map_option snd (find (\<lambda>(k, x). Value k = key) (root_entries v))"

text \<open>The job at an index, counting the entries whose key is not reserved.\<close>

definition getJobNodePair :: "PipelineVerifier \<Rightarrow> nat \<Rightarrow> (yaml_node \<times> yaml_node) option" where
  "getJobNodePair v jobIdx =
     (let jobs = filter (\<lambda>(k, x). \<not> IsReservedTopLevelKey (Value k)) (root_entries v)
      in if jobIdx < length jobs then Some (jobs ! jobIdx) else None)"

definition getStagesLocation :: "PipelineVerifier \<Rightarrow> Location" where
  "getStagesLocation v =
     (case find (\<lambda>(k, x). Value k = ''stages'') (root_entries v) of
        None \<Rightarrow> fallbackLocation
      | Some (k, x) \<Rightarrow> node_location k)"

definition getJobNameLocation :: "PipelineVerifier \<Rightarrow> nat \<Rightarrow> Location" where
  "getJobNameLocation v jobIdx =
     (case getJobNodePair v jobIdx of None \<Rightarrow> fallbackLocation | Some (k, x) \<Rightarrow> node_location k)"

definition getJobsLocation :: "PipelineVerifier \<Rightarrow> Location" where
  "getJobsLocation v = getJobNameLocation v 0"

text \<open>The location of one stage entry, if it has one; the outer loop goes on to a later \<open>stages\<close> key
  when an entry gives none.\<close>

definition stage_entry_location :: "nat \<Rightarrow> yaml_node \<Rightarrow> Location option" where
  "stage_entry_location stageIdx stagesNode =
     (if is_sequence stagesNode \<and> stageIdx < length (items stagesNode) then
        (let stageNode = items stagesNode ! stageIdx in
         if is_mapping stageNode then
           map_option (\<lambda>(k, x). node_location x) (find (\<lambda>(k, x). Value k = ''name'') (entries stageNode))
         else if is_scalar stageNode then Some (node_location stageNode)
         else None)
      else None)"

fun first_stage_location :: "nat \<Rightarrow> (yaml_node \<times> yaml_node) list \<Rightarrow> Location" where
  "first_stage_location i [] = fallbackLocation"
| "first_stage_location i ((k, x) # es) =
     (if Value k = ''stages'' then
        (case stage_entry_location i x of
           Some loc \<Rightarrow> loc
         | None \<Rightarrow> first_stage_location i es)
      else first_stage_location i es)"

definition getStageNameLocation :: "PipelineVerifier \<Rightarrow> nat \<Rightarrow> Location" where
  "getStageNameLocation v stageIdx = first_stage_location stageIdx (root_entries v)"

text \<open>The first one-field step of a job with the given field, as its key and value node.\<close>

definition find_step :: "yaml_node \<Rightarrow> string \<Rightarrow> (yaml_node \<times> yaml_node) option" where
  "find_step value field =
     (if \<not> is_sequence value then None
      else map_option (\<lambda>step. hd (entries step))
        (find (\<lambda>step. is_mapping step \<and> length (entries step) = 1
            \<and> Value (fst (hd (entries step))) = field) (items value)))"

definition findJobField :: "yaml_node \<Rightarrow> string \<Rightarrow> yaml_node option" where
  "findJobField value field = map_option fst (find_step value field)"

definition getJobStageLocation :: "PipelineVerifier \<Rightarrow> nat \<Rightarrow> Location" where
  "getJobStageLocation v jobIdx =
     (case getJobNodePair v jobIdx of
        None \<Rightarrow> fallbackLocation
      | Some (key, value) \<Rightarrow>
          (case find_step value ''stage'' of
             Some (fieldKey, fieldValue) \<Rightarrow> node_location fieldValue
           | None \<Rightarrow> node_location key))"

definition getJobNeedsLocation :: "PipelineVerifier \<Rightarrow> nat \<Rightarrow> Location" where
  "getJobNeedsLocation v jobIdx =
     (case getJobNodePair v jobIdx of
        None \<Rightarrow> fallbackLocation
      | Some (key, value) \<Rightarrow>
          (case findJobField value ''needs'' of
             Some fieldKey \<Rightarrow> node_location fieldKey
           | None \<Rightarrow> node_location key))"

definition formatError :: "PipelineVerifier \<Rightarrow> Location \<Rightarrow> string \<Rightarrow> ValidationError" where
  "formatError v loc message = \<lparr>veFilePath = filePath v, veLocation = loc, veMessage = message\<rparr>"

text \<open>The loop reads the value node's kind only where the key is \<open>name\<close>.\<close>

definition findNameInMapping :: "yaml_node \<Rightarrow> string" where
  "findNameInMapping node =
     (case find (\<lambda>(k, x). Value k = ''name'' \<and> is_scalar x) (entries node) of
        None \<Rightarrow> ''''
      | Some (k, x) \<Rightarrow> Value x)"

section \<open>Structural checks\<close>

definition checkAtLeastOneStage :: "PipelineVerifier \<Rightarrow> ValidationError list" where
  "checkAtLeastOneStage v =
     (if pipelineStages (vPipeline v) = []
      then [formatError v (getStagesLocation v) ''pipeline must have at least one stage defined'']
      else [])"

definition checkAtLeastOneJob :: "PipelineVerifier \<Rightarrow> ValidationError list" where
  "checkAtLeastOneJob v =
     (if pipelineJobs (vPipeline v) = []
      then [formatError v (getJobsLocation v) ''pipeline must have at least one job defined'']
      else [])"

text \<open>The two uniqueness checks share their loop: \<open>seen\<close> maps a name to the location where it was
  first met; \<open>noun\<close> is the word in the message and \<open>locate\<close> the location of the entry at an index.\<close>

fun duplicate_errors ::
  "PipelineVerifier \<Rightarrow> string \<Rightarrow> (nat \<Rightarrow> Location) \<Rightarrow> nat \<Rightarrow> string list \<Rightarrow> Location gomap \<Rightarrow>
     ValidationError list" where
  "duplicate_errors v noun locate i [] seen = []"
| "duplicate_errors v noun locate i (name # names) seen =
     (case map_of seen name of
        Some prevLoc \<Rightarrow>
          formatError v (locate i) (''duplicate '' @ noun @ '' name '' @ squoted name @
            '' (previously defined at line '' @ Itoa (locLine prevLoc) @ '')'')
          # duplicate_errors v noun locate (Suc i) names seen
      | None \<Rightarrow> duplicate_errors v noun locate (Suc i) names (map_set name (locate i) seen))"


definition checkUniqueStageNames :: "PipelineVerifier \<Rightarrow> ValidationError list" where
  "checkUniqueStageNames v =
     duplicate_errors v ''stage'' (getStageNameLocation v) 0 (map stageName (pipelineStages (vPipeline v))) []"

definition checkUniqueJobNames :: "PipelineVerifier \<Rightarrow> ValidationError list" where
  "checkUniqueJobNames v =
     duplicate_errors v ''job'' (getJobNameLocation v) 0 (map jobName (pipelineJobs (vPipeline v))) []"

definition indexed_jobs :: "PipelineVerifier \<Rightarrow> (nat \<times> Job) list" where
  "indexed_jobs v = enumerate 0 (pipelineJobs (vPipeline v))"

definition checkJobStagesExist :: "PipelineVerifier \<Rightarrow> ValidationError list" where
  "checkJobStagesExist v =
     (let validStages = set (map stageName (pipelineStages (vPipeline v))) in
      concat (map (\<lambda>(i, job).
        if jobStage job \<notin> validStages then
          [formatError v (getJobStageLocation v i)
             (''job '' @ squoted (jobName job) @ '' references undefined stage '' @ squoted (jobStage job))]
        else []) (indexed_jobs v)))"

definition jobs_per_stage :: "Job list \<Rightarrow> int gomap" where
  "jobs_per_stage jobs = fold (\<lambda>job m. map_set (jobStage job) (map_get 0 m (jobStage job) + 1) m) jobs []"

definition checkNoEmptyStages :: "PipelineVerifier \<Rightarrow> ValidationError list" where
  "checkNoEmptyStages v =
     (let jobsPerStage = jobs_per_stage (pipelineJobs (vPipeline v)) in
      concat (map (\<lambda>(i, stage).
        if map_get 0 jobsPerStage (stageName stage) = 0 then
          [formatError v (getStageNameLocation v i)
             (''stage '' @ squoted (stageName stage) @ '' has no jobs assigned to it'')]
        else []) (enumerate 0 (pipelineStages (vPipeline v)))))"

definition checkNeedsReferences :: "PipelineVerifier \<Rightarrow> ValidationError list" where
  "checkNeedsReferences v =
     (let jobNames = set (map jobName (pipelineJobs (vPipeline v))) in
      concat (map (\<lambda>(i, job).
        concat (map (\<lambda>need.
          if need \<notin> jobNames then
            [formatError v (getJobNeedsLocation v i)
               (''job '' @ squoted (jobName job) @ '' references undefined job '' @ squoted need @ '' in needs'')]
          else []) (jobNeeds job))) (indexed_jobs v)))"

definition job_to_stage :: "Job list \<Rightarrow> string gomap" where
  "job_to_stage jobs = fold (\<lambda>job m. map_set (jobName job) (jobStage job) m) jobs []"

definition checkNeedsStageConsistency :: "PipelineVerifier \<Rightarrow> ValidationError list" where
  "checkNeedsStageConsistency v =
     (let jobToStage = job_to_stage (pipelineJobs (vPipeline v)) in
      concat (map (\<lambda>(i, job).
        if jobNeeds job \<noteq> [] then
          concat (map (\<lambda>need.
            (case map_of jobToStage need of
               Some needStage \<Rightarrow>
                 if needStage \<noteq> jobStage job then
                   [formatError v (getJobNeedsLocation v i)
                      (''job '' @ squoted (jobName job) @ '' (stage '' @ squoted (jobStage job) @
                       '') cannot depend on job '' @ squoted need @ '' (stage '' @ squoted needStage @
                       ''). Jobs in the same needs array must belong to the same stage'')]
                 else []
             | None \<Rightarrow> [])) (jobNeeds job))
        else []) (indexed_jobs v)))"

definition job_locations :: "PipelineVerifier \<Rightarrow> Location gomap" where
  "job_locations v = fold (\<lambda>(i, job) m. map_set (jobName job) (getJobNeedsLocation v i) m) (indexed_jobs v) []"

definition checkNoCycles :: "(string list \<Rightarrow> string list) \<Rightarrow> PipelineVerifier \<Rightarrow> ValidationError list" where
  "checkNoCycles ord v =
     (case find_cycle ord (needs_graph (pipelineJobs (vPipeline v))) of
        None \<Rightarrow> []
      | Some cycle \<Rightarrow>
          [formatError v (map_get \<lparr>locLine = 0, locColumn = 0\<rparr> (job_locations v) (hd cycle))
             (''cycle detected in `needs` requirements. '' @ Join cycle '' -> '' @ '' -> '' @ hd cycle)])"

section \<open>Type checks on the YAML tree\<close>

definition is_str_scalar :: "yaml_node \<Rightarrow> bool" where
  "is_str_scalar node \<longleftrightarrow> is_scalar node \<and> Tag node = ''!!str''"

definition checkPipelineName :: "PipelineVerifier \<Rightarrow> yaml_node \<Rightarrow> ValidationError list" where
  "checkPipelineName v pipelineNode =
     (case find (\<lambda>(k, x). Value k = ''name'') (entries pipelineNode) of
        Some (k, nameNode) \<Rightarrow>
          if \<not> is_str_scalar nameNode then
            [formatError v (node_location nameNode)
               (''wrong type for `pipeline.name`. Expected string, got '' @ Tag nameNode)]
          else []
      | None \<Rightarrow> [formatError v (node_location pipelineNode) ''pipeline must have a `name` field''])"

definition checkStageEntry :: "PipelineVerifier \<Rightarrow> nat \<Rightarrow> yaml_node \<Rightarrow> ValidationError list" where
  "checkStageEntry v i stageNode =
     (if is_mapping stageNode then
        (if findNameInMapping stageNode = '''' then
           [formatError v (node_location stageNode) ''stage object must have a `name` field''] else [])
      else if \<not> is_str_scalar stageNode then
        [formatError v (node_location stageNode)
           (''wrong type for stage at index '' @ Itoa (int i) @ ''. Expected string, got '' @ Tag stageNode)]
      else [])"

definition checkStagesSection :: "PipelineVerifier \<Rightarrow> ValidationError list" where
  "checkStagesSection v =
     (case getTopLevelNode v ''stages'' of
        None \<Rightarrow> []
      | Some stagesNode \<Rightarrow>
          if \<not> is_sequence stagesNode then
            [formatError v (node_location stagesNode) ''stages must be a sequence'']
          else concat (map (\<lambda>(i, stageNode). checkStageEntry v i stageNode) (enumerate 0 (items stagesNode))))"

definition checkYAMLTypes :: "PipelineVerifier \<Rightarrow> ValidationError list" where
  "checkYAMLTypes v =
     (case rootNode v of
        DocumentNode (root # _) \<Rightarrow>
          if \<not> is_mapping root then [formatError v (node_location root) ''root must be a mapping'']
          else
            (case getTopLevelNode v ''pipeline'' of
               None \<Rightarrow>
                 [formatError v
                    (case getRootMappingNode v of Some r \<Rightarrow> node_location r | None \<Rightarrow> fallbackLocation)
                    ''pipeline must have a `pipeline` key'']
             | Some pipelineNode \<Rightarrow>
                 if \<not> is_mapping pipelineNode then
                   [formatError v (node_location pipelineNode) ''pipeline must be a mapping'']
                 else checkPipelineName v pipelineNode @ checkStagesSection v)
      | _ \<Rightarrow> [formatError v fallbackLocation ''invalid YAML document''])"

definition hasCriticalErrors :: "ValidationError list \<Rightarrow> bool" where
  "hasCriticalErrors errs \<longleftrightarrow>
     list_ex (\<lambda>err. let msg = ValidationError_Error err in
       Contains msg ''invalid YAML document'' \<or> Contains msg ''root must be a mapping''
       \<or> Contains msg ''pipeline must have a `pipeline` key'' \<or> Contains msg ''pipeline must be a mapping''
       \<or> Contains msg ''stages must be a sequence'') errs"

definition validateScriptField :: "PipelineVerifier \<Rightarrow> string \<Rightarrow> yaml_node \<Rightarrow> ValidationError list" where
  "validateScriptField v name fieldValue =
     (let loc = node_location fieldValue; inJob = '' in job '' @ squoted name in
      if \<not> is_scalar fieldValue \<and> \<not> is_sequence fieldValue then
        [formatError v loc (''wrong type for `script`'' @ inJob @ ''. Expected string or sequence, got '' @ Tag fieldValue)]
      else if is_scalar fieldValue \<and> Tag fieldValue \<noteq> ''!!str'' then
        [formatError v loc (''wrong type for `script`'' @ inJob @ ''. Expected string, got '' @ Tag fieldValue)]
      else concat (map (\<lambda>(i, item).
        if \<not> is_str_scalar item then
          [formatError v (node_location item)
             (''wrong type for item '' @ Itoa (int i + 1) @ '' in `script`'' @ inJob @ ''. Expected string, got '' @ Tag item)]
        else []) (enumerate 0 (items fieldValue))))"

definition validateFieldType :: "PipelineVerifier \<Rightarrow> string \<Rightarrow> yaml_node \<Rightarrow> yaml_node \<Rightarrow> ValidationError list" where
  "validateFieldType v name fieldKey fieldValue =
     (let loc = node_location fieldValue; key = Value fieldKey;
          wrong = (\<lambda>expected. [formatError v loc (''wrong type for `'' @ key @ ''` in job '' @ squoted name @
                    ''. Expected '' @ expected @ '', got '' @ Tag fieldValue)]) in
      if key = ''stage'' \<or> key = ''image'' then
        (if \<not> is_str_scalar fieldValue then wrong ''string'' else [])
      else if key = ''script'' then validateScriptField v name fieldValue
      else if key = ''needs'' then
        (if \<not> is_sequence fieldValue then wrong ''sequence'' else [])
      else if key = ''failures'' then
        (if \<not> is_scalar fieldValue \<or> Tag fieldValue \<noteq> ''!!bool'' then wrong ''boolean'' else [])
      else [])"

definition validateJobStep :: "PipelineVerifier \<Rightarrow> string \<Rightarrow> nat \<Rightarrow> yaml_node \<Rightarrow> ValidationError list" where
  "validateJobStep v name stepIdx step =
     (let prefix = ''step '' @ Itoa (int stepIdx + 1) @ '' in job '' @ squoted name in
      if \<not> is_mapping step then [formatError v (node_location step) (prefix @ '' must be a mapping'')]
      else if length (entries step) \<noteq> 1 then
        [formatError v (node_location step) (prefix @ '' must have exactly one field'')]
      else let (fieldKey, fieldValue) = hd (entries step) in validateFieldType v name fieldKey fieldValue)"

definition validateSingleJob :: "PipelineVerifier \<Rightarrow> JobNode \<Rightarrow> ValidationError list" where
  "validateSingleJob v jobNode =
     (let loc = node_location (jnKey jobNode) in
      if \<not> is_str_scalar (jnKey jobNode) then
        [formatError v loc (''wrong type for job name. Expected string, got '' @ Tag (jnKey jobNode))]
      else if \<not> is_sequence (jnValue jobNode) then
        [formatError v loc (''job '' @ squoted (jnName jobNode) @ '' must be a sequence'')]
      else concat (map (\<lambda>(stepIdx, step). validateJobStep v (jnName jobNode) stepIdx step)
        (enumerate 0 (items (jnValue jobNode)))))"

definition validateJobs :: "PipelineVerifier \<Rightarrow> JobNode list \<Rightarrow> ValidationError list" where
  "validateJobs v jobNodes = concat (map (validateSingleJob v) jobNodes)"

section \<open>Verify\<close>

definition structural_errors :: "(string list \<Rightarrow> string list) \<Rightarrow> PipelineVerifier \<Rightarrow> ValidationError list" where
  "structural_errors ord v =
     checkAtLeastOneStage v @ checkUniqueStageNames v @ checkAtLeastOneJob v @ checkUniqueJobNames v
     @ checkJobStagesExist v @ checkNoEmptyStages v @ checkNeedsReferences v
     @ checkNeedsStageConsistency v @ checkNoCycles ord v"

definition Verify :: "(string list \<Rightarrow> string list) \<Rightarrow> PipelineVerifier \<Rightarrow> ValidationError list" where
  "Verify ord v =
     (let typeErrors = checkYAMLTypes v in
      if typeErrors \<noteq> [] \<and> hasCriticalErrors typeErrors then typeErrors
      else typeErrors @ validateJobs v (GetJobNodes (rootNode v)) @ structural_errors ord v)"

section \<open>The well-formed pipelines\<close>

text \<open>What the structural checks demand, stated on the parsed pipeline alone.\<close>

definition wf_pipeline :: "Pipeline \<Rightarrow> bool" where
  "wf_pipeline p \<longleftrightarrow>
     pipelineStages p \<noteq> [] \<and> distinct (map stageName (pipelineStages p))
     \<and> pipelineJobs p \<noteq> [] \<and> distinct (map jobName (pipelineJobs p))
     \<and> (\<forall>j \<in> set (pipelineJobs p). jobStage j \<in> stageName ` set (pipelineStages p))
     \<and> (\<forall>s \<in> set (pipelineStages p). \<exists>j \<in> set (pipelineJobs p). jobStage j = stageName s)
     \<and> (\<forall>j \<in> set (pipelineJobs p). \<forall>n \<in> set (jobNeeds j).
          \<exists>k \<in> set (pipelineJobs p). jobName k = n \<and> jobStage k = jobStage j)
     \<and> acyclic (needs_rel (pipelineJobs p))"

lemma concat_enumerate_Nil:
  assumes "\<And>i x. f i x = [] \<longleftrightarrow> P x"
  shows "concat (map (\<lambda>(i, x). f i x) (enumerate n xs)) = [] \<longleftrightarrow> (\<forall>x \<in> set xs. P x)"
  by (induction xs arbitrary: n) (simp_all add: assms)

lemma duplicate_errors_Nil:
  "duplicate_errors v noun locate i names seen = [] \<longleftrightarrow> distinct names \<and> set names \<inter> set (keys seen) = {}"
proof (induction names arbitrary: i seen)
  case (Cons name names)
  have "map_of seen name = None \<longleftrightarrow> name \<notin> set (keys seen)"
    by (simp add: keys_def map_of_eq_None_iff)
  with Cons show ?case by (auto split: option.split)
qed simp

lemma jobs_per_stage_0: "map_get 0 (jobs_per_stage jobs) s = 0 \<longleftrightarrow> (\<forall>j \<in> set jobs. jobStage j \<noteq> s)"
proof -
  have "map_get 0 (fold (\<lambda>job m. map_set (jobStage job) (map_get 0 m (jobStage job) + 1) m) jobs m) s
      = map_get 0 m s + int (length (filter (\<lambda>j. jobStage j = s) jobs))" for m
    by (induction jobs arbitrary: m) (auto simp: map_get_map_set)
  then show ?thesis by (auto simp: jobs_per_stage_def filter_empty_conv)
qed

text \<open>With distinct names, quantifying over the jobs of one name is talking about that job.\<close>

lemma ex_job_named:
  assumes "distinct (map jobName js)" and "k \<in> set js" and "jobName k = n"
  shows "(\<exists>k' \<in> set js. jobName k' = n \<and> P k') \<longleftrightarrow> P k"
  using assms job_unique [OF assms(1) _ assms(2)] by metis

lemma all_job_named:
  assumes "distinct (map jobName js)" and "k \<in> set js" and "jobName k = n"
  shows "(\<forall>k' \<in> set js. jobName k' = n \<longrightarrow> P k') \<longleftrightarrow> P k"
  using ex_job_named [OF assms, of "\<lambda>k. \<not> P k"] by blast

lemma map_of_job_to_stage:
  assumes "distinct (map jobName jobs)"
  shows "map_of (job_to_stage jobs) n = Some s \<longleftrightarrow> (\<exists>k \<in> set jobs. jobName k = n \<and> jobStage k = s)"
proof -
  have stage: "map_get '''' (job_to_stage jobs) (jobName k) = jobStage k" if "k \<in> set jobs" for k
    unfolding job_to_stage_def using assms that by (rule map_get_fold_set)
  have dom: "set (keys (job_to_stage jobs)) = jobName ` set jobs"
    by (simp add: job_to_stage_def set_keys_fold_set)
  show ?thesis
  proof (cases "n \<in> jobName ` set jobs")
    case True
    then obtain k where k: "k \<in> set jobs" "n = jobName k" by blast
    with dom have "map_of (job_to_stage jobs) n \<noteq> None" by (simp add: keys_def map_of_eq_None_iff)
    with stage [OF k(1)] k(2) have at_n: "map_of (job_to_stage jobs) n = Some (jobStage k)"
      by (simp add: map_get_def split: option.splits)
    show ?thesis unfolding ex_job_named [OF assms k(1) k(2) [symmetric]] at_n by simp
  next
    case False
    with dom have "map_of (job_to_stage jobs) n = None" by (simp add: keys_def map_of_eq_None_iff)
    with False show ?thesis by force
  qed
qed

lemma checkUniqueStageNames_Nil:
  "checkUniqueStageNames v = [] \<longleftrightarrow> distinct (map stageName (pipelineStages (vPipeline v)))"
  by (simp add: checkUniqueStageNames_def duplicate_errors_Nil)

lemma checkUniqueJobNames_Nil:
  "checkUniqueJobNames v = [] \<longleftrightarrow> distinct (map jobName (pipelineJobs (vPipeline v)))"
  by (simp add: checkUniqueJobNames_def duplicate_errors_Nil)

lemma checkJobStagesExist_Nil:
  "checkJobStagesExist v = [] \<longleftrightarrow>
    (\<forall>j \<in> set (pipelineJobs (vPipeline v)). jobStage j \<in> stageName ` set (pipelineStages (vPipeline v)))"
  unfolding checkJobStagesExist_def indexed_jobs_def Let_def by (rule concat_enumerate_Nil) auto

lemma checkNoEmptyStages_Nil:
  "checkNoEmptyStages v = [] \<longleftrightarrow>
    (\<forall>s \<in> set (pipelineStages (vPipeline v)). \<exists>j \<in> set (pipelineJobs (vPipeline v)). jobStage j = stageName s)"
  unfolding checkNoEmptyStages_def Let_def by (rule concat_enumerate_Nil) (auto simp: jobs_per_stage_0)

lemma checkNeedsReferences_Nil:
  "checkNeedsReferences v = [] \<longleftrightarrow>
    (\<forall>j \<in> set (pipelineJobs (vPipeline v)). set (jobNeeds j) \<subseteq> jobName ` set (pipelineJobs (vPipeline v)))"
  unfolding checkNeedsReferences_def indexed_jobs_def Let_def by (rule concat_enumerate_Nil) auto

lemma checkNeedsStageConsistency_Nil:
  assumes "distinct (map jobName (pipelineJobs (vPipeline v)))"
  shows "checkNeedsStageConsistency v = [] \<longleftrightarrow>
    (\<forall>j \<in> set (pipelineJobs (vPipeline v)). \<forall>n \<in> set (jobNeeds j).
       \<forall>k \<in> set (pipelineJobs (vPipeline v)). jobName k = n \<longrightarrow> jobStage k = jobStage j)"
proof -
  have need: "(case map_of (job_to_stage (pipelineJobs (vPipeline v))) n of
           Some s \<Rightarrow> if s \<noteq> jobStage j then [e s] else [] | None \<Rightarrow> []) = [] \<longleftrightarrow>
      (\<forall>k \<in> set (pipelineJobs (vPipeline v)). jobName k = n \<longrightarrow> jobStage k = jobStage j)"
    for j n and e :: "string \<Rightarrow> ValidationError"
  proof (cases "map_of (job_to_stage (pipelineJobs (vPipeline v))) n")
    case None
    then have "k \<notin> set (pipelineJobs (vPipeline v))" if "jobName k = n" for k
      using map_of_job_to_stage [OF assms, of n "jobStage k"] that by fastforce
    with None show ?thesis by auto
  next
    case (Some s)
    then obtain k where k: "k \<in> set (pipelineJobs (vPipeline v))" "jobName k = n" "jobStage k = s"
      using map_of_job_to_stage [OF assms, of n s] by blast
    show ?thesis unfolding all_job_named [OF assms k(1,2)] using Some k(3) by simp
  qed
  show ?thesis
    unfolding checkNeedsStageConsistency_def indexed_jobs_def Let_def
    by (rule concat_enumerate_Nil) (simp add: need del: not_None_eq)
qed

lemma checkNoCycles_Nil:
  assumes "range_order ord" and "distinct (map jobName (pipelineJobs (vPipeline v)))"
  shows "checkNoCycles ord v = [] \<longleftrightarrow> acyclic (needs_rel (pipelineJobs (vPipeline v)))"
  using find_cycle_complete [OF assms(1), of "needs_graph (pipelineJobs (vPipeline v))"]
  unfolding edges_needs_graph [OF assms(2)]
  by (cases "find_cycle ord (needs_graph (pipelineJobs (vPipeline v)))") (simp_all add: checkNoCycles_def)

lemmas check_Nil = checkUniqueStageNames_Nil checkUniqueJobNames_Nil checkJobStagesExist_Nil
  checkNoEmptyStages_Nil checkNeedsReferences_Nil checkNeedsStageConsistency_Nil checkNoCycles_Nil

lemma needs_in_stage:
  assumes "distinct (map jobName js)"
  shows "(\<forall>j \<in> set js. set (jobNeeds j) \<subseteq> jobName ` set js)
      \<and> (\<forall>j \<in> set js. \<forall>n \<in> set (jobNeeds j). \<forall>k \<in> set js. jobName k = n \<longrightarrow> jobStage k = jobStage j)
    \<longleftrightarrow> (\<forall>j \<in> set js. \<forall>n \<in> set (jobNeeds j). \<exists>k \<in> set js. jobName k = n \<and> jobStage k = jobStage j)"
    (is "?defined \<and> ?same \<longleftrightarrow> ?wf")
proof
  assume both: "?defined \<and> ?same"
  show ?wf
  proof (intro ballI)
    fix j n assume jn: "j \<in> set js" "n \<in> set (jobNeeds j)"
    with both have "n \<in> jobName ` set js" by blast
    then obtain k where "k \<in> set js" "jobName k = n" by blast
    moreover from this both jn have "jobStage k = jobStage j" by blast
    ultimately show "\<exists>k \<in> set js. jobName k = n \<and> jobStage k = jobStage j" by blast
  qed
next
  assume wf: ?wf
  have defined: "set (jobNeeds j) \<subseteq> jobName ` set js" if "j \<in> set js" for j
  proof
    fix n assume "n \<in> set (jobNeeds j)"
    from bspec [OF bspec [OF wf that] this] show "n \<in> jobName ` set js" by blast
  qed
  have same: "jobStage k = jobStage j"
    if "j \<in> set js" "n \<in> set (jobNeeds j)" "k \<in> set js" "jobName k = n" for j n k
    using bspec [OF bspec [OF wf that(1)] that(2)] unfolding ex_job_named [OF assms that(3,4)] .
  from defined same show "?defined \<and> ?same" by simp
qed

lemma structural_errors_Nil:
  assumes "range_order ord"
  shows "structural_errors ord v = [] \<longleftrightarrow> wf_pipeline (vPipeline v)"
proof (cases "distinct (map jobName (pipelineJobs (vPipeline v)))")
  case True
  show ?thesis
    unfolding structural_errors_def wf_pipeline_def needs_in_stage [OF True, symmetric]
    by (simp add: check_Nil True assms checkAtLeastOneStage_def checkAtLeastOneJob_def)
next
  case False
  then show ?thesis by (simp add: structural_errors_def wf_pipeline_def check_Nil)
qed

section \<open>The well-typed documents\<close>

text \<open>What the type checks demand of the YAML tree, field by field.\<close>

definition typed_field :: "yaml_node \<times> yaml_node \<Rightarrow> bool" where
  "typed_field e =
     (let key = Value (fst e); value = snd e in
      if key \<in> {''stage'', ''image''} then is_str_scalar value
      else if key = ''script'' then
        is_str_scalar value \<or> is_sequence value \<and> (\<forall>x \<in> set (items value). is_str_scalar x)
      else if key = ''needs'' then is_sequence value
      else if key = ''failures'' then is_scalar value \<and> Tag value = ''!!bool''
      else True)"

definition typed_job :: "yaml_node \<times> yaml_node \<Rightarrow> bool" where
  "typed_job e \<longleftrightarrow>
     is_str_scalar (fst e) \<and> is_sequence (snd e)
     \<and> (\<forall>step \<in> set (items (snd e)). is_mapping step \<and> (\<exists>f. entries step = [f] \<and> typed_field f))"

definition typed_stage :: "yaml_node \<Rightarrow> bool" where
  "typed_stage node \<longleftrightarrow> is_str_scalar node \<or> is_mapping node \<and> findNameInMapping node \<noteq> ''''"

definition lookup_key :: "string \<Rightarrow> (yaml_node \<times> yaml_node) list \<Rightarrow> yaml_node option" where
  "lookup_key key es = map_option snd (find (\<lambda>(k, x). Value k = key) es)"

definition typed_document :: "yaml_node \<Rightarrow> bool" where
  "typed_document root \<longleftrightarrow>
     (case root of
        DocumentNode (content # _) \<Rightarrow>
          is_mapping content
          \<and> (case lookup_key ''pipeline'' (entries content) of
               None \<Rightarrow> False
             | Some p \<Rightarrow> is_mapping p
                 \<and> (case lookup_key ''name'' (entries p) of None \<Rightarrow> False | Some n \<Rightarrow> is_str_scalar n))
          \<and> (case lookup_key ''stages'' (entries content) of
               None \<Rightarrow> True
             | Some s \<Rightarrow> is_sequence s \<and> (\<forall>x \<in> set (items s). typed_stage x))
          \<and> (\<forall>e \<in> set (entries content). \<not> IsReservedTopLevelKey (Value (fst e)) \<longrightarrow> typed_job e)
      | _ \<Rightarrow> False)"

lemma is_str_scalar_not_mapping: "is_str_scalar n \<Longrightarrow> \<not> is_mapping n"
  by (cases n) (auto simp: is_str_scalar_def)

lemma scalar_items [simp]: "is_scalar n \<Longrightarrow> items n = []"
  by (cases n) auto

lemma scalar_not_sequence: "is_scalar n \<Longrightarrow> \<not> is_sequence n"
  by (cases n) auto

lemma validateScriptField_Nil:
  "validateScriptField v name x = [] \<longleftrightarrow>
     is_str_scalar x \<or> is_sequence x \<and> (\<forall>y \<in> set (items x). is_str_scalar y)"
proof (cases "is_sequence x")
  case True
  then have "\<not> is_scalar x" using scalar_not_sequence by blast
  with True show ?thesis
    unfolding validateScriptField_def Let_def is_str_scalar_def [of x]
    by (simp only: simp_thms if_False if_True) (rule concat_enumerate_Nil, simp)
next
  case False
  then show ?thesis by (auto simp: validateScriptField_def Let_def is_str_scalar_def)
qed

lemma validateFieldType_Nil: "validateFieldType v name k x = [] \<longleftrightarrow> typed_field (k, x)"
  by (simp add: validateFieldType_def typed_field_def Let_def validateScriptField_Nil is_str_scalar_def)

lemma validateJobStep_Nil:
  "validateJobStep v name i step = [] \<longleftrightarrow> is_mapping step \<and> (\<exists>f. entries step = [f] \<and> typed_field f)"
proof (cases "is_mapping step \<and> length (entries step) = 1")
  case True
  then obtain k x where "entries step = [(k, x)]" by (cases "entries step") auto
  with True show ?thesis by (simp add: validateJobStep_def validateFieldType_Nil)
next
  case False
  then show ?thesis by (auto simp: validateJobStep_def Let_def)
qed

lemma validateSingleJob_Nil:
  "validateSingleJob v jn = [] \<longleftrightarrow> typed_job (jnKey jn, jnValue jn)"
proof -
  have "concat (map (\<lambda>(i, step). validateJobStep v (jnName jn) i step) (enumerate 0 (items (jnValue jn)))) = []
    \<longleftrightarrow> (\<forall>step \<in> set (items (jnValue jn)).
          is_mapping step \<and> (\<exists>f. entries step = [f] \<and> typed_field f))"
    by (rule concat_enumerate_Nil) (rule validateJobStep_Nil)
  then show ?thesis by (simp add: validateSingleJob_def typed_job_def Let_def del: concat_eq_Nil_conv)
qed

lemma checkStagesSection_Nil:
  "checkStagesSection v = [] \<longleftrightarrow>
     (case getTopLevelNode v ''stages'' of
        None \<Rightarrow> True | Some s \<Rightarrow> is_sequence s \<and> (\<forall>x \<in> set (items s). typed_stage x))"
proof -
  have "concat (map (\<lambda>(i, node). checkStageEntry v i node) (enumerate 0 (items s))) = []
      \<longleftrightarrow> (\<forall>x \<in> set (items s). typed_stage x)" for s
    by (rule concat_enumerate_Nil)
      (use is_str_scalar_not_mapping in \<open>auto simp: checkStageEntry_def typed_stage_def\<close>)
  then show ?thesis by (simp add: checkStagesSection_def del: concat_eq_Nil_conv split: option.split)
qed

lemma checkPipelineName_Nil:
  "checkPipelineName v node = [] \<longleftrightarrow>
     (case lookup_key ''name'' (entries node) of None \<Rightarrow> False | Some n \<Rightarrow> is_str_scalar n)"
  by (simp add: checkPipelineName_def lookup_key_def split: option.split prod.split)

lemma validateJobs_Nil:
  assumes "rootNode v = DocumentNode (content # rest)" and "is_mapping content"
  shows "validateJobs v (GetJobNodes (rootNode v)) = [] \<longleftrightarrow>
    (\<forall>e \<in> set (entries content). \<not> IsReservedTopLevelKey (Value (fst e)) \<longrightarrow> typed_job e)"
  using assms
  by (auto simp: validateJobs_def GetJobNodes_def validateSingleJob_Nil split: prod.splits)

lemma types_Nil:
  "checkYAMLTypes v = [] \<and> validateJobs v (GetJobNodes (rootNode v)) = [] \<longleftrightarrow> typed_document (rootNode v)"
proof (cases "\<exists>content rest. rootNode v = DocumentNode (content # rest) \<and> is_mapping content")
  case True
  then obtain content rest where root: "rootNode v = DocumentNode (content # rest)" "is_mapping content"
    by blast
  have top: "getTopLevelNode v key = lookup_key key (entries content)" for key
    using root by (simp add: getTopLevelNode_def root_entries_def getRootMappingNode_def lookup_key_def)
  have "checkYAMLTypes v = [] \<longleftrightarrow>
      (case lookup_key ''pipeline'' (entries content) of
         None \<Rightarrow> False
       | Some p \<Rightarrow> is_mapping p \<and> checkPipelineName v p = [] \<and> checkStagesSection v = [])"
    using root by (simp add: checkYAMLTypes_def top split: option.split)
  then show ?thesis
    unfolding validateJobs_Nil [OF root] using root
    by (simp add: typed_document_def checkPipelineName_Nil checkStagesSection_Nil top split: option.split)
next
  case False
  then show ?thesis
    by (auto simp: typed_document_def checkYAMLTypes_def split: yaml_node.split list.split)
qed

lemma Verify_Nil:
  assumes "range_order ord"
  shows "Verify ord v = [] \<longleftrightarrow> typed_document (rootNode v) \<and> wf_pipeline (vPipeline v)"
proof -
  have "Verify ord v = [] \<longleftrightarrow>
      (checkYAMLTypes v = [] \<and> validateJobs v (GetJobNodes (rootNode v)) = []) \<and> structural_errors ord v = []"
    by (auto simp: Verify_def Let_def)
  then show ?thesis unfolding types_Nil structural_errors_Nil [OF assms] .
qed

text \<open>C9. Verification is sound and complete: \<open>Verify\<close> reports no error exactly when the YAML tree is
  well typed field by field and the parsed pipeline is well formed (stages and jobs exist and have
  distinct names, every job names a defined stage, no stage is empty, every need is a job of the same
  stage, and the needs have no cycle), whatever order Go ranges over the job graph in. This is the condition of the code: README.md
  calls the \<open>pipeline\<close> section optional and \<open>image\<close> and \<open>script\<close> required, but \<open>typed_document\<close> asks for
  a name in that section and for neither of the two.\<close>

theorem Verify_accepts_iff:
  assumes "range_order ord"
  shows "Verify ord v = [] \<longleftrightarrow> typed_document (rootNode v) \<and> wf_pipeline (vPipeline v)"
  using assms by (rule Verify_Nil)

definition demo_pipeline :: Pipeline where
  "demo_pipeline =
     \<lparr>pipelineName = ''demo'', pipelineStages = [\<lparr>stageName = ''build''\<rparr>, \<lparr>stageName = ''test''\<rparr>],
      pipelineJobs =
        [\<lparr>jobName = ''unit'', jobStage = ''test'', jobImage = ''golang'', jobScript = [''go test''],
          jobNeeds = [], jobFailures = False\<rparr>,
         \<lparr>jobName = ''link'', jobStage = ''build'', jobImage = ''golang'', jobScript = [''go build''],
          jobNeeds = [''compile''], jobFailures = False\<rparr>,
         \<lparr>jobName = ''compile'', jobStage = ''build'', jobImage = ''golang'', jobScript = [''go vet''],
          jobNeeds = [], jobFailures = True\<rparr>]\<rparr>"

definition demo_verifier :: PipelineVerifier where
  "demo_verifier = NewPipelineVerifier ''p.yaml'' demo_pipeline (pipeline_document demo_pipeline)"

lemma demo_verified: "Verify rev demo_verifier = []"
  by code_simp

lemma Verify_accepts_iff_witness: "typed_document (rootNode demo_verifier) \<and> wf_pipeline (vPipeline demo_verifier)"
  using Verify_accepts_iff [OF range_order_rev, of demo_verifier] demo_verified by simp

section \<open>Verified pipelines are planned completely\<close>

lemma needs_rel_mono: "set js \<subseteq> set ks \<Longrightarrow> needs_rel js \<subseteq> needs_rel ks"
  by (auto simp: needs_rel_def)

lemma wf_stage_jobs:
  assumes wf: "wf_pipeline p"
  shows "distinct (map jobName (jobsForStage s (Some p)))"
    and "snd ` needs_rel (jobsForStage s (Some p)) \<subseteq> jobName ` set (jobsForStage s (Some p))"
    and "acyclic (needs_rel (jobsForStage s (Some p)))"
proof -
  let ?js = "jobsForStage s (Some p)"
  show "distinct (map jobName ?js)"
    using wf by (simp add: wf_pipeline_def jobsForStage_def distinct_map_filter)
  show "acyclic (needs_rel ?js)"
    using wf needs_rel_mono [of ?js "pipelineJobs p"]
    by (auto simp: wf_pipeline_def jobsForStage_def elim: acyclic_subset)
  show "snd ` needs_rel ?js \<subseteq> jobName ` set ?js"
  proof
    fix n assume "n \<in> snd ` needs_rel ?js"
    then obtain j where j: "j \<in> set (pipelineJobs p)" "jobStage j = s" "n \<in> set (jobNeeds j)"
      by (auto simp: needs_rel_def jobsForStage_def)
    from wf have "\<forall>j \<in> set (pipelineJobs p). \<forall>n \<in> set (jobNeeds j).
        \<exists>k \<in> set (pipelineJobs p). jobName k = n \<and> jobStage k = jobStage j" by (simp add: wf_pipeline_def)
    from bspec [OF bspec [OF this j(1)] j(3)] j(2) show "n \<in> jobName ` set ?js"
      by (auto simp: jobsForStage_def)
  qed
qed

lemma mset_jobs_by_stage:
  "distinct (map stageName ss) \<Longrightarrow>
   mset (concat (map (\<lambda>s. filter (\<lambda>j. jobStage j = stageName s) js) ss))
   = mset (filter (\<lambda>j. jobStage j \<in> stageName ` set ss) js)"
proof (induction ss)
  case (Cons s ss)
  have "filter_mset (\<lambda>j. jobStage j = stageName s) M + filter_mset (\<lambda>j. jobStage j \<in> stageName ` set ss) M
      = filter_mset (\<lambda>j. jobStage j \<in> stageName ` set (s # ss)) M" for M
    using Cons.prems by (induction M) auto
  with Cons show ?case by simp
qed simp

lemma schedule_wf_stage:
  assumes "wf_pipeline p" and "range_order ord"
  shows "mset (scheduleJobsInStage ord (jobsForStage s (Some p))) = mset (jobsForStage s (Some p))"
    and "topo_sorted (scheduleJobsInStage ord (jobsForStage s (Some p)))"
  using kahn.permutation [OF assms(2) wf_stage_jobs [OF assms(1)]]
    kahn.schedule_sound [OF assms(2) wf_stage_jobs(1) [OF assms(1)]] by simp_all

lemma mset_concat_cong: "(\<And>x. x \<in> set xs \<Longrightarrow> mset (f x) = mset (g x)) \<Longrightarrow> mset (concat (map f xs)) = mset (concat (map g xs))"
  by (induction xs) simp_all

text \<open>C4. A verified pipeline is planned completely and in order: when \<open>Verify\<close> is silent, the execution
  plan has the stages of the pipeline in their order, every job of the pipeline occurs in the plan
  exactly once, and within a stage every job comes after all the jobs it needs. This holds for all
  map iteration orders of the verifier and of the planner.\<close>

theorem verified_pipeline_plan:
  assumes "Verify ord v = []" and "range_order ord" and "range_order ord'" and "vPipeline v = p"
  shows "\<exists>plan. GenerateExecutionPlan ord' p = Inr plan
    \<and> map sepName (epStages plan) = map stageName (pipelineStages p)
    \<and> mset (concat (map sepJobs (epStages plan))) = mset (map job_plan (pipelineJobs p))
    \<and> (\<forall>stage \<in> set (epStages plan). \<exists>js. sepJobs stage = map job_plan js \<and> topo_sorted js
          \<and> mset js = mset (jobsForStage (sepName stage) (Some p)))"
proof -
  have wf: "wf_pipeline p"
    using Verify_Nil [OF assms(2), of v] assms(1,4) by simp
  let ?js = "\<lambda>s. jobsForStage (stageName s) (Some p)"
  have "mset (concat (map (\<lambda>s. scheduleJobsInStage ord' (?js s)) (pipelineStages p)))
      = mset (concat (map ?js (pipelineStages p)))"
    by (rule mset_concat_cong) (rule schedule_wf_stage [OF wf assms(3)])
  also have "\<dots> = mset (pipelineJobs p)"
    using wf mset_jobs_by_stage [of "pipelineStages p" "pipelineJobs p"]
    by (simp add: jobsForStage_def wf_pipeline_def)
  finally have "mset (map job_plan (concat (map (\<lambda>s. scheduleJobsInStage ord' (?js s)) (pipelineStages p))))
      = mset (map job_plan (pipelineJobs p))" by simp
  then show ?thesis
    using schedule_wf_stage [OF wf assms(3)]
    by (auto simp: GenerateExecutionPlan_def buildStagePlan_def comp_def map_concat)
qed

lemma verified_pipeline_plan_witness:
  "\<exists>plan. GenerateExecutionPlan rev demo_pipeline = Inr plan
    \<and> mset (map jepName (concat (map sepJobs (epStages plan)))) = {#''compile'', ''link'', ''unit''#}"
proof -
  have "vPipeline demo_verifier = demo_pipeline" by (simp add: demo_verifier_def NewPipelineVerifier_def)
  from verified_pipeline_plan [OF demo_verified range_order_rev range_order_rev this]
  obtain plan where plan: "GenerateExecutionPlan rev demo_pipeline = Inr plan"
      "mset (concat (map sepJobs (epStages plan))) = mset (map job_plan (pipelineJobs demo_pipeline))" by blast
  from plan(2) have "mset (map jepName (concat (map sepJobs (epStages plan)))) = {#''compile'', ''link'', ''unit''#}"
    by (simp only: mset_map) (simp add: demo_pipeline_def job_plan_def)
  with plan(1) show ?thesis by blast
qed

section \<open>What the reports say\<close>

text \<open>C20. The cycle report is exact: with distinct job names \<open>checkNoCycles\<close> is silent when the needs
  are acyclic, and otherwise reports one error whose message spells out a real cycle of the needs
  graph, closed by its first job.\<close>

theorem checkNoCycles_exact:
  assumes "range_order ord" and "distinct (map jobName (pipelineJobs (vPipeline v)))"
  shows "(acyclic (needs_rel (pipelineJobs (vPipeline v))) \<and> checkNoCycles ord v = [])
    \<or> (\<exists>cycle loc. is_cycle (needs_graph (pipelineJobs (vPipeline v))) cycle
         \<and> checkNoCycles ord v = [formatError v loc
             (''cycle detected in `needs` requirements. '' @ Join cycle '' -> '' @ '' -> '' @ hd cycle)])"
proof (cases "find_cycle ord (needs_graph (pipelineJobs (vPipeline v)))")
  case None
  then have "checkNoCycles ord v = []" by (simp add: checkNoCycles_def)
  with checkNoCycles_Nil [OF assms] show ?thesis by simp
next
  case (Some cycle)
  then have "is_cycle (needs_graph (pipelineJobs (vPipeline v))) cycle" by (rule find_cycle_sound)
  with Some show ?thesis by (auto simp: checkNoCycles_def)
qed

definition cyclic_verifier :: PipelineVerifier where
  "cyclic_verifier =
     (let job = (\<lambda>n needs. \<lparr>jobName = n, jobStage = ''build'', jobImage = ''alpine'', jobScript = [''true''],
                  jobNeeds = needs, jobFailures = False\<rparr>);
          p = demo_pipeline\<lparr>pipelineJobs := [job ''a'' [''b''], job ''b'' [''c''], job ''c'' [''b'']]\<rparr>
      in NewPipelineVerifier ''p.yaml'' p (pipeline_document p))"

lemma checkNoCycles_exact_witness:
  "\<exists>cycle loc. is_cycle (needs_graph (pipelineJobs (vPipeline cyclic_verifier))) cycle
     \<and> checkNoCycles rev cyclic_verifier = [formatError cyclic_verifier loc
         (''cycle detected in `needs` requirements. '' @ Join cycle '' -> '' @ '' -> '' @ hd cycle)]"
proof -
  have "distinct (map jobName (pipelineJobs (vPipeline cyclic_verifier)))" by code_simp
  moreover have "checkNoCycles rev cyclic_verifier \<noteq> []" by code_simp
  ultimately show ?thesis using checkNoCycles_exact [OF range_order_rev] by blast
qed

text \<open>Job errors point at the right job: for a pipeline built from the verified document, the job at
  index \<open>i\<close> of the pipeline is the one whose key node gives the location of index \<open>i\<close>.\<close>

theorem job_locations_aligned:
  assumes "buildPipeline (rootNode v) = Inr (vPipeline v)" and "i < length (pipelineJobs (vPipeline v))"
  shows "\<exists>key value. getJobNodePair v i = Some (key, value)
    \<and> Value key = jobName (pipelineJobs (vPipeline v) ! i) \<and> getJobNameLocation v i = node_location key"
proof -
  let ?es = "filter (\<lambda>(k, x). \<not> IsReservedTopLevelKey (Value k)) (root_entries v)"
  have "pipelineJobs (vPipeline v) = map (\<lambda>(k, x). parseJob (Value k) x) ?es"
    using assms(1)
    by (elim buildPipeline_Inr) (simp add: parseJobs_def root_entries_def getRootMappingNode_def)
  with assms(2) show ?thesis
    by (auto simp: getJobNodePair_def getJobNameLocation_def Let_def split: prod.split)
qed

lemma job_locations_aligned_witness:
  "\<exists>key value. getJobNodePair demo_verifier 2 = Some (key, value) \<and> Value key = ''compile''"
proof -
  have "buildPipeline (rootNode demo_verifier) = Inr (vPipeline demo_verifier)" by code_simp
  moreover have "2 < length (pipelineJobs (vPipeline demo_verifier))"
    and "jobName (pipelineJobs (vPipeline demo_verifier) ! 2) = ''compile''" by code_simp+
  ultimately show ?thesis using job_locations_aligned [of demo_verifier 2] by metis
qed

text \<open>Stage errors can point at the wrong entry: \<open>getStageNameLocation\<close> indexes the YAML sequence with
  the index of the parsed stage, but \<open>parseStages\<close> drops entries without a name. Here the duplicate
  is the entry on line 5 and the report is placed on line 4, the first definition.\<close>

definition skipped_stage_document :: yaml_node where
  "skipped_stage_document = DocumentNode [MappingNode ''!!map'' 1 1
     [(ScalarNode ''!!str'' ''pipeline'' 1 1, map_node [(''name'', str_node ''demo'')]),
      (ScalarNode ''!!str'' ''stages'' 2 1, SequenceNode ''!!seq'' 3 3
         [MappingNode ''!!map'' 3 5 [(ScalarNode ''!!str'' ''label'' 3 5, ScalarNode ''!!str'' ''x'' 3 12)],
          ScalarNode ''!!str'' ''build'' 4 5, ScalarNode ''!!str'' ''build'' 5 5])]]"

lemma stage_location_misaligned:
  "map stageName (parseStages (findMappingNode (Some (hd (case skipped_stage_document of DocumentNode xs \<Rightarrow> xs))) ''stages''))
     = [''build'', ''build'']"
  "map (locLine \<circ> veLocation) (checkUniqueStageNames
     (case buildPipeline skipped_stage_document of Inr p \<Rightarrow> NewPipelineVerifier '''' p skipped_stage_document)) = [4]"
  by code_simp+

end
