(* ===== verification/Http.thy ===== *)
theory Http
  imports Models
begin

text \<open>
  \<open>internal/api/response.go\<close> and what the services use of \<open>net/http\<close>: a request with its method,
  path, query and body (reading the body can fail), a response with its status, content type and body,
  and the JSON writers. \<open>any\<close> is the value given to the JSON encoder, which is a parameter \<open>enc\<close>.
\<close>

record StatusResponse =
  stStatus :: string

record ErrorResponse =
  erCode :: string
  erMessage :: string

datatype any =
    AnyStatus StatusResponse
  | AnyError ErrorResponse
  | AnyValidate ValidateResponse
  | AnyDryRun DryRunResponse
  | AnyRun RunResponse
  | AnyReport ReportResponse
  | AnyServices "(string \<times> string) list"
  | AnyReady StatusResponse "(string \<times> string) list"

record http_request =
  hrMethod :: string
  hrPath :: string
  hrQuery :: "(string \<times> string) list"
  hrBody :: "goerr + string"

record http_response =
  hsStatus :: int
  hsContentType :: string
  hsBody :: string

type_synonym encoder = "any \<Rightarrow> goerr + string"

text \<open>\<open>http.StatusText\<close> on the codes the services use.\<close>

fun StatusText :: "int \<Rightarrow> string" where
  "StatusText code =
     (if code = 200 then ''OK'' else if code = 400 then ''Bad Request'' else if code = 404 then ''Not Found''
      else if code = 405 then ''Method Not Allowed'' else if code = 409 then ''Conflict''
      else if code = 500 then ''Internal Server Error'' else if code = 502 then ''Bad Gateway''
      else if code = 503 then ''Service Unavailable'' else if code = 504 then ''Gateway Timeout'' else '''')"

definition http_Error :: "string \<Rightarrow> int \<Rightarrow> http_response" where
  "http_Error message code =
     \<lparr>hsStatus = code, hsContentType = ''text/plain; charset=utf-8'', hsBody = message @ [CHR 0x0A]\<rparr>"

definition WriteJSON :: "encoder \<Rightarrow> int \<Rightarrow> any \<Rightarrow> http_response" where
  "WriteJSON enc statusCode v =
     (case enc v of
        Inl e \<Rightarrow> http_Error (StatusText 500) 500
      | Inr buf \<Rightarrow> \<lparr>hsStatus = statusCode, hsContentType = ''application/json'', hsBody = buf\<rparr>)"

definition defaultErrorCode :: "int \<Rightarrow> string" where
  "defaultErrorCode statusCode =
     (if statusCode = 400 then ''bad_request''
      else if statusCode = 405 then ''method_not_allowed''
      else if statusCode = 404 then ''not_found''
      else if statusCode = 409 then ''conflict''
      else if statusCode = 502 then ''bad_gateway''
      else if statusCode = 504 then ''gateway_timeout''
      else if statusCode = 503 then ''service_unavailable''
      else if statusCode = 500 then ''internal_error''
      else ''error'')"

definition WriteError :: "encoder \<Rightarrow> int \<Rightarrow> string \<Rightarrow> string \<Rightarrow> http_response" where
  "WriteError enc statusCode code message = WriteJSON enc statusCode (AnyError \<lparr>erCode = code, erMessage = message\<rparr>)"

definition WriteJSONError :: "encoder \<Rightarrow> int \<Rightarrow> string \<Rightarrow> http_response" where
  "WriteJSONError enc statusCode message = WriteError enc statusCode (defaultErrorCode statusCode) message"

text \<open>The answer of every handler to a method it does not serve.\<close>

definition method_not_allowed :: "encoder \<Rightarrow> http_response" where
  "method_not_allowed enc = WriteJSONError enc 405 (StatusText 405)"

lemma hsStatus_WriteJSON: "hsStatus (WriteJSON enc code v) = (case enc v of Inl e \<Rightarrow> 500 | Inr b \<Rightarrow> code)"
  by (simp add: WriteJSON_def http_Error_def split: sum.split)

end
