(* ===== verification/Cache.thy ===== *)
theory Cache
  imports Http
begin

text \<open>
  \<open>internal/cache\<close>: the settings, the keys and the stores of the response cache. A store is a record of
  its methods on a state. The redis client and duration parsing are parameters. The locale
  \<open>cache_store\<close> is what the validation service relies on: a store only gives back what was put into it.
\<close>

section \<open>Settings\<close>

definition second_ns :: int where "second_ns = 1000000000"
definition defaultRedisURL :: string where "defaultRedisURL = ''redis://localhost:6379/0''"
definition defaultKeyPrefix :: string where "defaultKeyPrefix = ''cicd''"
definition defaultValidateTTL :: int where "defaultValidateTTL = 10 * 60 * second_ns"
definition defaultDryRunTTL :: int where "defaultDryRunTTL = 5 * 60 * second_ns"
definition defaultRedisDialTimeout :: int where "defaultRedisDialTimeout = 2 * second_ns"
definition defaultRedisReadTimeout :: int where "defaultRedisReadTimeout = second_ns div 2"
definition defaultRedisWriteTimeout :: int where "defaultRedisWriteTimeout = second_ns div 2"

record cacheConfig =
  ccEnabled :: bool
  ccRedisURL :: string
  ccKeyPrefix :: string
  ccValidateTTL :: int
  ccDryRunTTL :: int
  ccDialTimeout :: int
  ccReadTimeout :: int
  ccWriteTimeout :: int

text \<open>The process environment, and \<open>time.ParseDuration\<close> (nanoseconds).\<close>

type_synonym getenv = "string \<Rightarrow> string"
type_synonym parse_duration = "string \<Rightarrow> goerr + int"

definition loadString :: "getenv \<Rightarrow> string \<Rightarrow> string \<Rightarrow> string" where
  "loadString getenv key fallback =
     (let v = TrimSpace (getenv key) in if v = '''' then fallback else v)"

definition loadDuration :: "getenv \<Rightarrow> parse_duration \<Rightarrow> string \<Rightarrow> int \<Rightarrow> int" where
  "loadDuration getenv parse key fallback =
     (let v = TrimSpace (getenv key) in
      if v = '''' then fallback
      else (case parse v of Inl e \<Rightarrow> fallback | Inr d \<Rightarrow> if d \<le> 0 then fallback else d))"

definition ParseBool :: "string \<Rightarrow> bool option" where
  "ParseBool s =
     (if s \<in> set [''1'', ''t'', ''T'', ''TRUE'', ''true'', ''True''] then Some True
      else if s \<in> set [''0'', ''f'', ''F'', ''FALSE'', ''false'', ''False''] then Some False
      else None)"

definition loadBool :: "getenv \<Rightarrow> string \<Rightarrow> bool \<Rightarrow> bool" where
  "loadBool getenv key fallback =
     (let v = TrimSpace (getenv key) in
      if v = '''' then fallback else (case ParseBool v of None \<Rightarrow> fallback | Some b \<Rightarrow> b))"

definition LoadConfig :: "getenv \<Rightarrow> parse_duration \<Rightarrow> cacheConfig" where
  "LoadConfig getenv parse =
     \<lparr>ccEnabled = loadBool getenv ''VALIDATION_CACHE_ENABLED'' True,
      ccRedisURL = loadString getenv ''VALIDATION_CACHE_REDIS_URL'' defaultRedisURL,
      ccKeyPrefix = loadString getenv ''VALIDATION_CACHE_KEY_PREFIX'' defaultKeyPrefix,
      ccValidateTTL = loadDuration getenv parse ''VALIDATION_CACHE_VALIDATE_TTL'' defaultValidateTTL,
      ccDryRunTTL = loadDuration getenv parse ''VALIDATION_CACHE_DRYRUN_TTL'' defaultDryRunTTL,
      ccDialTimeout = loadDuration getenv parse ''VALIDATION_CACHE_DIAL_TIMEOUT'' defaultRedisDialTimeout,
      ccReadTimeout = loadDuration getenv parse ''VALIDATION_CACHE_READ_TIMEOUT'' defaultRedisReadTimeout,
      ccWriteTimeout = loadDuration getenv parse ''VALIDATION_CACHE_WRITE_TIMEOUT'' defaultRedisWriteTimeout\<rparr>"

section \<open>Keys\<close>

definition validateNamespace :: string where "validateNamespace = ''validate:v2''"
definition dryRunNamespace :: string where "dryRunNamespace = ''dryrun:v2''"

definition buildKey :: "string \<Rightarrow> string \<Rightarrow> string \<Rightarrow> string \<Rightarrow> string" where
  "buildKey prefix namespace path commit =
     (let val = TrimSpace commit @ '':'' @ TrimSpace path in
      if TrimSpace prefix = '''' then namespace @ '':'' @ val
      else TrimSpace prefix @ '':'' @ namespace @ '':'' @ val)"

definition ValidateKey :: "string \<Rightarrow> string \<Rightarrow> string \<Rightarrow> string" where
  "ValidateKey prefix path commit = buildKey prefix validateNamespace path commit"

definition DryRunKey :: "string \<Rightarrow> string \<Rightarrow> string \<Rightarrow> string" where
  "DryRunKey prefix path commit = buildKey prefix dryRunNamespace path commit"

section \<open>Stores\<close>

text \<open>The interface \<open>cache.Store\<close>, and the redis client behind \<open>RedisStore\<close>.\<close>

record 's cacheStore =
  csGet :: "string \<Rightarrow> ('s, string) op"
  csSet :: "string \<Rightarrow> string \<Rightarrow> int \<Rightarrow> ('s, unit) op"
  csPing :: "('s, unit) op"
  csClose :: "('s, unit) op"

record 's redisClient =
  rdGet :: "string \<Rightarrow> ('s, string) op"
  rdSet :: "string \<Rightarrow> string \<Rightarrow> int \<Rightarrow> ('s, unit) op"
  rdPing :: "('s, unit) op"
  rdClose :: "('s, unit) op"

definition cache_miss :: goerr where
  "cache_miss = \<lparr>Error = ''cache miss'', chain = [ErrCacheMiss]\<rparr>"

definition NoopStore :: "'s cacheStore" where
  "NoopStore = \<lparr>csGet = (\<lambda>key. fail cache_miss), csSet = (\<lambda>key v ttl. ret ()), csPing = ret (), csClose = ret ()\<rparr>"

definition RedisStore_Get :: "'s redisClient option \<Rightarrow> string \<Rightarrow> ('s, string) op" where
  "RedisStore_Get client key =
     (case client of
        None \<Rightarrow> fail (Errorf ''redis client is nil'')
      | Some c \<Rightarrow> wrap_err (\<lambda>e. if errors_Is e RedisNil then cache_miss else e) (rdGet c key))"

definition RedisStore_Set :: "'s redisClient option \<Rightarrow> string \<Rightarrow> string \<Rightarrow> int \<Rightarrow> ('s, unit) op" where
  "RedisStore_Set client key v ttl =
     (case client of None \<Rightarrow> fail (Errorf ''redis client is nil'') | Some c \<Rightarrow> rdSet c key v ttl)"

definition RedisStore_Ping :: "'s redisClient option \<Rightarrow> ('s, unit) op" where
  "RedisStore_Ping client =
     (case client of None \<Rightarrow> fail (Errorf ''redis client is nil'') | Some c \<Rightarrow> rdPing c)"

definition RedisStore_Close :: "'s redisClient option \<Rightarrow> ('s, unit) op" where
  "RedisStore_Close client = (case client of None \<Rightarrow> ret () | Some c \<Rightarrow> rdClose c)"

definition RedisStore :: "'s redisClient option \<Rightarrow> 's cacheStore" where
  "RedisStore client =
     \<lparr>csGet = RedisStore_Get client, csSet = RedisStore_Set client, csPing = RedisStore_Ping client,
      csClose = RedisStore_Close client\<rparr>"

text \<open>The options of a client; \<open>redis.ParseURL\<close> and \<open>redis.NewClient\<close> are parameters.\<close>

record redisOptions =
  roAddr :: string
  roDialTimeout :: int
  roReadTimeout :: int
  roWriteTimeout :: int

definition NewRedisStore ::
  "(string \<Rightarrow> goerr + redisOptions) \<Rightarrow> (redisOptions \<Rightarrow> 's redisClient) \<Rightarrow> cacheConfig \<Rightarrow> goerr + 's cacheStore" where
  "NewRedisStore parseURL newClient cfg =
     (case parseURL (ccRedisURL cfg) of
        Inl e \<Rightarrow> Inl (wrapf ''parse redis url: '' e)
      | Inr opts \<Rightarrow>
          let opts = (if 0 < ccDialTimeout cfg then opts\<lparr>roDialTimeout := ccDialTimeout cfg\<rparr> else opts);
              opts = (if 0 < ccReadTimeout cfg then opts\<lparr>roReadTimeout := ccReadTimeout cfg\<rparr> else opts);
              opts = (if 0 < ccWriteTimeout cfg then opts\<lparr>roWriteTimeout := ccWriteTimeout cfg\<rparr> else opts)
          in Inr (RedisStore (Some (newClient opts))))"

definition NewStoreFromConfig ::
  "(string \<Rightarrow> goerr + redisOptions) \<Rightarrow> (redisOptions \<Rightarrow> 's redisClient) \<Rightarrow> cacheConfig \<Rightarrow> goerr + 's cacheStore" where
  "NewStoreFromConfig parseURL newClient cfg =
     (if \<not> ccEnabled cfg then Inr NoopStore else NewRedisStore parseURL newClient cfg)"

section \<open>Facts about keys\<close>

lemma split_first_colon:
  assumes "a @ '':'' @ p = b @ '':'' @ q" and "CHR '':'' \<notin> set a" and "CHR '':'' \<notin> set b"
  shows "a = b \<and> p = q"
proof -
  have "takeWhile (\<lambda>c. c \<noteq> CHR '':'') (x @ '':'' @ y) = x" if "CHR '':'' \<notin> set x" for x y
    using that by (subst takeWhile_append2) auto
  with assms show ?thesis by (metis append_same_eq same_append_eq)
qed

lemma buildKey_eq:
  assumes "buildKey prefix ns p c = buildKey prefix ns p' c'"
    and "CHR '':'' \<notin> set (TrimSpace c)" and "CHR '':'' \<notin> set (TrimSpace c')"
  shows "TrimSpace p = TrimSpace p' \<and> TrimSpace c = TrimSpace c'"
  using assms split_first_colon [of "TrimSpace c" "TrimSpace p" "TrimSpace c'" "TrimSpace p'"]
  by (auto simp: buildKey_def Let_def split: if_splits)

lemma ValidateKey_neq_DryRunKey: "ValidateKey prefix p c \<noteq> DryRunKey prefix p' c'"
  by (simp add: ValidateKey_def DryRunKey_def buildKey_def validateNamespace_def dryRunNamespace_def Let_def)

section \<open>The contract of a store\<close>

text \<open>\<open>stored\<close> is what a store may give back: a \<open>Get\<close> returns only that, a \<open>Set\<close> adds only its own
  pair, and entries may vanish at any time.\<close>

locale cache_store =
  fixes cget :: "string \<Rightarrow> ('s, string) op"
    and cset :: "string \<Rightarrow> string \<Rightarrow> int \<Rightarrow> ('s, unit) op"
    and stored :: "'s \<Rightarrow> string \<Rightarrow> string option"
  assumes get_stored: "cget k s = (Inr v, s') \<Longrightarrow> stored s k = Some v"
    and get_keeps: "cget k s = (r, s') \<Longrightarrow> stored s' k' = Some v \<Longrightarrow> stored s k' = Some v"
    and set_stores: "cset k x ttl s = (u, s') \<Longrightarrow> stored s' k' = Some v \<Longrightarrow> k' = k \<and> v = x \<or> stored s k' = Some v"
begin

text \<open>A property of all stored pairs survives reads, and writes of pairs that have it.\<close>

definition coherent :: "(string \<Rightarrow> string \<Rightarrow> bool) \<Rightarrow> 's \<Rightarrow> bool" where
  "coherent P s \<longleftrightarrow> (\<forall>k v. stored s k = Some v \<longrightarrow> P k v)"

lemma coherent_get: "coherent P s \<Longrightarrow> cget k s = (r, s') \<Longrightarrow> coherent P s'"
  using get_keeps by (fastforce simp: coherent_def)

lemma coherent_hit: "coherent P s \<Longrightarrow> cget k s = (Inr v, s') \<Longrightarrow> P k v"
  using get_stored by (fastforce simp: coherent_def)

lemma coherent_set: "coherent P s \<Longrightarrow> P k x \<Longrightarrow> cset k x ttl s = (r, s') \<Longrightarrow> coherent P s'"
  using set_stores by (fastforce simp: coherent_def)

end

interpretation noop: cache_store "csGet NoopStore" "csSet NoopStore" "\<lambda>s k. None"
  by unfold_locales (simp_all add: NoopStore_def fail_def)

text \<open>The redis store inherits the contract from its client.\<close>

locale redis_client = cache_store "rdGet client" "rdSet client" stored
  for client :: "'s redisClient" and stored :: "'s \<Rightarrow> string \<Rightarrow> string option"
begin

lemma RedisStore_Get_client:
  "csGet (RedisStore (Some client)) k s = (r, s') \<Longrightarrow> \<exists>r'. rdGet client k s = (r', s') \<and> (\<forall>v. r = Inr v \<longrightarrow> r' = Inr v)"
  by (auto simp: RedisStore_def RedisStore_Get_def wrap_err_def split: prod.splits sum.splits)

end

sublocale redis_client \<subseteq> redis_store: cache_store "csGet (RedisStore (Some client))" "csSet (RedisStore (Some client))" stored
proof unfold_locales
  show "stored s k = Some v" if "csGet (RedisStore (Some client)) k s = (Inr v, s')" for k s v s'
    using RedisStore_Get_client [OF that] get_stored by blast
  show "stored s k' = Some v" if "csGet (RedisStore (Some client)) k s = (r, s')" "stored s' k' = Some v" for k s r s' k' v
    using RedisStore_Get_client [OF that(1)] get_keeps that(2) by blast
  show "k' = k \<and> v = x \<or> stored s k' = Some v"
    if "csSet (RedisStore (Some client)) k x ttl s = (r, s')" "stored s' k' = Some v" for k x ttl s r s' k' v
    using that set_stores by (auto simp: RedisStore_def RedisStore_Set_def)
qed

text \<open>A server with the documented behaviour of \<open>SET key value EX\<close> and \<open>GET\<close>: an entry is gone at its
  deadline, and any command can fail.\<close>

record redis_server =
  rsEntries :: "(string \<times> int) gomap"
  rsNow :: int
  rsFaults :: "goerr option list"

definition redis_call :: "(redis_server, 'a) op \<Rightarrow> (redis_server, 'a) op" where
  "redis_call m s =
     (case rsFaults s of
        [] \<Rightarrow> m s
      | None # fs \<Rightarrow> m (s\<lparr>rsFaults := fs\<rparr>)
      | Some e # fs \<Rightarrow> (Inl e, s\<lparr>rsFaults := fs\<rparr>))"

definition redis_get :: "string \<Rightarrow> (redis_server, string) op" where
  "redis_get key = redis_call (\<lambda>s.
     (case map_of (rsEntries s) key of
        Some (v, deadline) \<Rightarrow>
          if rsNow s < deadline then (Inr v, s) else (Inl \<lparr>Error = ''redis: nil'', chain = [RedisNil]\<rparr>, s)
      | None \<Rightarrow> (Inl \<lparr>Error = ''redis: nil'', chain = [RedisNil]\<rparr>, s)))"

definition redis_set :: "string \<Rightarrow> string \<Rightarrow> int \<Rightarrow> (redis_server, unit) op" where
  "redis_set key v ttl = redis_call (\<lambda>s. (Inr (), s\<lparr>rsEntries := map_set key (v, rsNow s + ttl) (rsEntries s)\<rparr>))"

definition memory_client :: "redis_server redisClient" where
  "memory_client = \<lparr>rdGet = redis_get, rdSet = redis_set, rdPing = redis_call (ret ()), rdClose = ret ()\<rparr>"

definition redis_stored :: "redis_server \<Rightarrow> string \<Rightarrow> string option" where
  "redis_stored s k = map_option fst (map_of (rsEntries s) k)"

interpretation memory: redis_client memory_client redis_stored
proof unfold_locales
  show "redis_stored s k = Some v" if "rdGet memory_client k s = (Inr v, s')" for k s v s'
    using that by (auto simp: memory_client_def redis_get_def redis_call_def redis_stored_def split: list.splits option.splits if_splits)
  show "redis_stored s k' = Some v" if "rdGet memory_client k s = (r, s')" "redis_stored s' k' = Some v" for k s r s' k' v
    using that by (auto simp: memory_client_def redis_get_def redis_call_def redis_stored_def split: list.splits option.splits if_splits)
  show "k' = k \<and> v = x \<or> redis_stored s k' = Some v"
    if "rdSet memory_client k x ttl s = (r, s')" "redis_stored s' k' = Some v" for k x ttl s r s' k' v
    using that by (auto simp: memory_client_def redis_set_def redis_call_def redis_stored_def split: list.splits option.splits if_splits)
qed

end
