(* ===== verification/Validation.thy ===== *)
theory Validation
  imports Verifier Cache
begin

text \<open>
  \<open>internal/services/validation\<close>: validation and dry runs behind the response cache, and their HTTP
  handlers. JSON and YAML decoding are parameters; the iteration orders of Go's maps are a parameter of every single
  call. The theory shows that the cache only returns answers that were computed for the same request when path and commit
  determine the content, that a verdict then means a well-formed pipeline, and that requests without path and commit share one verdict.
\<close>

section \<open>The service\<close>

record 's validationService =
  vsCacheStore :: "'s cacheStore"
  vsCacheCfg :: cacheConfig

record validationEnv =
  veUnmarshalYAML :: "string \<Rightarrow> goerr + yaml_node"
  veReadFile :: "string \<Rightarrow> goerr + string"
  veMarshalValidate :: "ValidateResponse \<Rightarrow> goerr + string"
  veUnmarshalValidate :: "string \<Rightarrow> goerr + ValidateResponse"
  veMarshalDryRun :: "DryRunResponse \<Rightarrow> goerr + string"
  veUnmarshalDryRun :: "string \<Rightarrow> goerr + DryRunResponse"
  veUnmarshalRequest :: "string \<Rightarrow> goerr + ValidateRequest"
  veEncode :: encoder

text \<open>The orders in which one call ranges over its maps, as a function of their keys: no call ranges twice over the same
  keys, and another call may use other orders.\<close>

record rangeOrders =
  roVerify :: "string list \<Rightarrow> string list"
  roPlan :: "string list \<Rightarrow> string list"

definition NewValidationService ::
  "getenv \<Rightarrow> parse_duration \<Rightarrow> (string \<Rightarrow> goerr + redisOptions) \<Rightarrow> (redisOptions \<Rightarrow> 's redisClient) \<Rightarrow>
     goerr + 's validationService" where
  "NewValidationService getenv parse parseURL newClient =
     (let cfg = LoadConfig getenv parse in
      case NewStoreFromConfig parseURL newClient cfg of
        Inl e \<Rightarrow> Inl (wrapf ''initialize cache store: '' e)
      | Inr store \<Rightarrow> Inr \<lparr>vsCacheStore = store, vsCacheCfg = cfg\<rparr>)"

definition validatePipelineContent :: "validationEnv \<Rightarrow> rangeOrders \<Rightarrow> string \<Rightarrow> Pipeline option \<times> string list" where
  "validatePipelineContent env ro yamlContent =
     (case Parse (veUnmarshalYAML env) (veReadFile env) (NewParserFromContent yamlContent) of
        Inl e \<Rightarrow> (None, [Error e])
      | Inr (pipeline, root) \<Rightarrow>
          let errs = Verify (roVerify ro) (NewPipelineVerifier ''content'' pipeline root) in
          if errs \<noteq> [] then (None, map ValidationError_Error errs) else (Some pipeline, []))"

definition compute_validate ::
  "validationEnv \<Rightarrow> rangeOrders \<Rightarrow> 's validationService \<Rightarrow> string \<Rightarrow> ValidateRequest \<Rightarrow> 's \<Rightarrow> ValidateResponse \<times> 's" where
  "compute_validate env ro svc key req s =
     (let errs = snd (validatePipelineContent env ro (vqYAMLContent req));
          response = \<lparr>vrValid = (errs = []), vrErrors = errs\<rparr> in
      case veMarshalValidate env response of
        Inl e \<Rightarrow> (response, s)
      | Inr payload \<Rightarrow> (response, snd (csSet (vsCacheStore svc) key payload (ccValidateTTL (vsCacheCfg svc)) s)))"

definition ValidateYAML ::
  "validationEnv \<Rightarrow> rangeOrders \<Rightarrow> 's validationService \<Rightarrow> ValidateRequest \<Rightarrow> 's \<Rightarrow> ValidateResponse \<times> 's" where
  "ValidateYAML env ro svc req s =
     (let key = ValidateKey (ccKeyPrefix (vsCacheCfg svc)) (vqPipelinePath req) (vqCommit req) in
      case csGet (vsCacheStore svc) key s of
        (Inr val, s1) \<Rightarrow>
          (case veUnmarshalValidate env val of
             Inr response \<Rightarrow> (response, s1)
           | Inl e \<Rightarrow> compute_validate env ro svc key req s1)
      | (Inl e, s1) \<Rightarrow> compute_validate env ro svc key req s1)"

definition compute_dryrun ::
  "validationEnv \<Rightarrow> rangeOrders \<Rightarrow> 's validationService \<Rightarrow> string \<Rightarrow> ValidateRequest \<Rightarrow> 's \<Rightarrow> DryRunResponse \<times> 's" where
  "compute_dryrun env ro svc key req s =
     (case validatePipelineContent env ro (vqYAMLContent req) of
        (Some pipeline, []) \<Rightarrow>
          (case GenerateExecutionPlan (roPlan ro) pipeline of
             Inl e \<Rightarrow> (\<lparr>drValid = False, drErrors = [''failed to generate execution plan: '' @ Error e],
                        drExecutionPlan = None\<rparr>, s)
           | Inr plan \<Rightarrow>
               let response = \<lparr>drValid = True, drErrors = [], drExecutionPlan = Some plan\<rparr> in
               (case veMarshalDryRun env response of
                  Inl e \<Rightarrow> (response, s)
                | Inr payload \<Rightarrow> (response, snd (csSet (vsCacheStore svc) key payload (ccDryRunTTL (vsCacheCfg svc)) s))))
      | (_, errs) \<Rightarrow> (\<lparr>drValid = False, drErrors = errs, drExecutionPlan = None\<rparr>, s))"

definition DryRunYAML ::
  "validationEnv \<Rightarrow> rangeOrders \<Rightarrow> 's validationService \<Rightarrow> ValidateRequest \<Rightarrow> 's \<Rightarrow> DryRunResponse \<times> 's" where
  "DryRunYAML env ro svc req s =
     (let key = DryRunKey (ccKeyPrefix (vsCacheCfg svc)) (vqPipelinePath req) (vqCommit req) in
      case csGet (vsCacheStore svc) key s of
        (Inr val, s1) \<Rightarrow>
          (case veUnmarshalDryRun env val of
             Inr response \<Rightarrow> (response, s1)
           | Inl e \<Rightarrow> compute_dryrun env ro svc key req s1)
      | (Inl e, s1) \<Rightarrow> compute_dryrun env ro svc key req s1)"

section \<open>The handlers\<close>

definition validation_handleHealth :: "validationEnv \<Rightarrow> http_request \<Rightarrow> http_response" where
  "validation_handleHealth env r =
     (if hrMethod r \<noteq> ''GET'' then method_not_allowed (veEncode env)
      else WriteJSON (veEncode env) 200 (AnyStatus \<lparr>stStatus = ''healthy''\<rparr>))"

definition validation_handleReady :: "validationEnv \<Rightarrow> http_request \<Rightarrow> http_response" where
  "validation_handleReady env r =
     (if hrMethod r \<noteq> ''GET'' then method_not_allowed (veEncode env)
      else WriteJSON (veEncode env) 200 (AnyStatus \<lparr>stStatus = ''ready''\<rparr>))"

definition handleValidate ::
  "validationEnv \<Rightarrow> rangeOrders \<Rightarrow> 's validationService \<Rightarrow> http_request \<Rightarrow> 's \<Rightarrow> http_response \<times> 's" where
  "handleValidate env ro svc r s =
     (if hrMethod r \<noteq> ''POST'' then (method_not_allowed (veEncode env), s)
      else
        (case hrBody r of
           Inl e \<Rightarrow> (WriteJSONError (veEncode env) 400 (''failed to read request body: '' @ Error e), s)
         | Inr body \<Rightarrow>
             (case veUnmarshalRequest env body of
                Inl e \<Rightarrow> (WriteJSONError (veEncode env) 400 (''invalid JSON: '' @ Error e), s)
              | Inr req \<Rightarrow>
                  let (response, s1) = ValidateYAML env ro svc req s
                  in (WriteJSON (veEncode env) 200 (AnyValidate response), s1))))"

definition handleDryRun ::
  "validationEnv \<Rightarrow> rangeOrders \<Rightarrow> 's validationService \<Rightarrow> http_request \<Rightarrow> 's \<Rightarrow> http_response \<times> 's" where
  "handleDryRun env ro svc r s =
     (if hrMethod r \<noteq> ''POST'' then (method_not_allowed (veEncode env), s)
      else
        (case hrBody r of
           Inl e \<Rightarrow> (WriteJSONError (veEncode env) 400 (''failed to read request body: '' @ Error e), s)
         | Inr body \<Rightarrow>
             (case veUnmarshalRequest env body of
                Inl e \<Rightarrow> (WriteJSONError (veEncode env) 400 (''invalid JSON: '' @ Error e), s)
              | Inr req \<Rightarrow>
                  let (response, s1) = DryRunYAML env ro svc req s
                  in (WriteJSON (veEncode env) 200 (AnyDryRun response), s1))))"

text \<open>\<open>RegisterRoutes\<close>: the paths of the service; others get the mux's 404.\<close>

definition serve_validation ::
  "validationEnv \<Rightarrow> rangeOrders \<Rightarrow> 's validationService \<Rightarrow> http_request \<Rightarrow> 's \<Rightarrow> http_response \<times> 's" where
  "serve_validation env ro svc r s =
     (if hrPath r = ''/health'' then (validation_handleHealth env r, s)
      else if hrPath r = ''/validate'' then handleValidate env ro svc r s
      else if hrPath r = ''/dryrun'' then handleDryRun env ro svc r s
      else if hrPath r = ''/ready'' then (validation_handleReady env r, s)
      else (http_Error ''404 page not found'' 404, s))"

section \<open>The cache only returns computed answers\<close>

text \<open>The answers without a cache.\<close>

definition validate_answer :: "validationEnv \<Rightarrow> rangeOrders \<Rightarrow> string \<Rightarrow> ValidateResponse" where
  "validate_answer env ro yaml =
     (let errs = snd (validatePipelineContent env ro yaml) in \<lparr>vrValid = (errs = []), vrErrors = errs\<rparr>)"

definition dryrun_answer :: "validationEnv \<Rightarrow> rangeOrders \<Rightarrow> string \<Rightarrow> DryRunResponse" where
  "dryrun_answer env ro yaml =
     (case validatePipelineContent env ro yaml of
        (Some pipeline, []) \<Rightarrow>
          (case GenerateExecutionPlan (roPlan ro) pipeline of
             Inl e \<Rightarrow> \<lparr>drValid = False, drErrors = [''failed to generate execution plan: '' @ Error e], drExecutionPlan = None\<rparr>
           | Inr plan \<Rightarrow> \<lparr>drValid = True, drErrors = [], drExecutionPlan = Some plan\<rparr>)
      | (_, errs) \<Rightarrow> \<lparr>drValid = False, drErrors = errs, drExecutionPlan = None\<rparr>)"

text \<open>JSON carries the answer to a request: decoding gives it back. The answers hold text of the request and
  messages about it; nothing is asked of other strings, which \<open>encoding/json\<close> may change.\<close>

definition answer_travels :: "validationEnv \<Rightarrow> rangeOrders \<Rightarrow> string \<Rightarrow> bool" where
  "answer_travels env ro yaml \<longleftrightarrow>
     (\<forall>b. veMarshalValidate env (validate_answer env ro yaml) = Inr b \<longrightarrow> veUnmarshalValidate env b = Inr (validate_answer env ro yaml))
     \<and> (\<forall>b. veMarshalDryRun env (dryrun_answer env ro yaml) = Inr b \<longrightarrow> veUnmarshalDryRun env b = Inr (dryrun_answer env ro yaml))"

text \<open>A request whose content is that of its path at its commit.\<close>

definition commit_addressed :: "(string \<Rightarrow> string \<Rightarrow> string) \<Rightarrow> ValidateRequest \<Rightarrow> bool" where
  "commit_addressed content req \<longleftrightarrow>
     CHR '':'' \<notin> set (TrimSpace (vqCommit req))
     \<and> vqYAMLContent req = content (TrimSpace (vqPipelinePath req)) (TrimSpace (vqCommit req))"

text \<open>The entries of the cache were computed for the content of their keys, with some of the orders \<open>Q\<close>.\<close>

definition right_entry ::
  "validationEnv \<Rightarrow> (string \<Rightarrow> string \<Rightarrow> string) \<Rightarrow> string \<Rightarrow> rangeOrders set \<Rightarrow> string \<Rightarrow> string \<Rightarrow> bool" where
  "right_entry env content prefix Q k v \<longleftrightarrow>
     (\<forall>p c. CHR '':'' \<notin> set (TrimSpace c) \<longrightarrow>
        (k = ValidateKey prefix p c \<longrightarrow>
           (\<forall>r. veUnmarshalValidate env v = Inr r \<longrightarrow> (\<exists>ro \<in> Q. r = validate_answer env ro (content (TrimSpace p) (TrimSpace c)))))
        \<and> (k = DryRunKey prefix p c \<longrightarrow>
           (\<forall>r. veUnmarshalDryRun env v = Inr r \<longrightarrow> (\<exists>ro \<in> Q. r = dryrun_answer env ro (content (TrimSpace p) (TrimSpace c))))))"

lemma right_entry_more: "right_entry env content prefix Q k v \<Longrightarrow> Q \<subseteq> Q' \<Longrightarrow> right_entry env content prefix Q' k v"
  unfolding right_entry_def by blast

lemma right_entry_validate:
  assumes "answer_travels env ro (vqYAMLContent req)" and "commit_addressed content req" and "ro \<in> Q"
    and "veMarshalValidate env (validate_answer env ro (vqYAMLContent req)) = Inr b"
  shows "right_entry env content prefix Q (ValidateKey prefix (vqPipelinePath req) (vqCommit req)) b"
  unfolding right_entry_def
proof (intro allI impI conjI)
  fix p c r
  assume c: "CHR '':'' \<notin> set (TrimSpace c)" and r: "veUnmarshalValidate env b = Inr r"
    and key: "ValidateKey prefix (vqPipelinePath req) (vqCommit req) = ValidateKey prefix p c"
  have "r = validate_answer env ro (vqYAMLContent req)" using assms(1,4) r by (simp add: answer_travels_def)
  with buildKey_eq [OF key [unfolded ValidateKey_def] _ c] assms(2,3)
  show "\<exists>ro \<in> Q. r = validate_answer env ro (content (TrimSpace p) (TrimSpace c))" by (auto simp: commit_addressed_def)
qed (simp add: ValidateKey_neq_DryRunKey)

lemma right_entry_dryrun:
  assumes "answer_travels env ro (vqYAMLContent req)" and "commit_addressed content req" and "ro \<in> Q"
    and "veMarshalDryRun env (dryrun_answer env ro (vqYAMLContent req)) = Inr b"
  shows "right_entry env content prefix Q (DryRunKey prefix (vqPipelinePath req) (vqCommit req)) b"
  unfolding right_entry_def
proof (intro allI impI conjI)
  fix p c r
  assume c: "CHR '':'' \<notin> set (TrimSpace c)" and r: "veUnmarshalDryRun env b = Inr r"
    and key: "DryRunKey prefix (vqPipelinePath req) (vqCommit req) = DryRunKey prefix p c"
  have "r = dryrun_answer env ro (vqYAMLContent req)" using assms(1,4) r by (simp add: answer_travels_def)
  with buildKey_eq [OF key [unfolded DryRunKey_def] _ c] assms(2,3)
  show "\<exists>ro \<in> Q. r = dryrun_answer env ro (content (TrimSpace p) (TrimSpace c))" by (auto simp: commit_addressed_def)
qed (simp add: ValidateKey_neq_DryRunKey [THEN not_sym])

lemma compute_validate_answer:
  "compute_validate env ro svc key req s =
     (validate_answer env ro (vqYAMLContent req),
      case veMarshalValidate env (validate_answer env ro (vqYAMLContent req)) of
        Inl e \<Rightarrow> s | Inr b \<Rightarrow> snd (csSet (vsCacheStore svc) key b (ccValidateTTL (vsCacheCfg svc)) s))"
  by (simp add: compute_validate_def validate_answer_def Let_def split: sum.split)

lemma compute_dryrun_answer:
  "fst (compute_dryrun env ro svc key req s) = dryrun_answer env ro (vqYAMLContent req)"
  "snd (compute_dryrun env ro svc key req s) = s
   \<or> (\<exists>b. veMarshalDryRun env (dryrun_answer env ro (vqYAMLContent req)) = Inr b
        \<and> snd (compute_dryrun env ro svc key req s) = snd (csSet (vsCacheStore svc) key b (ccDryRunTTL (vsCacheCfg svc)) s))"
  by (auto simp: compute_dryrun_def dryrun_answer_def Let_def split: prod.split option.split list.split sum.split)

text \<open>One request on a coherent cache, proved once for every store that keeps the contract.\<close>

context cache_store
begin

lemma ValidateYAML_coherent:
  assumes "answer_travels env ro (vqYAMLContent req)" and "commit_addressed content req" and "csGet (vsCacheStore svc) = cget"
    and "csSet (vsCacheStore svc) = cset" and "coherent (right_entry env content (ccKeyPrefix (vsCacheCfg svc)) Q) s" and "ro \<in> Q"
  shows "(\<exists>ro' \<in> Q. fst (ValidateYAML env ro svc req s) = validate_answer env ro' (vqYAMLContent req))
    \<and> coherent (right_entry env content (ccKeyPrefix (vsCacheCfg svc)) Q) (snd (ValidateYAML env ro svc req s))"
proof -
  let ?P = "right_entry env content (ccKeyPrefix (vsCacheCfg svc)) Q"
  let ?key = "ValidateKey (ccKeyPrefix (vsCacheCfg svc)) (vqPipelinePath req) (vqCommit req)"
  obtain r s1 where get: "cget ?key s = (r, s1)" by fastforce
  have s1: "coherent ?P s1" by (rule coherent_get [OF assms(5) get])
  have compute: "coherent ?P (snd (compute_validate env ro svc ?key req s1))"
  proof (cases "veMarshalValidate env (validate_answer env ro (vqYAMLContent req))")
    case (Inr b)
    with coherent_set [OF s1 right_entry_validate [OF assms(1,2,6) Inr], of _ "fst (cset ?key b ttl s1)" "snd (cset ?key b ttl s1)" for ttl]
    show ?thesis by (simp add: compute_validate_answer assms(4))
  qed (simp add: compute_validate_answer s1)
  have hit: "\<exists>ro' \<in> Q. resp = validate_answer env ro' (vqYAMLContent req)" if "r = Inr v" "veUnmarshalValidate env v = Inr resp" for v resp
    using coherent_hit [OF assms(5) get [unfolded that(1)]] that(2) assms(2) by (auto simp: right_entry_def commit_addressed_def)
  show ?thesis
    using hit s1 compute get assms(6)
    by (auto simp: ValidateYAML_def assms(3) compute_validate_answer Let_def split: sum.split)
qed

lemma DryRunYAML_coherent:
  assumes "answer_travels env ro (vqYAMLContent req)" and "commit_addressed content req" and "csGet (vsCacheStore svc) = cget"
    and "csSet (vsCacheStore svc) = cset" and "coherent (right_entry env content (ccKeyPrefix (vsCacheCfg svc)) Q) s" and "ro \<in> Q"
  shows "(\<exists>ro' \<in> Q. fst (DryRunYAML env ro svc req s) = dryrun_answer env ro' (vqYAMLContent req))
    \<and> coherent (right_entry env content (ccKeyPrefix (vsCacheCfg svc)) Q) (snd (DryRunYAML env ro svc req s))"
proof -
  let ?P = "right_entry env content (ccKeyPrefix (vsCacheCfg svc)) Q"
  let ?key = "DryRunKey (ccKeyPrefix (vsCacheCfg svc)) (vqPipelinePath req) (vqCommit req)"
  obtain r s1 where get: "cget ?key s = (r, s1)" by fastforce
  have s1: "coherent ?P s1" by (rule coherent_get [OF assms(5) get])
  have compute: "coherent ?P (snd (compute_dryrun env ro svc ?key req s1))"
    using compute_dryrun_answer(2) [of env ro svc ?key req s1]
  proof (elim disjE exE conjE)
    fix b assume b: "veMarshalDryRun env (dryrun_answer env ro (vqYAMLContent req)) = Inr b"
      and snd: "snd (compute_dryrun env ro svc ?key req s1) = snd (csSet (vsCacheStore svc) ?key b (ccDryRunTTL (vsCacheCfg svc)) s1)"
    show ?thesis unfolding snd assms(4)
      by (rule coherent_set [OF s1 right_entry_dryrun [OF assms(1,2,6) b]]) (rule surjective_pairing)
  qed (simp add: s1)
  have hit: "\<exists>ro' \<in> Q. resp = dryrun_answer env ro' (vqYAMLContent req)" if "r = Inr v" "veUnmarshalDryRun env v = Inr resp" for v resp
    using coherent_hit [OF assms(5) get [unfolded that(1)]] that(2) assms(2) by (auto simp: right_entry_def commit_addressed_def)
  show ?thesis
    using hit s1 compute get assms(6)
    by (auto simp: DryRunYAML_def assms(3) compute_dryrun_answer(1) Let_def split: sum.split)
qed

end

section \<open>Sequences of requests\<close>

text \<open>A call comes with the orders its maps are ranged over in.\<close>

datatype vcall = CallValidate rangeOrders ValidateRequest | CallDryRun rangeOrders ValidateRequest

datatype vreply = ReplyValidate ValidateResponse | ReplyDryRun DryRunResponse

fun call_request :: "vcall \<Rightarrow> ValidateRequest" where
  "call_request (CallValidate ro req) = req"
| "call_request (CallDryRun ro req) = req"

fun call_orders :: "vcall \<Rightarrow> rangeOrders" where
  "call_orders (CallValidate ro req) = ro"
| "call_orders (CallDryRun ro req) = ro"

text \<open>The answer to a call when its maps are ranged over in the orders \<open>ro\<close>.\<close>

fun call_answer :: "validationEnv \<Rightarrow> rangeOrders \<Rightarrow> vcall \<Rightarrow> vreply" where
  "call_answer env ro (CallValidate _ req) = ReplyValidate (validate_answer env ro (vqYAMLContent req))"
| "call_answer env ro (CallDryRun _ req) = ReplyDryRun (dryrun_answer env ro (vqYAMLContent req))"

fun serve_call :: "validationEnv \<Rightarrow> 's validationService \<Rightarrow> vcall \<Rightarrow> 's \<Rightarrow> vreply \<times> 's" where
  "serve_call env svc (CallValidate ro req) s = map_prod ReplyValidate id (ValidateYAML env ro svc req s)"
| "serve_call env svc (CallDryRun ro req) s = map_prod ReplyDryRun id (DryRunYAML env ro svc req s)"

fun serve_calls :: "validationEnv \<Rightarrow> 's validationService \<Rightarrow> vcall list \<Rightarrow> 's \<Rightarrow> vreply list \<times> 's" where
  "serve_calls env svc [] s = ([], s)"
| "serve_calls env svc (call # calls) s =
     (let (reply, s1) = serve_call env svc call s; (replies, s2) = serve_calls env svc calls s1
      in (reply # replies, s2))"

lemma length_serve_calls [simp]: "length (fst (serve_calls env svc calls s)) = length calls"
  by (induction calls arbitrary: s) (simp_all add: split_beta Let_def)

text \<open>A call whose content is that of its path at its commit, and whose answer JSON can carry.\<close>

definition cacheable :: "validationEnv \<Rightarrow> (string \<Rightarrow> string \<Rightarrow> string) \<Rightarrow> vcall \<Rightarrow> bool" where
  "cacheable env content call \<longleftrightarrow>
     commit_addressed content (call_request call) \<and> answer_travels env (call_orders call) (vqYAMLContent (call_request call))"

context cache_store
begin

lemma serve_call_coherent:
  assumes "cacheable env content call" and "csGet (vsCacheStore svc) = cget" and "csSet (vsCacheStore svc) = cset"
    and "coherent (right_entry env content (ccKeyPrefix (vsCacheCfg svc)) Q) s"
  shows "(\<exists>ro \<in> insert (call_orders call) Q. fst (serve_call env svc call s) = call_answer env ro call)
    \<and> coherent (right_entry env content (ccKeyPrefix (vsCacheCfg svc)) (insert (call_orders call) Q)) (snd (serve_call env svc call s))"
proof -
  have more: "coherent (right_entry env content (ccKeyPrefix (vsCacheCfg svc)) (insert (call_orders call) Q)) s"
    using assms(4) right_entry_more [OF _ subset_insertI] unfolding coherent_def by blast
  show ?thesis
  proof (cases call)
    case (CallValidate ro req)
    then have "answer_travels env ro (vqYAMLContent req)" "commit_addressed content req" using assms(1) by (simp_all add: cacheable_def)
    from ValidateYAML_coherent [OF this assms(2,3) more] CallValidate show ?thesis by auto
  next
    case (CallDryRun ro req)
    then have "answer_travels env ro (vqYAMLContent req)" "commit_addressed content req" using assms(1) by (simp_all add: cacheable_def)
    from DryRunYAML_coherent [OF this assms(2,3) more] CallDryRun show ?thesis by auto
  qed
qed

lemma serve_calls_coherent:
  assumes "\<forall>call \<in> set calls. cacheable env content call"
    and "csGet (vsCacheStore svc) = cget" and "csSet (vsCacheStore svc) = cset"
    and "coherent (right_entry env content (ccKeyPrefix (vsCacheCfg svc)) Q) s" and "i < length calls"
  shows "\<exists>ro \<in> call_orders ` set (take (Suc i) calls) \<union> Q. fst (serve_calls env svc calls s) ! i = call_answer env ro (calls ! i)"
  using assms(1,4,5)
proof (induction calls arbitrary: s Q i)
  case (Cons call calls)
  have "cacheable env content call" using Cons.prems(1) by simp
  note here = serve_call_coherent [OF this assms(2,3) Cons.prems(2)]
  show ?case
  proof (cases i)
    case 0
    then show ?thesis using here by (auto simp: split_beta Let_def)
  next
    case (Suc k)
    have "\<forall>call \<in> set calls. cacheable env content call" "k < length calls" using Cons.prems(1,3) Suc by simp_all
    from Cons.IH [OF this(1) _ this(2), of "insert (call_orders call) Q" "snd (serve_call env svc call s)"] here
    show ?thesis by (auto simp: Suc split_beta Let_def)
  qed
qed simp

lemma coherent_empty: "(\<And>k. stored s k = None) \<Longrightarrow> coherent P s"
  by (simp add: coherent_def)

end

text \<open>C13. Cached answers are computed answers: when path and commit determine the content of a request, every answer
  of any sequence of validations and dry runs on an initially empty cache is one that is
  computed without a cache for this request, with the map iteration orders of this call or of an earlier one,
  whatever entries expire and whatever calls of the store fail. (An answer can depend on these orders: two independent jobs of a stage
  may be planned in either order, and a cached dry run keeps the one of the call that computed it.)\<close>

theorem cached_answers:
  assumes "cache_store (csGet (vsCacheStore svc)) (csSet (vsCacheStore svc)) stored"
    and "\<forall>call \<in> set calls. cacheable env content call" and "\<forall>k. stored s k = None"
  shows "length (fst (serve_calls env svc calls s)) = length calls
    \<and> (\<forall>i < length calls. \<exists>j \<le> i. fst (serve_calls env svc calls s) ! i = call_answer env (call_orders (calls ! j)) (calls ! i))"
proof (intro conjI allI impI)
  fix i assume i: "i < length calls"
  from cache_store.serve_calls_coherent [OF assms(1,2) refl refl cache_store.coherent_empty [OF assms(1), of s] i, where Q = "{}"] assms(3)
  obtain call where "call \<in> set (take (Suc i) calls)" "fst (serve_calls env svc calls s) ! i = call_answer env (call_orders call) (calls ! i)"
    by auto
  moreover from this(1) obtain j where "j \<le> i" "call = calls ! j" by (auto simp: in_set_conv_nth less_Suc_eq_le)
  ultimately show "\<exists>j \<le> i. fst (serve_calls env svc calls s) ! i = call_answer env (call_orders (calls ! j)) (calls ! i)" by blast
qed simp

lemma validate_answer_valid:
  assumes "range_order (roVerify ro)"
  shows "vrValid (validate_answer env ro yaml) \<longleftrightarrow>
    (\<exists>p root. Parse (veUnmarshalYAML env) (veReadFile env) (NewParserFromContent yaml) = Inr (p, root)
       \<and> typed_document root \<and> wf_pipeline p)"
  using Verify_Nil [OF assms]
  by (auto simp: validate_answer_def validatePipelineContent_def NewPipelineVerifier_def Let_def split: sum.splits prod.splits if_splits)

text \<open>C29. A verdict means what it says: after any such sequence of requests, with any map iteration orders, the service answers valid
  exactly when the content parses to a well-typed document with a well-formed pipeline. (A well-typed document has to have
  a name in its \<open>pipeline\<close> section and may leave out image and script of a job, against the table in README.md.)\<close>

theorem validation_verdict:
  assumes "cache_store (csGet (vsCacheStore svc)) (csSet (vsCacheStore svc)) stored"
    and "\<forall>call \<in> set calls. cacheable env content call \<and> range_order (roVerify (call_orders call))" and "\<forall>k. stored s k = None"
    and "i < length calls" and "calls ! i = CallValidate ro req"
  shows "\<exists>r. fst (serve_calls env svc calls s) ! i = ReplyValidate r
    \<and> (vrValid r \<longleftrightarrow> (\<exists>p root. Parse (veUnmarshalYAML env) (veReadFile env) (NewParserFromContent (vqYAMLContent req)) = Inr (p, root)
          \<and> typed_document root \<and> wf_pipeline p))"
proof -
  have "\<forall>call \<in> set calls. cacheable env content call" using assms(2) by blast
  from cache_store.serve_calls_coherent [OF assms(1) this refl refl cache_store.coherent_empty [OF assms(1), of s] assms(4), where Q = "{}"] assms(3)
  obtain call where "call \<in> set (take (Suc i) calls)" "fst (serve_calls env svc calls s) ! i = call_answer env (call_orders call) (calls ! i)"
    by auto
  moreover from this(1) have "range_order (roVerify (call_orders call))" using assms(2) by (meson in_set_takeD)
  ultimately show ?thesis using validate_answer_valid assms(5) by auto
qed

section \<open>Requests without path and commit\<close>

lemma redis_get_after_set:
  assumes "rsFaults s = []" and "0 < ttl"
  shows "redis_get k (snd (redis_set k v ttl s)) = (Inr v, snd (redis_set k v ttl s))"
  using assms by (simp add: redis_get_def redis_set_def redis_call_def)

text \<open>One verdict for one key: on a healthy cache a request is answered with the response of the
  request before it whenever both have the same path and commit, whatever their contents. Requests
  that leave both empty, as the orchestrator's do, therefore share one verdict.\<close>

theorem shared_verdict:
  assumes "vsCacheStore svc = RedisStore (Some memory_client)" and "rsFaults s = []" and "0 < ccValidateTTL (vsCacheCfg svc)"
    and "answer_travels env ro (vqYAMLContent req1)" and "veMarshalValidate env (validate_answer env ro (vqYAMLContent req1)) = Inr b"
    and "TrimSpace (vqPipelinePath req1) = TrimSpace (vqPipelinePath req2)" and "TrimSpace (vqCommit req1) = TrimSpace (vqCommit req2)"
  shows "fst (ValidateYAML env ro' svc req2 (snd (ValidateYAML env ro svc req1 s))) = fst (ValidateYAML env ro svc req1 s)"
proof -
  let ?key = "ValidateKey (ccKeyPrefix (vsCacheCfg svc)) (vqPipelinePath req1) (vqCommit req1)"
  have key: "ValidateKey (ccKeyPrefix (vsCacheCfg svc)) (vqPipelinePath req2) (vqCommit req2) = ?key"
    using assms(6,7) by (simp add: ValidateKey_def buildKey_def)
  have get: "csGet (vsCacheStore svc) k s' = wrap_err (\<lambda>e. if errors_Is e RedisNil then cache_miss else e) (redis_get k) s'" for k s'
    by (simp add: assms(1) RedisStore_def RedisStore_Get_def memory_client_def)
  have set: "csSet (vsCacheStore svc) = redis_set"
    by (simp add: assms(1) RedisStore_def RedisStore_Set_def memory_client_def fun_eq_iff)
  have decoded: "veUnmarshalValidate env b = Inr (validate_answer env ro (vqYAMLContent req1))" using assms(4,5) by (simp add: answer_travels_def)
  have same: "snd (redis_get k s) = s" for k
    using assms(2) by (simp add: redis_get_def redis_call_def split: option.split)
  have hit: "fst (ValidateYAML env ro' svc req2 (snd (redis_set ?key b (ccValidateTTL (vsCacheCfg svc)) s))) = validate_answer env ro (vqYAMLContent req1)"
    using redis_get_after_set [OF assms(2,3), of ?key b] decoded
    by (simp add: ValidateYAML_def key get wrap_err_def Let_def)
  show ?thesis
  proof (cases "\<exists>v resp. redis_get ?key s = (Inr v, s) \<and> veUnmarshalValidate env v = Inr resp")
    case True
    then show ?thesis by (auto simp: ValidateYAML_def key get wrap_err_def Let_def)
  next
    case False
    then have "ValidateYAML env ro svc req1 s = compute_validate env ro svc ?key req1 s"
      using same [of ?key] by (cases "redis_get ?key s") (auto simp: ValidateYAML_def get wrap_err_def Let_def split: sum.split)
    then show ?thesis using hit by (simp add: compute_validate_answer assms(5) set)
  qed
qed

section \<open>The claims on a concrete service\<close>

definition demo_valid :: ValidateResponse where
  "demo_valid = \<lparr>vrValid = True, vrErrors = []\<rparr>"

text \<open>The YAML text \<open>demo\<close> stands for the demonstration pipeline, any other text for an empty file; only
  the positive verdict is encodable.\<close>

definition demo_venv :: validationEnv where
  "demo_venv =
     \<lparr>veUnmarshalYAML = (\<lambda>y. if y = ''demo'' then Inr (pipeline_document demo_pipeline) else Inr ZeroNode),
      veReadFile = (\<lambda>_. Inl (Errorf ''no such file'')),
      veMarshalValidate = (\<lambda>r. if r = demo_valid then Inr ''valid'' else Inl (Errorf ''unsupported'')),
      veUnmarshalValidate = (\<lambda>b. if b = ''valid'' then Inr demo_valid else Inl (Errorf ''syntax'')),
      veMarshalDryRun = (\<lambda>_. Inl (Errorf ''unsupported'')), veUnmarshalDryRun = (\<lambda>_. Inl (Errorf ''syntax'')),
      veUnmarshalRequest = (\<lambda>_. Inl (Errorf ''syntax'')), veEncode = (\<lambda>_. Inr ''json'')\<rparr>"

definition demo_vservice :: "redis_server validationService" where
  "demo_vservice = \<lparr>vsCacheStore = RedisStore (Some memory_client), vsCacheCfg = LoadConfig (\<lambda>_. '''') (\<lambda>_. Inr 1)\<rparr>"

definition demo_redis :: redis_server where
  "demo_redis = \<lparr>rsEntries = [], rsNow = 0, rsFaults = [None, None, Some (Errorf ''i/o timeout'')]\<rparr>"

definition demo_vrequest :: ValidateRequest where
  "demo_vrequest = \<lparr>vqYAMLContent = ''demo'', vqCommit = ''abc'', vqPipelinePath = ''ci.yaml''\<rparr>"

definition demo_orders :: rangeOrders where
  "demo_orders = \<lparr>roVerify = id, roPlan = id\<rparr>"

definition demo_other_orders :: rangeOrders where
  "demo_other_orders = \<lparr>roVerify = rev, roPlan = rev\<rparr>"

lemma demo_codec: "answer_travels demo_venv ro yaml"
  by (simp add: answer_travels_def demo_venv_def)

lemma demo_cache:
  "cache_store (csGet (vsCacheStore demo_vservice)) (csSet (vsCacheStore demo_vservice)) redis_stored"
  unfolding demo_vservice_def by (simp add: memory.redis_store.cache_store_axioms)

lemma demo_addressed: "commit_addressed (\<lambda>_ _. ''demo'') demo_vrequest"
  by code_simp

lemma demo_cacheable:
  "\<forall>call \<in> set [CallValidate demo_orders demo_vrequest, CallValidate demo_other_orders demo_vrequest].
     cacheable demo_venv (\<lambda>_ _. ''demo'') call \<and> range_order (roVerify (call_orders call))"
  using range_order_rev by (simp add: cacheable_def demo_addressed demo_codec demo_orders_def demo_other_orders_def) (simp add: range_order_def)

lemma cached_answers_witness:
  "fst (serve_calls demo_venv demo_vservice [CallValidate demo_orders demo_vrequest, CallValidate demo_other_orders demo_vrequest] demo_redis)
    = [ReplyValidate demo_valid, ReplyValidate demo_valid]"
proof -
  let ?calls = "[CallValidate demo_orders demo_vrequest, CallValidate demo_other_orders demo_vrequest]"
  have answers: "call_answer demo_venv demo_orders (CallValidate demo_orders demo_vrequest) = ReplyValidate demo_valid"
    "call_answer demo_venv demo_other_orders (CallValidate demo_other_orders demo_vrequest) = ReplyValidate demo_valid" by code_simp+
  have c: "\<forall>call \<in> set ?calls. cacheable demo_venv (\<lambda>_ _. ''demo'') call" using demo_cacheable by blast
  have "\<forall>k. redis_stored demo_redis k = None" by (simp add: redis_stored_def demo_redis_def)
  note ans = cached_answers [OF demo_cache c this]
  have "fst (serve_calls demo_venv demo_vservice ?calls demo_redis) ! 0 = ReplyValidate demo_valid"
    using conjunct2 [OF ans, rule_format, of 0] answers(1) by simp
  moreover have "fst (serve_calls demo_venv demo_vservice ?calls demo_redis) ! 1 = ReplyValidate demo_valid"
    using conjunct2 [OF ans, rule_format, of 1] answers by (auto simp: le_Suc_eq)
  moreover obtain x y where "fst (serve_calls demo_venv demo_vservice ?calls demo_redis) = [x, y]"
    using conjunct1 [OF ans] by (metis length_0_conv length_Suc_conv length_Cons list.size(3))
  ultimately show ?thesis by simp
qed

lemma validation_verdict_witness:
  "\<exists>r. fst (serve_calls demo_venv demo_vservice [CallValidate demo_orders demo_vrequest, CallValidate demo_other_orders demo_vrequest] demo_redis) ! 1
     = ReplyValidate r \<and> vrValid r"
proof -
  have "vrValid (validate_answer demo_venv demo_orders (vqYAMLContent demo_vrequest))" by code_simp
  moreover have "range_order (roVerify demo_orders)" by (simp add: demo_orders_def range_order_def)
  moreover have "\<forall>k. redis_stored demo_redis k = None" by (simp add: redis_stored_def demo_redis_def)
  ultimately show ?thesis
    using validation_verdict [OF demo_cache demo_cacheable, of demo_redis 1 demo_other_orders demo_vrequest]
      validate_answer_valid [of demo_orders demo_venv "vqYAMLContent demo_vrequest"]
    by (auto simp del: serve_calls.simps)
qed

lemma shared_verdict_witness:
  "let req1 = \<lparr>vqYAMLContent = ''demo'', vqCommit = '''', vqPipelinePath = ''''\<rparr>; req2 = req1\<lparr>vqYAMLContent := ''broken''\<rparr>;
       s = demo_redis\<lparr>rsFaults := []\<rparr>
   in \<not> vrValid (validate_answer demo_venv demo_orders ''broken'')
      \<and> vrValid (fst (ValidateYAML demo_venv demo_orders demo_vservice req2 (snd (ValidateYAML demo_venv demo_orders demo_vservice req1 s))))"
proof -
  let ?req1 = "\<lparr>vqYAMLContent = ''demo'', vqCommit = '''', vqPipelinePath = ''''\<rparr>"
  have "\<not> vrValid (validate_answer demo_venv demo_orders ''broken'')" "0 < ccValidateTTL (vsCacheCfg demo_vservice)"
    "veMarshalValidate demo_venv (validate_answer demo_venv demo_orders (vqYAMLContent ?req1)) = Inr ''valid''"
    "vrValid (fst (ValidateYAML demo_venv demo_orders demo_vservice ?req1 (demo_redis\<lparr>rsFaults := []\<rparr>)))" by code_simp+
  then show ?thesis
    using shared_verdict [of demo_vservice "demo_redis\<lparr>rsFaults := []\<rparr>" demo_venv demo_orders ?req1 "''valid''" "?req1\<lparr>vqYAMLContent := ''broken''\<rparr>"]
      demo_codec
    by (simp add: demo_vservice_def Let_def)
qed

end
