(* ===== verification/Store.thy ===== *)
theory Store
  imports Models "HOL-Library.List_Lexorder" "HOL-Library.Char_ord"
begin

text \<open>
  \<open>internal/store\<close> with the schema of \<open>migrations/\<close>: the report database. The tables are lists of
  rows; every SQL statement of the Go code is a definition on them, with the unique keys and the
  \<open>NOT NULL\<close> and \<open>INT\<close> constraints of the schema. Three things the Go code does not fix are
  parameters: \<open>coll\<close> maps a string to its collation key (the schema collates with
  \<open>utf8mb4_unicode_ci\<close>, so two strings are equal in SQL when their keys are), \<open>faults\<close> of the database
  says which statements fail and whether the server had applied them, and \<open>between\<close> of
  \<open>CreateRunOrGetActive\<close> is what other transactions commit while it runs. The theory shows that run
  numbers are unique and increasing, that a request has at most one active run, and what is read
  after a write, under every schedule of faults.
\<close>

section \<open>Rows and tables\<close>

definition StatusQueued :: string where "StatusQueued = ''queued''"
definition StatusRunning :: string where "StatusRunning = ''running''"
definition StatusSuccess :: string where "StatusSuccess = ''success''"
definition StatusFailed :: string where "StatusFailed = ''failed''"

lemmas status_defs = StatusQueued_def StatusRunning_def StatusSuccess_def StatusFailed_def

record Run =
  runPipeline :: string
  runRunNo :: int
  runStartTime :: int
  runEndTime :: "int option"
  runStatus :: string
  runGitHash :: string
  runGitBranch :: string
  runGitRepo :: string
  runTraceID :: string
  runRequestKey :: string

record StageRun =
  srPipeline :: string
  srRunNo :: int
  srStage :: string
  srStartTime :: int
  srEndTime :: "int option"
  srStatus :: string

record JobRun =
  jrPipeline :: string
  jrRunNo :: int
  jrStage :: string
  jrJob :: string
  jrStartTime :: int
  jrEndTime :: "int option"
  jrStatus :: string
  jrFailures :: bool

record CreateRunInput =
  criPipeline :: string
  criStartTime :: int
  criStatus :: string
  criGitHash :: string
  criGitBranch :: string
  criGitRepo :: string
  criTraceID :: string
  criRequestKey :: string

record UpdateInput =
  updEndTime :: "int option"
  updStatus :: string

record CreateRunResult =
  crrRunNo :: int
  crrDeduped :: bool
  crrExistingStatus :: string

text \<open>A row of \<open>pipeline_runs\<close>: nullable columns are options.\<close>

record run_row =
  rowPipeline :: string
  rowRunNo :: int
  rowStartTime :: int
  rowEndTime :: "int option"
  rowStatus :: string
  rowGitHash :: "string option"
  rowGitBranch :: "string option"
  rowGitRepo :: "string option"
  rowTraceID :: string
  rowRequestKey :: "string option"

text \<open>A fault of a statement: its error, and whether the server had applied the statement.\<close>

record db =
  sequences :: "(string \<times> int) list"
  pipeline_runs :: "run_row list"
  stage_runs :: "StageRun list"
  job_runs :: "JobRun list"
  last_insert_id :: int
  faults :: "(goerr \<times> bool) option list"

definition empty_db :: db where
  "empty_db = \<lparr>sequences = [], pipeline_runs = [], stage_runs = [], job_runs = [], last_insert_id = 0,
     faults = []\<rparr>"

type_synonym 'a stmt = "(db, 'a) op"

definition mysql_error :: "nat \<Rightarrow> goerr" where
  "mysql_error n = \<lparr>Error = ''Error '' @ decimal n, chain = [MySQLError n]\<rparr>"

text \<open>Executing a statement: the next fault decides whether it fails.\<close>

definition exec :: "'a stmt \<Rightarrow> 'a stmt" where
  "exec stmt db =
     (case faults db of
        [] \<Rightarrow> stmt db
      | None # fs \<Rightarrow> stmt (db\<lparr>faults := fs\<rparr>)
      | Some (e, applied) # fs \<Rightarrow>
          (Inl e, if applied then snd (stmt (db\<lparr>faults := fs\<rparr>)) else db\<lparr>faults := fs\<rparr>))"

section \<open>SQL\<close>

definition NULLIF :: "(string \<Rightarrow> string) \<Rightarrow> string \<Rightarrow> string option" where
  "NULLIF coll s = (if coll s = coll '''' then None else Some s)"

definition COALESCE :: "string option \<Rightarrow> string" where
  "COALESCE s = (case s of None \<Rightarrow> '''' | Some x \<Rightarrow> x)"

text \<open>\<open>status IN ('queued', 'running')\<close>, and the generated column \<open>active_request_key\<close>.\<close>

definition active :: "(string \<Rightarrow> string) \<Rightarrow> run_row \<Rightarrow> bool" where
  "active coll r \<longleftrightarrow> coll (rowStatus r) = coll StatusQueued \<or> coll (rowStatus r) = coll StatusRunning"

definition active_request_key :: "(string \<Rightarrow> string) \<Rightarrow> run_row \<Rightarrow> string option" where
  "active_request_key coll r = (if active coll r then rowRequestKey r else None)"

text \<open>The unique keys. A null never collides.\<close>

definition active_keys :: "(string \<Rightarrow> string) \<Rightarrow> run_row list \<Rightarrow> (string \<times> string) list" where
  "active_keys coll rows =
     map (\<lambda>r. (coll (rowPipeline r), coll (COALESCE (active_request_key coll r))))
       (filter (\<lambda>r. active_request_key coll r \<noteq> None) rows)"

definition uq_pipeline_runs :: "(string \<Rightarrow> string) \<Rightarrow> run_row list \<Rightarrow> bool" where
  "uq_pipeline_runs coll rows \<longleftrightarrow>
     distinct (map (\<lambda>r. (coll (rowPipeline r), rowRunNo r)) rows) \<and> distinct (active_keys coll rows)"

definition uq_stage_runs :: "(string \<Rightarrow> string) \<Rightarrow> StageRun list \<Rightarrow> bool" where
  "uq_stage_runs coll rows \<longleftrightarrow>
     distinct (map (\<lambda>r. (coll (srPipeline r), srRunNo r, coll (srStage r))) rows)"

definition uq_job_runs :: "(string \<Rightarrow> string) \<Rightarrow> JobRun list \<Rightarrow> bool" where
  "uq_job_runs coll rows \<longleftrightarrow>
     distinct (map (\<lambda>r. (coll (jrPipeline r), jrRunNo r, coll (jrStage r), coll (jrJob r))) rows)"

text \<open>\<open>INSERT INTO pipeline_sequences ... ON DUPLICATE KEY UPDATE\<close>: the stored counter and
  \<open>LAST_INSERT_ID\<close> become 2 for a new pipeline and one more than before otherwise; a counter beyond
  \<open>INT\<close> is error 1264.\<close>

definition INT_MAX :: int where "INT_MAX = 2147483647"

definition bump_counter :: "(string \<Rightarrow> string) \<Rightarrow> string \<Rightarrow> (string \<times> int) list \<Rightarrow> (string \<times> int) list" where
  "bump_counter coll pipeline seqs =
     map (\<lambda>(p, n). if coll p = coll pipeline then (p, n + 1) else (p, n)) seqs"

definition sql_next_run_no :: "(string \<Rightarrow> string) \<Rightarrow> string \<Rightarrow> unit stmt" where
  "sql_next_run_no coll pipeline db =
     (case find (\<lambda>(p, n). coll p = coll pipeline) (sequences db) of
        None \<Rightarrow> (Inr (), db\<lparr>sequences := sequences db @ [(pipeline, 2)], last_insert_id := 2\<rparr>)
      | Some (p0, n0) \<Rightarrow>
          if INT_MAX < n0 + 1 then (Inl (mysql_error 1264), db)
          else (Inr (), db\<lparr>sequences := bump_counter coll pipeline (sequences db),
                           last_insert_id := n0 + 1\<rparr>))"

definition sql_last_insert_id :: "int stmt" where
  "sql_last_insert_id db = (Inr (last_insert_id db), db)"

text \<open>\<open>INSERT INTO pipeline_runs\<close>: \<open>trace_id\<close> is declared \<open>NOT NULL\<close>, so a null there is error 1048.\<close>

definition new_run_row :: "(string \<Rightarrow> string) \<Rightarrow> CreateRunInput \<Rightarrow> int \<Rightarrow> run_row" where
  "new_run_row coll inp runNo =
     \<lparr>rowPipeline = criPipeline inp, rowRunNo = runNo, rowStartTime = criStartTime inp,
      rowEndTime = None, rowStatus = criStatus inp,
      rowGitHash = NULLIF coll (criGitHash inp), rowGitBranch = NULLIF coll (criGitBranch inp),
      rowGitRepo = NULLIF coll (criGitRepo inp), rowTraceID = criTraceID inp,
      rowRequestKey = NULLIF coll (criRequestKey inp)\<rparr>"

definition sql_insert_run :: "(string \<Rightarrow> string) \<Rightarrow> CreateRunInput \<Rightarrow> int \<Rightarrow> unit stmt" where
  "sql_insert_run coll inp runNo db =
     (let rows = pipeline_runs db @ [new_run_row coll inp runNo] in
      if NULLIF coll (criTraceID inp) = None then (Inl (mysql_error 1048), db)
      else if uq_pipeline_runs coll rows then (Inr (), db\<lparr>pipeline_runs := rows\<rparr>)
      else (Inl (mysql_error 1062), db))"

text \<open>The \<open>SELECT run_no, status\<close> for an equivalent request in flight, oldest first.\<close>

definition sql_select_active :: "(string \<Rightarrow> string) \<Rightarrow> string \<Rightarrow> string \<Rightarrow> run_row list \<Rightarrow> goerr + int \<times> string" where
  "sql_select_active coll pipeline requestKey rows =
     (case sort_key rowRunNo (filter (\<lambda>r. coll (rowPipeline r) = coll pipeline
             \<and> (case rowRequestKey r of None \<Rightarrow> False | Some k \<Rightarrow> coll k = coll requestKey)
             \<and> active coll r) rows) of
        [] \<Rightarrow> Inl \<lparr>Error = ''sql: no rows in result set'', chain = [ErrNoRows]\<rparr>
      | r # _ \<Rightarrow> Inr (rowRunNo r, rowStatus r))"

section \<open>Creating a run\<close>

definition isDuplicateKeyError :: "goerr \<Rightarrow> bool" where
  "isDuplicateKeyError err \<longleftrightarrow>
     (case find (\<lambda>s. case s of MySQLError n \<Rightarrow> True | _ \<Rightarrow> False) (chain err) of
        Some (MySQLError n) \<Rightarrow> n = 1062
      | _ \<Rightarrow> False)"

definition createRunTx :: "(string \<Rightarrow> string) \<Rightarrow> CreateRunInput \<Rightarrow> int stmt" where
  "createRunTx coll inp =
     andthen (exec (sql_next_run_no coll (criPipeline inp))) (\<lambda>_.
     andthen (exec sql_last_insert_id) (\<lambda>nextRunNo.
       if nextRunNo \<le> 1
       then fail (Errorf (''failed to allocate run_no for pipeline '' @ quoted (criPipeline inp)))
       else andthen (exec (sql_insert_run coll inp (nextRunNo - 1))) (\<lambda>_. ret (nextRunNo - 1))))"

text \<open>A transaction on the committed database: \<open>Rollback\<close> on an error gives back the committed tables,
  \<open>Commit\<close> publishes those of the transaction. A commit can fail before or after the server applied
  it.\<close>

definition sql_rollback :: "db \<Rightarrow> db \<Rightarrow> db" where
  "sql_rollback committed tx = committed\<lparr>faults := faults tx, last_insert_id := last_insert_id tx\<rparr>"

definition sql_commit :: "db \<Rightarrow> 'a \<Rightarrow> 'a stmt" where
  "sql_commit committed result tx =
     (case faults tx of
        Some (e, False) # fs \<Rightarrow> (Inl e, sql_rollback committed (tx\<lparr>faults := fs\<rparr>))
      | Some (e, True) # fs \<Rightarrow> (Inl e, tx\<lparr>faults := fs\<rparr>)
      | None # fs \<Rightarrow> (Inr result, tx\<lparr>faults := fs\<rparr>)
      | [] \<Rightarrow> (Inr result, tx))"

definition transaction :: "'a stmt \<Rightarrow> 'a stmt" where
  "transaction body committed =
     (case body committed of
        (Inl e, tx) \<Rightarrow> (Inl e, sql_rollback committed tx)
      | (Inr result, tx) \<Rightarrow> sql_commit committed result tx)"

definition sql_begin :: "unit stmt" where
  "sql_begin = ret ()"

definition CreateRun :: "(string \<Rightarrow> string) \<Rightarrow> CreateRunInput \<Rightarrow> int stmt" where
  "CreateRun coll inp = andthen (exec sql_begin) (\<lambda>_. transaction (createRunTx coll inp))"

text \<open>The server's isolation level (\<open>BeginTx\<close> leaves the default): under \<open>REPEATABLE READ\<close> a plain
  \<open>SELECT\<close> reads the snapshot of the transaction's first read, under \<open>READ COMMITTED\<close> the
  committed rows.\<close>

datatype isolation = RepeatableRead | ReadCommitted

definition read_view :: "isolation \<Rightarrow> db \<Rightarrow> db \<Rightarrow> run_row list" where
  "read_view level snapshot tx =
     (case level of RepeatableRead \<Rightarrow> pipeline_runs snapshot | ReadCommitted \<Rightarrow> pipeline_runs tx)"

definition deduped_result :: "int \<times> string \<Rightarrow> CreateRunResult" where
  "deduped_result found = \<lparr>crrRunNo = fst found, crrDeduped = True, crrExistingStatus = snd found\<rparr>"

text \<open>The second half of \<open>CreateRunOrGetActive\<close>: insert, and on a duplicate key look again.\<close>

definition create_or_reselect ::
  "(string \<Rightarrow> string) \<Rightarrow> isolation \<Rightarrow> CreateRunInput \<Rightarrow> db \<Rightarrow> CreateRunResult stmt" where
  "create_or_reselect coll level inp snapshot db =
     (case createRunTx coll inp db of
        (Inl e, tx) \<Rightarrow>
          if criRequestKey inp \<noteq> '''' \<and> isDuplicateKeyError e then
            andthen (exec (\<lambda>d. (sql_select_active coll (criPipeline inp) (criRequestKey inp)
                                (read_view level snapshot d), d))) (\<lambda>found. ret (deduped_result found)) tx
          else (Inl e, tx)
      | (Inr runNo, tx) \<Rightarrow>
          (Inr \<lparr>crrRunNo = runNo, crrDeduped = False, crrExistingStatus = criStatus inp\<rparr>, tx))"

definition CreateRunOrGetActive ::
  "(string \<Rightarrow> string) \<Rightarrow> isolation \<Rightarrow> (db \<Rightarrow> db) \<Rightarrow> CreateRunInput \<Rightarrow> CreateRunResult stmt" where
  "CreateRunOrGetActive coll level between inp =
     andthen (exec sql_begin) (\<lambda>_ db.
       let create = (\<lambda>snapshot. transaction (create_or_reselect coll level inp snapshot)
                       ((between snapshot)\<lparr>faults := faults snapshot\<rparr>))
       in if criRequestKey inp = '''' then create db
          else
            (case exec (\<lambda>d. (sql_select_active coll (criPipeline inp) (criRequestKey inp) (pipeline_runs d), d)) db of
               (Inr found, db1) \<Rightarrow> sql_commit db1 (deduped_result found) db1
             | (Inl e, db1) \<Rightarrow> if errors_Is e ErrNoRows then create db1 else (Inl e, db1)))"

section \<open>Updates, stages and jobs\<close>

definition sql_update_run ::
  "(string \<Rightarrow> string) \<Rightarrow> string \<Rightarrow> int \<Rightarrow> (run_row \<Rightarrow> run_row) \<Rightarrow> unit stmt" where
  "sql_update_run coll pipeline runNo change db =
     (let rows = map (\<lambda>r. if coll (rowPipeline r) = coll pipeline \<and> rowRunNo r = runNo then change r else r)
                   (pipeline_runs db)
      in if uq_pipeline_runs coll rows then (Inr (), db\<lparr>pipeline_runs := rows\<rparr>)
         else (Inl (mysql_error 1062), db))"

definition UpdateRun :: "(string \<Rightarrow> string) \<Rightarrow> string \<Rightarrow> int \<Rightarrow> UpdateInput \<Rightarrow> unit stmt" where
  "UpdateRun coll pipeline runNo inp =
     (case updEndTime inp of
        Some t \<Rightarrow> exec (sql_update_run coll pipeline runNo
                        (\<lambda>r. r\<lparr>rowEndTime := Some t, rowStatus := updStatus inp\<rparr>))
      | None \<Rightarrow> exec (sql_update_run coll pipeline runNo (\<lambda>r. r\<lparr>rowStatus := updStatus inp\<rparr>)))"

definition sql_insert_stage :: "(string \<Rightarrow> string) \<Rightarrow> StageRun \<Rightarrow> unit stmt" where
  "sql_insert_stage coll row db =
     (if uq_stage_runs coll (stage_runs db @ [row]) then (Inr (), db\<lparr>stage_runs := stage_runs db @ [row]\<rparr>)
      else (Inl (mysql_error 1062), db))"

definition CreateStage :: "(string \<Rightarrow> string) \<Rightarrow> string \<Rightarrow> int \<Rightarrow> string \<Rightarrow> int \<Rightarrow> string \<Rightarrow> unit stmt" where
  "CreateStage coll pipeline runNo stage startTime status =
     exec (sql_insert_stage coll
       \<lparr>srPipeline = pipeline, srRunNo = runNo, srStage = stage, srStartTime = startTime, srEndTime = None,
        srStatus = status\<rparr>)"

definition sql_update_stage ::
  "(string \<Rightarrow> string) \<Rightarrow> string \<Rightarrow> int \<Rightarrow> string \<Rightarrow> (StageRun \<Rightarrow> StageRun) \<Rightarrow> unit stmt" where
  "sql_update_stage coll pipeline runNo stage change db =
     (Inr (), db\<lparr>stage_runs := map (\<lambda>r. if coll (srPipeline r) = coll pipeline \<and> srRunNo r = runNo
         \<and> coll (srStage r) = coll stage then change r else r) (stage_runs db)\<rparr>)"

definition UpdateStage :: "(string \<Rightarrow> string) \<Rightarrow> string \<Rightarrow> int \<Rightarrow> string \<Rightarrow> UpdateInput \<Rightarrow> unit stmt" where
  "UpdateStage coll pipeline runNo stage inp =
     (case updEndTime inp of
        Some t \<Rightarrow> exec (sql_update_stage coll pipeline runNo stage
                        (\<lambda>r. r\<lparr>srEndTime := Some t, srStatus := updStatus inp\<rparr>))
      | None \<Rightarrow> exec (sql_update_stage coll pipeline runNo stage (\<lambda>r. r\<lparr>srStatus := updStatus inp\<rparr>)))"

definition sql_insert_job :: "(string \<Rightarrow> string) \<Rightarrow> JobRun \<Rightarrow> unit stmt" where
  "sql_insert_job coll row db =
     (if uq_job_runs coll (job_runs db @ [row]) then (Inr (), db\<lparr>job_runs := job_runs db @ [row]\<rparr>)
      else (Inl (mysql_error 1062), db))"

definition CreateJob ::
  "(string \<Rightarrow> string) \<Rightarrow> string \<Rightarrow> int \<Rightarrow> string \<Rightarrow> string \<Rightarrow> int \<Rightarrow> string \<Rightarrow> bool \<Rightarrow> unit stmt" where
  "CreateJob coll pipeline runNo stage job startTime status failures =
     exec (sql_insert_job coll
       \<lparr>jrPipeline = pipeline, jrRunNo = runNo, jrStage = stage, jrJob = job, jrStartTime = startTime,
        jrEndTime = None, jrStatus = status, jrFailures = failures\<rparr>)"

definition sql_update_job ::
  "(string \<Rightarrow> string) \<Rightarrow> string \<Rightarrow> int \<Rightarrow> string \<Rightarrow> string \<Rightarrow> (JobRun \<Rightarrow> JobRun) \<Rightarrow> unit stmt" where
  "sql_update_job coll pipeline runNo stage job change db =
     (Inr (), db\<lparr>job_runs := map (\<lambda>r. if coll (jrPipeline r) = coll pipeline \<and> jrRunNo r = runNo
         \<and> coll (jrStage r) = coll stage \<and> coll (jrJob r) = coll job then change r else r) (job_runs db)\<rparr>)"

definition UpdateJob :: "(string \<Rightarrow> string) \<Rightarrow> string \<Rightarrow> int \<Rightarrow> string \<Rightarrow> string \<Rightarrow> UpdateInput \<Rightarrow> unit stmt" where
  "UpdateJob coll pipeline runNo stage job inp =
     (case updEndTime inp of
        Some t \<Rightarrow> exec (sql_update_job coll pipeline runNo stage job
                        (\<lambda>r. r\<lparr>jrEndTime := Some t, jrStatus := updStatus inp\<rparr>))
      | None \<Rightarrow> exec (sql_update_job coll pipeline runNo stage job (\<lambda>r. r\<lparr>jrStatus := updStatus inp\<rparr>)))"

section \<open>Reads\<close>

definition scanRun :: "run_row \<Rightarrow> Run" where
  "scanRun r =
     \<lparr>runPipeline = rowPipeline r, runRunNo = rowRunNo r, runStartTime = rowStartTime r,
      runEndTime = rowEndTime r, runStatus = rowStatus r, runGitHash = COALESCE (rowGitHash r),
      runGitBranch = COALESCE (rowGitBranch r), runGitRepo = COALESCE (rowGitRepo r),
      runTraceID = rowTraceID r, runRequestKey = COALESCE (rowRequestKey r)\<rparr>"

definition GetRunsByPipeline :: "(string \<Rightarrow> string) \<Rightarrow> string \<Rightarrow> Run list stmt" where
  "GetRunsByPipeline coll pipeline =
     exec (\<lambda>db. (Inr (map scanRun (sort_key rowRunNo
       (filter (\<lambda>r. coll (rowPipeline r) = coll pipeline) (pipeline_runs db)))), db))"

definition GetRun :: "(string \<Rightarrow> string) \<Rightarrow> string \<Rightarrow> int \<Rightarrow> Run stmt" where
  "GetRun coll pipeline runNo db =
     (case exec (\<lambda>db. (case filter (\<lambda>r. coll (rowPipeline r) = coll pipeline \<and> rowRunNo r = runNo)
                         (pipeline_runs db) of
                    [] \<Rightarrow> Inl \<lparr>Error = ''sql: no rows in result set'', chain = [ErrNoRows]\<rparr>
                  | r # _ \<Rightarrow> Inr (scanRun r), db)) db of
        (Inl e, db1) \<Rightarrow>
          (Inl (if errors_Is e ErrNoRows then \<lparr>Error = ''not found'', chain = [ErrNotFound]\<rparr> else e), db1)
      | (Inr r, db1) \<Rightarrow> (Inr r, db1))"

text \<open>\<open>ORDER BY stage\<close> compares collation keys byte by byte; an empty filter means all.\<close>

definition GetStagesForRun :: "(string \<Rightarrow> string) \<Rightarrow> string \<Rightarrow> int \<Rightarrow> string \<Rightarrow> StageRun list stmt" where
  "GetStagesForRun coll pipeline runNo stageFilter =
     exec (\<lambda>db. (Inr (sort_key (\<lambda>r. coll (srStage r))
       (filter (\<lambda>r. coll (srPipeline r) = coll pipeline \<and> srRunNo r = runNo
          \<and> (stageFilter = '''' \<or> coll (srStage r) = coll stageFilter)) (stage_runs db))), db))"

definition GetJobsForRun :: "(string \<Rightarrow> string) \<Rightarrow> string \<Rightarrow> int \<Rightarrow> string \<Rightarrow> string \<Rightarrow> JobRun list stmt" where
  "GetJobsForRun coll pipeline runNo stageFilter jobFilter =
     exec (\<lambda>db. (Inr (sort_key (\<lambda>r. coll (jrStage r)) (sort_key (\<lambda>r. coll (jrJob r))
       (filter (\<lambda>r. coll (jrPipeline r) = coll pipeline \<and> jrRunNo r = runNo
          \<and> (stageFilter = '''' \<or> coll (jrStage r) = coll stageFilter)
          \<and> (jobFilter = '''' \<or> coll (jrJob r) = coll jobFilter)) (job_runs db)))), db))"

section \<open>The invariant of the tables\<close>

text \<open>Every run has a number below its pipeline's counter.\<close>

definition numbered :: "(string \<Rightarrow> string) \<Rightarrow> (string \<times> int) list \<Rightarrow> run_row list \<Rightarrow> bool" where
  "numbered coll seqs rows \<longleftrightarrow>
     distinct (map (\<lambda>(p, n). coll p) seqs) \<and> (\<forall>(p, n) \<in> set seqs. 2 \<le> n)
     \<and> (\<forall>r \<in> set rows. 1 \<le> rowRunNo r
          \<and> (\<exists>(p, n) \<in> set seqs. coll p = coll (rowPipeline r) \<and> rowRunNo r < n))"

definition store_inv :: "(string \<Rightarrow> string) \<Rightarrow> db \<Rightarrow> bool" where
  "store_inv coll db \<longleftrightarrow>
     uq_pipeline_runs coll (pipeline_runs db) \<and> uq_stage_runs coll (stage_runs db)
     \<and> uq_job_runs coll (job_runs db) \<and> numbered coll (sequences db) (pipeline_runs db)"

lemma store_inv_faults [simp]: "store_inv coll (db\<lparr>faults := fs\<rparr>) = store_inv coll db"
  and store_inv_last_insert_id [simp]: "store_inv coll (db\<lparr>last_insert_id := i\<rparr>) = store_inv coll db"
  by (simp_all add: store_inv_def)

lemma store_inv_empty: "store_inv coll empty_db"
  by (simp add: store_inv_def empty_db_def uq_pipeline_runs_def uq_stage_runs_def uq_job_runs_def
      numbered_def active_keys_def)

lemma store_inv_rollback [simp]: "store_inv coll (sql_rollback db tx) = store_inv coll db"
  by (simp add: sql_rollback_def)

text \<open>A statement may fail with any fault, before or after it was applied.\<close>

lemma wp_exec:
  assumes "\<And>fs. wp stmt Q E (db\<lparr>faults := fs\<rparr>)" and "\<And>e fs. E e (db\<lparr>faults := fs\<rparr>)"
    and "\<And>e fs. E e (snd (stmt (db\<lparr>faults := fs\<rparr>)))"
  shows "wp (exec stmt) Q E db"
proof (cases "faults db")
  case Nil
  have "db\<lparr>faults := faults db\<rparr> = db" by simp
  then have "db\<lparr>faults := []\<rparr> = db" unfolding Nil .
  with Nil assms(1) [of "[]"] show ?thesis by (simp add: exec_def wp_def)
next
  case (Cons f fs)
  with assms show ?thesis by (cases f) (auto simp: exec_def wp_def)
qed

lemma wp_exec_keeps:
  assumes "\<And>fs. wp stmt (\<lambda>_. I) (\<lambda>_. I) (db\<lparr>faults := fs\<rparr>)" and "\<And>fs. I (db\<lparr>faults := fs\<rparr>)"
  shows "wp (exec stmt) (\<lambda>_. I) (\<lambda>_. I) db"
  by (rule wp_exec) (use assms wp_snd in fastforce)+

lemma exec_no_fault [simp]: "faults db = [] \<Longrightarrow> exec stmt db = stmt db"
  by (simp add: exec_def)

lemma numbered_unknown:
  assumes "numbered coll seqs rows" and "find (\<lambda>(p, n). coll p = coll pipeline) seqs = None"
  shows "numbered coll (seqs @ [(pipeline, 2)]) rows"
    and "\<forall>r \<in> set rows. coll (rowPipeline r) \<noteq> coll pipeline"
proof -
  have new: "coll p \<noteq> coll pipeline" if "(p, n) \<in> set seqs" for p n
    using assms(2) that by (auto simp: find_None_iff)
  then show "\<forall>r \<in> set rows. coll (rowPipeline r) \<noteq> coll pipeline"
    using assms(1) by (fastforce simp: numbered_def)
  show "numbered coll (seqs @ [(pipeline, 2)]) rows"
    using assms(1) new by (fastforce simp: numbered_def)
qed

lemma numbered_known:
  assumes num: "numbered coll seqs rows" and found: "find (\<lambda>(p, n). coll p = coll pipeline) seqs = Some (p0, n0)"
  shows "numbered coll (bump_counter coll pipeline seqs) rows"
    and "(p0, n0 + 1) \<in> set (bump_counter coll pipeline seqs)" and "coll p0 = coll pipeline" and "2 \<le> n0"
    and "\<forall>r \<in> set rows. coll (rowPipeline r) = coll pipeline \<longrightarrow> rowRunNo r < n0"
proof -
  let ?seqs = "bump_counter coll pipeline seqs"
  have mem: "(p0, n0) \<in> set seqs" and eq: "coll p0 = coll pipeline"
    using find_SomeD [OF found] by auto
  show "coll p0 = coll pipeline" by (rule eq)
  show "2 \<le> n0" using num mem by (auto simp: numbered_def)
  show "(p0, n0 + 1) \<in> set ?seqs" using mem eq by (force simp: bump_counter_def)
  have unique: "n = n0" if "(p, n) \<in> set seqs" "coll p = coll pipeline" for p n
    using num mem eq that unfolding numbered_def distinct_map inj_on_def by fastforce
  show "\<forall>r \<in> set rows. coll (rowPipeline r) = coll pipeline \<longrightarrow> rowRunNo r < n0"
    using num unique by (fastforce simp: numbered_def)
  have "map (\<lambda>(p, n). coll p) ?seqs = map (\<lambda>(p, n). coll p) seqs" by (auto simp: bump_counter_def split_beta)
  moreover have above: "\<exists>(p, n) \<in> set ?seqs. coll p = coll (rowPipeline r) \<and> rowRunNo r < n"
    if "\<exists>(p, n) \<in> set seqs. coll p = coll (rowPipeline r) \<and> rowRunNo r < n" for r
  proof -
    from that obtain p n where pn: "(p, n) \<in> set seqs" "coll p = coll (rowPipeline r)" "rowRunNo r < n" by blast
    have "(p, if coll p = coll pipeline then n + 1 else n) \<in> set ?seqs"
      using pn(1) by (force simp: bump_counter_def)
    then show ?thesis by (rule bexI [rotated]) (use pn(2,3) in simp)
  qed
  moreover have "\<forall>(p, n) \<in> set ?seqs. 2 \<le> n"
    using num by (auto simp: numbered_def bump_counter_def split: if_splits)
  moreover have "1 \<le> rowRunNo r \<and> (\<exists>(p, n) \<in> set ?seqs. coll p = coll (rowPipeline r) \<and> rowRunNo r < n)"
    if "r \<in> set rows" for r
    using num that above [of r] unfolding numbered_def by simp
  ultimately show "numbered coll ?seqs rows"
    using num unfolding numbered_def by simp
qed

text \<open>What an allocation gives: the invariant stays, the runs are untouched, and on success the number
  below the new counter is above every run of the pipeline.\<close>

definition allocated :: "(string \<Rightarrow> string) \<Rightarrow> string \<Rightarrow> int \<Rightarrow> db \<Rightarrow> bool" where
  "allocated coll pipeline m db \<longleftrightarrow>
     2 \<le> m \<and> (\<exists>p. (p, m) \<in> set (sequences db) \<and> coll p = coll pipeline)
     \<and> (\<forall>r \<in> set (pipeline_runs db). coll (rowPipeline r) = coll pipeline \<longrightarrow> rowRunNo r < m - 1)"

lemma allocated_faults [simp]: "allocated coll pipeline m (db\<lparr>faults := fs\<rparr>) = allocated coll pipeline m db"
  by (simp add: allocated_def)

lemma sql_next_run_no_keeps:
  assumes "store_inv coll db"
  shows "store_inv coll (snd (sql_next_run_no coll pipeline db))"
    and "pipeline_runs (snd (sql_next_run_no coll pipeline db)) = pipeline_runs db"
    and "sql_next_run_no coll pipeline db = (Inr (), db') \<Longrightarrow> allocated coll pipeline (last_insert_id db') db'"
proof -
  have num: "numbered coll (sequences db) (pipeline_runs db)" using assms by (simp add: store_inv_def)
  show "store_inv coll (snd (sql_next_run_no coll pipeline db))"
  proof (cases "find (\<lambda>(p, n). coll p = coll pipeline) (sequences db)")
    case None
    with numbered_unknown(1) [OF num None] assms show ?thesis by (simp add: sql_next_run_no_def store_inv_def)
  next
    case (Some e)
    obtain p0 n0 where e: "e = (p0, n0)" by fastforce
    with numbered_known(1) [OF num Some [unfolded e]] Some assms show ?thesis
      by (simp add: sql_next_run_no_def store_inv_def)
  qed
  show "pipeline_runs (snd (sql_next_run_no coll pipeline db)) = pipeline_runs db"
    by (simp add: sql_next_run_no_def split: option.split prod.split)
  assume ok: "sql_next_run_no coll pipeline db = (Inr (), db')"
  show "allocated coll pipeline (last_insert_id db') db'"
  proof (cases "find (\<lambda>(p, n). coll p = coll pipeline) (sequences db)")
    case None
    with ok numbered_unknown(2) [OF num None] show ?thesis
      by (auto simp: sql_next_run_no_def allocated_def)
  next
    case (Some e)
    obtain p0 n0 where e: "e = (p0, n0)" by fastforce
    from numbered_known [OF num Some [unfolded e]] ok Some e show ?thesis
      by (auto simp: sql_next_run_no_def allocated_def split: if_splits)
  qed
qed

lemma sql_insert_run_keeps:
  assumes "store_inv coll db" and "allocated coll (criPipeline inp) m db"
  shows "store_inv coll (snd (sql_insert_run coll inp (m - 1) db))"
proof -
  from assms(2) obtain p where m: "2 \<le> m" and p: "(p, m) \<in> set (sequences db)" "coll p = coll (criPipeline inp)"
    by (auto simp: allocated_def)
  have "\<exists>(p, n) \<in> set (sequences db). coll p = coll (criPipeline inp) \<and> m - 1 < n"
    using p by (intro bexI [of _ "(p, m)"]) simp_all
  then have "numbered coll (sequences db) (pipeline_runs db @ [new_run_row coll inp (m - 1)])"
    using assms(1) m by (simp add: store_inv_def numbered_def new_run_row_def)
  with assms(1) show ?thesis by (simp add: sql_insert_run_def store_inv_def Let_def)
qed

text \<open>What a transaction has done to the runs when it inserted run \<open>n\<close>.\<close>

definition inserted :: "(string \<Rightarrow> string) \<Rightarrow> CreateRunInput \<Rightarrow> db \<Rightarrow> int \<Rightarrow> db \<Rightarrow> bool" where
  "inserted coll inp db n db' \<longleftrightarrow>
     1 \<le> n \<and> pipeline_runs db' = pipeline_runs db @ [new_run_row coll inp n]
     \<and> (\<forall>r \<in> set (pipeline_runs db). coll (rowPipeline r) = coll (criPipeline inp) \<longrightarrow> rowRunNo r < n)"

lemma wp_createRunTx:
  assumes inv: "store_inv coll db"
  shows "wp (createRunTx coll inp) (\<lambda>n db'. store_inv coll db' \<and> inserted coll inp db n db')
           (\<lambda>_. store_inv coll) db"
proof -
  let ?p = "criPipeline inp"
  let ?done = "\<lambda>n db'. store_inv coll db' \<and> inserted coll inp db n db'"
  have insert: "wp (exec (sql_insert_run coll inp (m - 1))) (\<lambda>_. ?done (m - 1)) (\<lambda>_. store_inv coll) db2"
    if "store_inv coll db2" "allocated coll ?p m db2" "pipeline_runs db2 = pipeline_runs db" for m db2
  proof (rule wp_exec)
    fix fs
    have "store_inv coll (snd (sql_insert_run coll inp (m - 1) (db2\<lparr>faults := fs\<rparr>)))"
      using that sql_insert_run_keeps [of coll "db2\<lparr>faults := fs\<rparr>" inp m] by simp
    then show "wp (sql_insert_run coll inp (m - 1)) (\<lambda>_. ?done (m - 1)) (\<lambda>_. store_inv coll) (db2\<lparr>faults := fs\<rparr>)"
      using that by (auto simp: wp_def sql_insert_run_def inserted_def allocated_def Let_def)
  qed (use that sql_insert_run_keeps [of coll "db2\<lparr>faults := fs\<rparr>" inp m for fs] in auto)
  have read: "wp (exec sql_last_insert_id)
      (\<lambda>m db2. store_inv coll db2 \<and> allocated coll ?p m db2 \<and> pipeline_runs db2 = pipeline_runs db)
      (\<lambda>_. store_inv coll) db1"
    if "store_inv coll db1" "allocated coll ?p (last_insert_id db1) db1" "pipeline_runs db1 = pipeline_runs db" for db1
    by (rule wp_exec) (use that in \<open>simp_all add: wp_def sql_last_insert_id_def\<close>)
  have seq: "wp (exec (sql_next_run_no coll ?p))
      (\<lambda>_ db1. store_inv coll db1 \<and> allocated coll ?p (last_insert_id db1) db1 \<and> pipeline_runs db1 = pipeline_runs db)
      (\<lambda>_. store_inv coll) db"
  proof (rule wp_exec)
    fix fs
    show "wp (sql_next_run_no coll ?p)
      (\<lambda>_ db1. store_inv coll db1 \<and> allocated coll ?p (last_insert_id db1) db1 \<and> pipeline_runs db1 = pipeline_runs db)
      (\<lambda>_. store_inv coll) (db\<lparr>faults := fs\<rparr>)"
      using inv sql_next_run_no_keeps [of coll "db\<lparr>faults := fs\<rparr>" ?p]
      by (cases "sql_next_run_no coll ?p (db\<lparr>faults := fs\<rparr>)") (auto simp: wp_def split: sum.split)
  qed (use inv sql_next_run_no_keeps(1) [of coll "db\<lparr>faults := fs\<rparr>" ?p for fs] in simp_all)
  show ?thesis
    unfolding createRunTx_def wp_andthen
  proof (rule wp_mono [OF seq], elim conjE)
    fix db1 assume "store_inv coll db1" "allocated coll ?p (last_insert_id db1) db1"
      "pipeline_runs db1 = pipeline_runs db"
    from read [OF this] insert show "wp (exec sql_last_insert_id)
      (\<lambda>nextRunNo. wp (if nextRunNo \<le> 1
         then fail (Errorf (''failed to allocate run_no for pipeline '' @ quoted ?p))
         else andthen (exec (sql_insert_run coll inp (nextRunNo - 1))) (\<lambda>_. ret (nextRunNo - 1)))
        ?done (\<lambda>_. store_inv coll)) (\<lambda>_. store_inv coll) db1"
      by (elim wp_mono) auto
  qed
qed

lemma wp_transaction:
  assumes "wp body Q (\<lambda>_ _. True) db" and "\<And>x tx fs. Q x tx \<Longrightarrow> Q x (tx\<lparr>faults := fs\<rparr>)"
    and "\<And>e tx. E e (sql_rollback db tx)" and "\<And>e x tx. Q x tx \<Longrightarrow> E e tx"
  shows "wp (transaction body) Q E db"
proof (cases "body db")
  case (Pair r tx)
  show ?thesis
  proof (cases r)
    case (Inl e)
    with Pair assms(3) show ?thesis by (simp add: wp_def transaction_def)
  next
    case (Inr x)
    with Pair assms(1) have "Q x tx" by (simp add: wp_def)
    then have "Q x (tx\<lparr>faults := fs\<rparr>)" "E e (tx\<lparr>faults := fs\<rparr>)" for e fs using assms(2,4) by blast+
    with Pair Inr \<open>Q x tx\<close> assms(3) show ?thesis
      by (auto simp: wp_def transaction_def sql_commit_def split: list.split option.split bool.split)
  qed
qed

lemma inserted_faults [simp]:
  "inserted coll inp (db\<lparr>faults := fs\<rparr>) n db' = inserted coll inp db n db'"
  "inserted coll inp db n (db'\<lparr>faults := fs\<rparr>) = inserted coll inp db n db'"
  by (simp_all add: inserted_def)

lemma wp_begin:
  "(\<And>fs. Q () (db\<lparr>faults := fs\<rparr>)) \<Longrightarrow> (\<And>e fs. E e (db\<lparr>faults := fs\<rparr>)) \<Longrightarrow> wp (exec sql_begin) Q E db"
  by (rule wp_exec) (simp_all add: sql_begin_def, simp add: ret_def)

text \<open>A run is created as a whole or not at all, also when the reply to the commit is lost.\<close>

lemma wp_CreateRun:
  assumes "store_inv coll db"
  shows "wp (CreateRun coll inp) (\<lambda>n db'. store_inv coll db' \<and> inserted coll inp db n db')
    (\<lambda>_ db'. store_inv coll db' \<and> (pipeline_runs db' = pipeline_runs db \<or> (\<exists>n. inserted coll inp db n db'))) db"
  unfolding CreateRun_def wp_andthen
proof (rule wp_begin)
  fix fs
  have "wp (createRunTx coll inp) (\<lambda>n db'. store_inv coll db' \<and> inserted coll inp db n db')
      (\<lambda>_ _. True) (db\<lparr>faults := fs\<rparr>)"
    using wp_createRunTx [of coll "db\<lparr>faults := fs\<rparr>" inp] assms by (auto elim: wp_mono)
  then show "wp (transaction (createRunTx coll inp)) (\<lambda>n db'. store_inv coll db' \<and> inserted coll inp db n db')
    (\<lambda>_ db'. store_inv coll db' \<and> (pipeline_runs db' = pipeline_runs db \<or> (\<exists>n. inserted coll inp db n db')))
    (db\<lparr>faults := fs\<rparr>)"
    by (rule wp_transaction) (use assms in \<open>auto simp: sql_rollback_def\<close>)
qed (use assms in simp)

lemma wp_create_or_reselect:
  assumes "store_inv coll db"
  shows "wp (create_or_reselect coll level inp snapshot) (\<lambda>_. store_inv coll) (\<lambda>_. store_inv coll) db"
proof (cases "createRunTx coll inp db")
  case (Pair r tx)
  have tx: "store_inv coll tx"
    using wp_createRunTx [OF assms, of inp] Pair by (cases r) (auto simp: wp_def)
  have "wp (exec (\<lambda>d. (sql_select_active coll (criPipeline inp) (criRequestKey inp) (read_view level snapshot d), d)))
      (\<lambda>_. store_inv coll) (\<lambda>_. store_inv coll) tx"
    by (rule wp_exec) (use tx in \<open>simp_all add: wp_def split: sum.split\<close>)
  then have "store_inv coll (snd (exec
      (\<lambda>d. (sql_select_active coll (criPipeline inp) (criRequestKey inp) (read_view level snapshot d), d)) tx))"
    by (simp add: wp_snd)
  with Pair tx show ?thesis
    by (cases r) (auto simp: create_or_reselect_def wp_def andthen_def ret_def split: prod.split sum.split)
qed

lemma wp_CreateRunOrGetActive:
  assumes inv: "store_inv coll db" and between: "\<And>db. store_inv coll db \<Longrightarrow> store_inv coll (between db)"
  shows "wp (CreateRunOrGetActive coll level between inp) (\<lambda>_. store_inv coll) (\<lambda>_. store_inv coll) db"
  unfolding CreateRunOrGetActive_def wp_andthen Let_def
proof (rule wp_begin)
  fix fs
  let ?select = "\<lambda>d. (sql_select_active coll (criPipeline inp) (criRequestKey inp) (pipeline_runs d), d)"
  let ?create = "\<lambda>snapshot. transaction (create_or_reselect coll level inp snapshot)
      ((between snapshot)\<lparr>faults := faults snapshot\<rparr>)"
  have create: "store_inv coll (snd (?create d))" if "store_inv coll d" for d
  proof -
    have "wp (transaction (create_or_reselect coll level inp d)) (\<lambda>_. store_inv coll) (\<lambda>_. store_inv coll)
        ((between d)\<lparr>faults := faults d\<rparr>)"
      by (rule wp_transaction, rule wp_mono [OF wp_create_or_reselect]) (use between [OF that] in simp_all)
    then show ?thesis by (simp add: wp_snd)
  qed
  obtain r db1 where sel: "exec ?select (db\<lparr>faults := fs\<rparr>) = (r, db1)" by fastforce
  have "store_inv coll (snd (exec ?select (db\<lparr>faults := fs\<rparr>)))"
    using inv by (simp add: exec_def split: list.split option.split)
  moreover have "store_inv coll (snd (sql_commit d x d))" if "store_inv coll d" for d and x :: CreateRunResult
    using that by (simp add: sql_commit_def split: list.split option.split bool.split prod.split)
  ultimately have "store_inv coll (snd (if criRequestKey inp = '''' then ?create (db\<lparr>faults := fs\<rparr>)
      else case exec ?select (db\<lparr>faults := fs\<rparr>) of
          (Inr found, db1) \<Rightarrow> sql_commit db1 (deduped_result found) db1
        | (Inl e, db1) \<Rightarrow> if errors_Is e ErrNoRows then ?create db1 else (Inl e, db1)))"
    using create [of "db\<lparr>faults := fs\<rparr>"] create [of db1] inv by (cases r) (simp_all add: sel)
  then show "wp (\<lambda>db. if criRequestKey inp = '''' then ?create db
      else case exec ?select db of
          (Inl e, db1) \<Rightarrow> if errors_Is e ErrNoRows then ?create db1 else (Inl e, db1)
        | (Inr found, db1) \<Rightarrow> sql_commit db1 (deduped_result found) db1)
      (\<lambda>_. store_inv coll) (\<lambda>_. store_inv coll) (db\<lparr>faults := fs\<rparr>)"
    by (simp add: wp_snd)
qed (use inv in simp)

section \<open>Sequences of operations\<close>

text \<open>\<open>OpCreateRunOrGetActive inp others\<close> is the call with \<open>others\<close>, operations of other callers, done
  between its first read and its insert.\<close>

datatype store_op =
    OpCreateRun CreateRunInput
  | OpCreateRunOrGetActive CreateRunInput "store_op list"
  | OpUpdateRun string int UpdateInput
  | OpCreateStage string int string int string
  | OpUpdateStage string int string UpdateInput
  | OpCreateJob string int string string int string bool
  | OpUpdateJob string int string string UpdateInput

fun store_exec :: "(string \<Rightarrow> string) \<Rightarrow> isolation \<Rightarrow> store_op \<Rightarrow> db \<Rightarrow> db"
  and store_execs :: "(string \<Rightarrow> string) \<Rightarrow> isolation \<Rightarrow> store_op list \<Rightarrow> db \<Rightarrow> db" where
  "store_exec coll level (OpCreateRun inp) db = snd (CreateRun coll inp db)"
| "store_exec coll level (OpCreateRunOrGetActive inp others) db =
     snd (CreateRunOrGetActive coll level (store_execs coll level others) inp db)"
| "store_exec coll level (OpUpdateRun p n inp) db = snd (UpdateRun coll p n inp db)"
| "store_exec coll level (OpCreateStage p n s t st) db = snd (CreateStage coll p n s t st db)"
| "store_exec coll level (OpUpdateStage p n s inp) db = snd (UpdateStage coll p n s inp db)"
| "store_exec coll level (OpCreateJob p n s j t st f) db = snd (CreateJob coll p n s j t st f db)"
| "store_exec coll level (OpUpdateJob p n s j inp) db = snd (UpdateJob coll p n s j inp db)"
| "store_execs coll level [] db = db"
| "store_execs coll level (oper # ops) db = store_execs coll level ops (store_exec coll level oper db)"

lemma exec_keeps:
  assumes "\<And>fs. I (snd (stmt (db\<lparr>faults := fs\<rparr>)))" and "\<And>fs. I (db\<lparr>faults := fs\<rparr>)"
  shows "I (snd (exec stmt db))"
  using wp_exec_keeps [of stmt I db] assms by (simp add: wp_snd)

lemma numbered_map:
  assumes "numbered coll seqs rows"
    and "\<And>r. r \<in> set rows \<Longrightarrow> rowPipeline (f r) = rowPipeline r \<and> rowRunNo (f r) = rowRunNo r"
  shows "numbered coll seqs (map f rows)"
  using assms by (simp add: numbered_def)

lemma sql_update_run_keeps:
  assumes "store_inv coll db" and "\<And>r. rowPipeline (change r) = rowPipeline r \<and> rowRunNo (change r) = rowRunNo r"
  shows "store_inv coll (snd (sql_update_run coll p n change db))"
proof -
  have "numbered coll (sequences db)
      (map (\<lambda>r. if coll (rowPipeline r) = coll p \<and> rowRunNo r = n then change r else r) (pipeline_runs db))"
    using assms by (intro numbered_map) (simp_all add: store_inv_def)
  with assms(1) show ?thesis by (simp add: sql_update_run_def store_inv_def Let_def)
qed

lemma map_keys_if: "(\<And>r. key (change r) = key r) \<Longrightarrow> map (key \<circ> (\<lambda>r. if P r then change r else r)) rs = map key rs"
  by auto

lemma sql_update_stage_keeps:
  assumes "store_inv coll db" and "\<And>r. srPipeline (change r) = srPipeline r \<and> srRunNo (change r) = srRunNo r
      \<and> srStage (change r) = srStage r"
  shows "store_inv coll (snd (sql_update_stage coll p n s change db))"
  using assms by (simp add: sql_update_stage_def store_inv_def uq_stage_runs_def map_keys_if)

lemma sql_update_job_keeps:
  assumes "store_inv coll db" and "\<And>r. jrPipeline (change r) = jrPipeline r \<and> jrRunNo (change r) = jrRunNo r
      \<and> jrStage (change r) = jrStage r \<and> jrJob (change r) = jrJob r"
  shows "store_inv coll (snd (sql_update_job coll p n s j change db))"
  using assms by (simp add: sql_update_job_def store_inv_def uq_job_runs_def map_keys_if)

lemmas exec_store_inv = exec_keeps [where I = "store_inv coll" for coll]

lemma UpdateRun_keeps: "store_inv coll db \<Longrightarrow> store_inv coll (snd (UpdateRun coll p n inp db))"
  by (cases "updEndTime inp") (simp_all add: UpdateRun_def exec_store_inv sql_update_run_keeps)

lemma UpdateStage_keeps: "store_inv coll db \<Longrightarrow> store_inv coll (snd (UpdateStage coll p n s inp db))"
  by (cases "updEndTime inp") (simp_all add: UpdateStage_def exec_store_inv sql_update_stage_keeps)

lemma UpdateJob_keeps: "store_inv coll db \<Longrightarrow> store_inv coll (snd (UpdateJob coll p n s j inp db))"
  by (cases "updEndTime inp") (simp_all add: UpdateJob_def exec_store_inv sql_update_job_keeps)

lemma CreateStage_keeps: "store_inv coll db \<Longrightarrow> store_inv coll (snd (CreateStage coll p n s t st db))"
  unfolding CreateStage_def by (rule exec_store_inv) (simp_all add: sql_insert_stage_def store_inv_def)

lemma CreateJob_keeps: "store_inv coll db \<Longrightarrow> store_inv coll (snd (CreateJob coll p n s j t st f db))"
  unfolding CreateJob_def by (rule exec_store_inv) (simp_all add: sql_insert_job_def store_inv_def)

lemma store_exec_keeps:
  shows "store_inv coll db \<Longrightarrow> store_inv coll (store_exec coll level oper db)"
    and store_execs_keeps: "store_inv coll db \<Longrightarrow> store_inv coll (store_execs coll level ops db)"
proof (induction coll level oper db and coll level ops db rule: store_exec_store_execs.induct)
  case (1 coll level inp db)
  have "wp (CreateRun coll inp) (\<lambda>_. store_inv coll) (\<lambda>_. store_inv coll) db"
    by (rule wp_mono [OF wp_CreateRun [OF 1]]) simp_all
  then show ?case by (simp add: wp_snd)
next
  case (2 coll level inp others db)
  then have "wp (CreateRunOrGetActive coll level (store_execs coll level others) inp)
      (\<lambda>_. store_inv coll) (\<lambda>_. store_inv coll) db"
    by (intro wp_CreateRunOrGetActive) simp_all
  then show ?case by (simp add: wp_snd)
qed (simp_all add: UpdateRun_keeps UpdateStage_keeps UpdateJob_keeps CreateStage_keeps CreateJob_keeps)

section \<open>What callers can rely on\<close>

text \<open>Run numbers are fresh: when \<open>CreateRun\<close> returns a number, under any faults of earlier and later
  statements, exactly one row was added, it carries the input, and its number is positive and above
  every existing run of the pipeline.\<close>

theorem CreateRun_fresh_number:
  assumes "store_inv coll db" and "CreateRun coll inp db = (Inr n, db')"
  shows "pipeline_runs db' = pipeline_runs db @ [new_run_row coll inp n] \<and> 1 \<le> n
    \<and> (\<forall>r \<in> set (pipeline_runs db). coll (rowPipeline r) = coll (criPipeline inp) \<longrightarrow> rowRunNo r < n)
    \<and> store_inv coll db'"
  using wp_Inr [OF wp_CreateRun [OF assms(1)] assms(2)] by (auto simp: inserted_def)

definition demo_run_input :: CreateRunInput where
  "demo_run_input = \<lparr>criPipeline = ''demo'', criStartTime = 7, criStatus = StatusQueued, criGitHash = ''abc'',
     criGitBranch = ''main'', criGitRepo = '''', criTraceID = ''4bf9'', criRequestKey = ''k1''\<rparr>"

definition demo_db :: db where
  "demo_db = snd (CreateRun id demo_run_input empty_db)"

lemma demo_db_inv: "store_inv id demo_db"
  using store_execs_keeps [OF store_inv_empty, of id ReadCommitted "[OpCreateRun demo_run_input]"]
  by (simp add: demo_db_def)

lemma CreateRun_fresh_number_witness:
  "map rowRunNo (pipeline_runs (snd (CreateRun id (demo_run_input\<lparr>criRequestKey := ''k2''\<rparr>) demo_db))) = [1, 2]"
proof -
  let ?inp = "demo_run_input\<lparr>criRequestKey := ''k2''\<rparr>"
  obtain db' where run: "CreateRun id ?inp demo_db = (Inr 2, db')"
  proof -
    have "fst (CreateRun id ?inp demo_db) = Inr 2" by code_simp
    then show ?thesis using that by (metis prod.collapse)
  qed
  have "map rowRunNo (pipeline_runs demo_db) = [1]" by code_simp
  with CreateRun_fresh_number [OF demo_db_inv run] run show ?thesis by (simp add: new_run_row_def)
qed

lemma uq_unique:
  assumes "distinct (map key (filter P rows))" and "r1 \<in> set rows" "r2 \<in> set rows" "P r1" "P r2" "key r1 = key r2"
  shows "r1 = r2"
  using assms by (simp add: distinct_map inj_on_def)

lemma active_unique:
  assumes "uq_pipeline_runs coll rows" and "r1 \<in> set rows" "r2 \<in> set rows"
    and "coll (rowPipeline r1) = coll (rowPipeline r2)"
    and "active_request_key coll r1 = Some k1" "active_request_key coll r2 = Some k2" "coll k1 = coll k2"
  shows "r1 = r2"
proof -
  have "distinct (map (\<lambda>r. (coll (rowPipeline r), coll (COALESCE (active_request_key coll r))))
      (filter (\<lambda>r. active_request_key coll r \<noteq> None) rows))"
    using assms(1) by (simp add: uq_pipeline_runs_def active_keys_def)
  then show ?thesis by (rule uq_unique) (use assms in \<open>simp_all add: COALESCE_def\<close>)
qed

definition runs_in_flight :: "(string \<Rightarrow> string) \<Rightarrow> string \<Rightarrow> string \<Rightarrow> run_row list \<Rightarrow> run_row list" where
  "runs_in_flight coll pipeline requestKey rows =
     filter (\<lambda>r. coll (rowPipeline r) = coll pipeline
       \<and> (case active_request_key coll r of None \<Rightarrow> False | Some k \<Rightarrow> coll k = coll requestKey)) rows"

lemma runs_in_flight_le_1:
  assumes "distinct (active_keys coll rows)"
  shows "length (runs_in_flight coll p k rows) \<le> 1"
proof -
  let ?key = "\<lambda>r. (coll (rowPipeline r), coll (COALESCE (active_request_key coll r)))"
  let ?keys = "map ?key (runs_in_flight coll p k rows)"
  have "runs_in_flight coll p k rows
      = filter (\<lambda>r. ?key r = (coll p, coll k)) (filter (\<lambda>r. active_request_key coll r \<noteq> None) rows)"
    by (auto simp: runs_in_flight_def COALESCE_def intro!: filter_cong split: option.splits)
  then have "distinct ?keys" and "set ?keys \<subseteq> {(coll p, coll k)}"
    using distinct_map_filter [of ?key "filter (\<lambda>r. active_request_key coll r \<noteq> None) rows" "\<lambda>r. ?key r = (coll p, coll k)"] assms
    by (auto simp only: active_keys_def set_map set_filter)
  then have "card (set ?keys) \<le> 1" and "card (set ?keys) = length ?keys"
    using card_mono [of "{(coll p, coll k)}" "set ?keys"] distinct_card [of ?keys] by simp_all
  then show ?thesis by simp
qed

text \<open>At most one active run, as the unique index \<open>uq_pipeline_runs_active_request\<close> has it: after any sequence of store operations from the empty database, with
  any faults of statements and commits, and with other calls running inside
  \<open>CreateRunOrGetActive\<close>, a pipeline has at most one
  active run for a request key.\<close>

theorem at_most_one_active_run:
  "length (runs_in_flight coll pipeline requestKey
     (pipeline_runs (store_execs coll level ops (empty_db\<lparr>faults := fs\<rparr>)))) \<le> 1"
proof -
  have "store_inv coll (store_execs coll level ops (empty_db\<lparr>faults := fs\<rparr>))"
    by (rule store_execs_keeps) (simp add: store_inv_empty)
  then show ?thesis by (intro runs_in_flight_le_1) (simp add: store_inv_def uq_pipeline_runs_def)
qed

text \<open>Selecting the run in flight when there is one.\<close>

definition in_flight :: "(string \<Rightarrow> string) \<Rightarrow> CreateRunInput \<Rightarrow> run_row \<Rightarrow> bool" where
  "in_flight coll inp r \<longleftrightarrow>
     coll (rowPipeline r) = coll (criPipeline inp) \<and> active coll r
     \<and> (\<exists>k. rowRequestKey r = Some k \<and> coll k = coll (criRequestKey inp))"

lemma in_flight_filter:
  "(coll (rowPipeline r) = coll (criPipeline inp)
     \<and> (case rowRequestKey r of None \<Rightarrow> False | Some k \<Rightarrow> coll k = coll (criRequestKey inp)) \<and> active coll r)
   \<longleftrightarrow> in_flight coll inp r"
  by (auto simp: in_flight_def split: option.splits)

lemma select_active_found:
  assumes "uq_pipeline_runs coll rows" and "r \<in> set rows" and "in_flight coll inp r"
  shows "sql_select_active coll (criPipeline inp) (criRequestKey inp) rows = Inr (rowRunNo r, rowStatus r)"
proof -
  have only: "r' = r" if "r' \<in> set rows" "in_flight coll inp r'" for r'
  proof (rule active_unique [OF assms(1) that(1) assms(2)])
    show "coll (rowPipeline r') = coll (rowPipeline r)" using that assms by (simp add: in_flight_def)
    show "active_request_key coll r' = Some (the (rowRequestKey r'))"
      and "active_request_key coll r = Some (the (rowRequestKey r))"
      and "coll (the (rowRequestKey r')) = coll (the (rowRequestKey r))"
      using that assms by (auto simp: in_flight_def active_request_key_def)
  qed
  have flight: "set (sort_key rowRunNo (filter (in_flight coll inp) rows)) = {r}"
  proof (rule set_eqI)
    show "r' \<in> set (sort_key rowRunNo (filter (in_flight coll inp) rows)) \<longleftrightarrow> r' \<in> {r}" for r'
      using only [of r'] assms(2,3) by simp blast
  qed
  obtain rest where "sort_key rowRunNo (filter (in_flight coll inp) rows) = r # rest"
  proof (cases "sort_key rowRunNo (filter (in_flight coll inp) rows)")
    case Nil
    with flight show ?thesis by simp
  next
    case (Cons r' rest)
    with flight have "r' = r" by (metis list.set_intros(1) singletonD)
    with Cons that show ?thesis by simp
  qed
  then show ?thesis unfolding sql_select_active_def in_flight_filter by simp
qed

lemma select_active_none:
  assumes "\<forall>r \<in> set rows. \<not> in_flight coll inp r"
  shows "\<exists>e. sql_select_active coll (criPipeline inp) (criRequestKey inp) rows = Inl e \<and> errors_Is e ErrNoRows"
proof -
  have "filter (in_flight coll inp) rows = []" using assms by (simp add: filter_empty_conv)
  then show ?thesis unfolding sql_select_active_def in_flight_filter by (simp add: errors_Is_def)
qed

lemma sql_begin_Inr [simp]: "sql_begin db = (Inr (), db)"
  by (simp add: sql_begin_def ret_def)

lemma deduplicated:
  assumes "store_inv coll db" and "faults db = []" and "criRequestKey inp \<noteq> ''''"
    and "r \<in> set (pipeline_runs db)" and "in_flight coll inp r"
  shows "CreateRunOrGetActive coll level between inp db
    = (Inr \<lparr>crrRunNo = rowRunNo r, crrDeduped = True, crrExistingStatus = rowStatus r\<rparr>, db)"
proof -
  have "uq_pipeline_runs coll (pipeline_runs db)" using assms(1) by (simp add: store_inv_def)
  from select_active_found [OF this assms(4,5)] assms(2,3) show ?thesis
    by (simp add: CreateRunOrGetActive_def andthen_def sql_commit_def deduped_result_def Let_def)
qed

text \<open>A repeated request joins the run in flight: when a run of the same pipeline and request key is
  queued or running, \<open>CreateRunOrGetActive\<close> changes no table and returns that run's number and status,
  marked as deduplicated.\<close>

theorem CreateRunOrGetActive_deduplicates:
  assumes "store_inv coll db" and "faults db = []" and "criRequestKey inp \<noteq> ''''"
    and "r \<in> set (pipeline_runs db)" and "in_flight coll inp r"
  shows "CreateRunOrGetActive coll level between inp db
    = (Inr \<lparr>crrRunNo = rowRunNo r, crrDeduped = True, crrExistingStatus = rowStatus r\<rparr>, db)"
  using assms by (rule deduplicated)

lemma CreateRunOrGetActive_deduplicates_witness:
  "CreateRunOrGetActive id RepeatableRead id demo_run_input demo_db
    = (Inr \<lparr>crrRunNo = 1, crrDeduped = True, crrExistingStatus = StatusQueued\<rparr>, demo_db)"
proof -
  have "pipeline_runs demo_db = [new_run_row id demo_run_input 1]" and "faults demo_db = []" by code_simp+
  moreover have "in_flight id demo_run_input (new_run_row id demo_run_input 1)"
    by (simp add: in_flight_def active_def new_run_row_def demo_run_input_def NULLIF_def)
  ultimately show ?thesis
    using CreateRunOrGetActive_deduplicates [OF demo_db_inv, of demo_run_input "new_run_row id demo_run_input 1"]
    by (simp add: new_run_row_def demo_run_input_def)
qed

text \<open>A number above the pipeline's runs collides with nothing, and the request key only with a run in
  flight.\<close>

lemma uq_new_run:
  assumes "uq_pipeline_runs coll rows" and "\<forall>r \<in> set rows. coll (rowPipeline r) = coll (criPipeline inp) \<longrightarrow> rowRunNo r < n"
    and "\<forall>r \<in> set rows. \<not> in_flight coll inp r"
  shows "uq_pipeline_runs coll (rows @ [new_run_row coll inp n])"
proof -
  have "(coll (criPipeline inp), n) \<notin> (\<lambda>r. (coll (rowPipeline r), rowRunNo r)) ` set rows"
    using assms(2) by fastforce
  moreover have "(coll (criPipeline inp), coll (criRequestKey inp)) \<notin> set (active_keys coll rows)"
    using assms(3) by (fastforce simp: active_keys_def in_flight_def active_request_key_def COALESCE_def
        split: if_splits)
  ultimately show ?thesis
    using assms(1)
    by (auto simp: uq_pipeline_runs_def active_keys_def new_run_row_def active_request_key_def NULLIF_def COALESCE_def)
qed

definition has_number :: "(string \<Rightarrow> string) \<Rightarrow> string \<Rightarrow> db \<Rightarrow> bool" where
  "has_number coll pipeline db \<longleftrightarrow> (\<forall>(p, n) \<in> set (sequences db). coll p = coll pipeline \<longrightarrow> n < INT_MAX)"

lemma sql_next_run_no_succeeds:
  assumes "has_number coll pipeline db"
  shows "\<exists>db1. sql_next_run_no coll pipeline db = (Inr (), db1) \<and> faults db1 = faults db"
proof (cases "find (\<lambda>(p, n). coll p = coll pipeline) (sequences db)")
  case (Some e)
  with find_SomeD [OF Some] assms show ?thesis
    by (cases e) (auto simp: sql_next_run_no_def has_number_def)
qed (simp add: sql_next_run_no_def)

text \<open>Without faults the transaction reaches its last statement with a fresh number.\<close>

lemma createRunTx_no_fault:
  assumes "store_inv coll db" and "faults db = []" and "has_number coll (criPipeline inp) db"
  obtains n db1 where "createRunTx coll inp db = andthen (sql_insert_run coll inp n) (\<lambda>_. ret n) db1"
    and "faults db1 = []" and "pipeline_runs db1 = pipeline_runs db"
    and "\<forall>r \<in> set (pipeline_runs db). coll (rowPipeline r) = coll (criPipeline inp) \<longrightarrow> rowRunNo r < n"
    and "stage_runs db1 = stage_runs db" and "job_runs db1 = job_runs db"
proof -
  obtain db1 where db1: "sql_next_run_no coll (criPipeline inp) db = (Inr (), db1)" "faults db1 = []"
    using sql_next_run_no_succeeds [OF assms(3)] assms(2) by auto
  have runs: "pipeline_runs db1 = pipeline_runs db"
    using sql_next_run_no_keeps(2) [OF assms(1), of "criPipeline inp"] db1 by simp
  have alloc: "allocated coll (criPipeline inp) (last_insert_id db1) db1"
    using sql_next_run_no_keeps(3) [OF assms(1) db1(1)] .
  have tx: "createRunTx coll inp db
      = andthen (sql_insert_run coll inp (last_insert_id db1 - 1)) (\<lambda>_. ret (last_insert_id db1 - 1)) db1"
    using db1 assms(2) alloc by (simp add: createRunTx_def andthen_def sql_last_insert_id_def allocated_def)
  show ?thesis
    by (rule that [OF tx db1(2) runs])
      (use alloc runs db1(1) in \<open>auto simp: allocated_def sql_next_run_no_def split: option.splits if_splits\<close>)
qed

lemma created_run:
  assumes "store_inv coll db" and "faults db = []" and "\<forall>r \<in> set (pipeline_runs db). \<not> in_flight coll inp r"
    and "has_number coll (criPipeline inp) db" and "coll (criTraceID inp) \<noteq> coll ''''"
  obtains n db' where "CreateRunOrGetActive coll level id inp db
      = (Inr \<lparr>crrRunNo = n, crrDeduped = False, crrExistingStatus = criStatus inp\<rparr>, db')"
    and "pipeline_runs db' = pipeline_runs db @ [new_run_row coll inp n]"
    and "\<forall>r \<in> set (pipeline_runs db). coll (rowPipeline r) = coll (criPipeline inp) \<longrightarrow> rowRunNo r < n"
    and "faults db' = []" and "stage_runs db' = stage_runs db" and "job_runs db' = job_runs db"
proof -
  obtain n db1 where tx: "createRunTx coll inp db = andthen (sql_insert_run coll inp n) (\<lambda>_. ret n) db1"
      "faults db1 = []" "pipeline_runs db1 = pipeline_runs db"
      and fresh: "\<forall>r \<in> set (pipeline_runs db). coll (rowPipeline r) = coll (criPipeline inp) \<longrightarrow> rowRunNo r < n"
    and rest: "stage_runs db1 = stage_runs db" "job_runs db1 = job_runs db"
    using createRunTx_no_fault [OF assms(1,2,4)] by metis
  have "uq_pipeline_runs coll (pipeline_runs db)" using assms(1) by (simp add: store_inv_def)
  from uq_new_run [OF this fresh assms(3)] tx assms(5)
  have tx_ok: "createRunTx coll inp db
      = (Inr n, db1\<lparr>pipeline_runs := pipeline_runs db @ [new_run_row coll inp n]\<rparr>)"
    by (simp add: andthen_def sql_insert_run_def NULLIF_def ret_def Let_def)
  have same: "(id db)\<lparr>faults := []\<rparr> = db" using assms(2) by (metis db.surjective db.update_convs(6) id_apply)
  have "transaction (create_or_reselect coll level inp db) db
      = (Inr \<lparr>crrRunNo = n, crrDeduped = False, crrExistingStatus = criStatus inp\<rparr>,
         db1\<lparr>pipeline_runs := pipeline_runs db @ [new_run_row coll inp n]\<rparr>)"
    using tx_ok tx(2) by (simp add: transaction_def create_or_reselect_def sql_commit_def)
  moreover obtain e where "sql_select_active coll (criPipeline inp) (criRequestKey inp) (pipeline_runs db) = Inl e"
      "errors_Is e ErrNoRows" using select_active_none [OF assms(3)] by blast
  ultimately have "CreateRunOrGetActive coll level id inp db
      = (Inr \<lparr>crrRunNo = n, crrDeduped = False, crrExistingStatus = criStatus inp\<rparr>,
         db1\<lparr>pipeline_runs := pipeline_runs db @ [new_run_row coll inp n]\<rparr>)"
    using assms(2) same by (simp add: CreateRunOrGetActive_def andthen_def Let_def)
  from that [OF this] show ?thesis using fresh tx(2) rest by simp
qed

text \<open>A new request gets a new run: when no run of the request is in flight, the database is healthy,
  the request carries a trace id and the counter has room, \<open>CreateRunOrGetActive\<close> succeeds and adds
  exactly the row of the input, numbered above the pipeline's runs.\<close>

theorem CreateRunOrGetActive_creates:
  assumes "store_inv coll db" and "faults db = []" and "\<forall>r \<in> set (pipeline_runs db). \<not> in_flight coll inp r"
    and "has_number coll (criPipeline inp) db" and "coll (criTraceID inp) \<noteq> coll ''''"
  shows "\<exists>n db'. CreateRunOrGetActive coll level id inp db
      = (Inr \<lparr>crrRunNo = n, crrDeduped = False, crrExistingStatus = criStatus inp\<rparr>, db')
    \<and> pipeline_runs db' = pipeline_runs db @ [new_run_row coll inp n]
    \<and> (\<forall>r \<in> set (pipeline_runs db). coll (rowPipeline r) = coll (criPipeline inp) \<longrightarrow> rowRunNo r < n)"
  using created_run [OF assms, of level] by metis

text \<open>C11. Requests with one key share one run: on a healthy database \<open>CreateRunOrGetActive\<close> answers with the run in flight for
  the pipeline and the request key, changing nothing, when there is one; otherwise it creates exactly one run with
  the data of the request and a number above all runs of the pipeline. In both cases exactly one run of the
  key is in flight afterwards, run numbers stay unique, and every further request with this key, whatever its other data,
  gets the same number and status, is marked as deduplicated and changes nothing.\<close>

theorem requests_share_run:
  assumes "store_inv coll db" and "faults db = []" and "has_number coll (criPipeline inp) db"
    and "coll (criTraceID inp) \<noteq> coll ''''" and "coll (criRequestKey inp) \<noteq> coll ''''" and "criStatus inp = StatusQueued"
    and "coll (criPipeline inp') = coll (criPipeline inp)" and "coll (criRequestKey inp') = coll (criRequestKey inp)"
  shows "\<exists>res db'. CreateRunOrGetActive coll level id inp db = (Inr res, db')
    \<and> (if \<exists>r \<in> set (pipeline_runs db). in_flight coll inp r
       then db' = db \<and> crrDeduped res
         \<and> (\<exists>r \<in> set (pipeline_runs db). in_flight coll inp r \<and> crrRunNo res = rowRunNo r \<and> crrExistingStatus res = rowStatus r)
       else \<not> crrDeduped res \<and> crrExistingStatus res = StatusQueued
         \<and> pipeline_runs db' = pipeline_runs db @ [new_run_row coll inp (crrRunNo res)]
         \<and> (\<forall>r \<in> set (pipeline_runs db). coll (rowPipeline r) = coll (criPipeline inp) \<longrightarrow> rowRunNo r < crrRunNo res))
    \<and> length (filter (in_flight coll inp) (pipeline_runs db')) = 1
    \<and> distinct (map (\<lambda>r. (coll (rowPipeline r), rowRunNo r)) (pipeline_runs db'))
    \<and> CreateRunOrGetActive coll level' between inp' db'
        = (Inr \<lparr>crrRunNo = crrRunNo res, crrDeduped = True, crrExistingStatus = crrExistingStatus res\<rparr>, db')"
proof -
  have key: "criRequestKey inp \<noteq> ''''" "criRequestKey inp' \<noteq> ''''" using assms(5,8) by auto
  have same: "in_flight coll inp' = in_flight coll inp" using assms(7,8) by (simp add: in_flight_def fun_eq_iff)
  have again: "CreateRunOrGetActive coll level' between inp' d
      = (Inr \<lparr>crrRunNo = rowRunNo r, crrDeduped = True, crrExistingStatus = rowStatus r\<rparr>, d)"
    if "store_inv coll d" "faults d = []" "r \<in> set (pipeline_runs d)" "in_flight coll inp r" for d r
    using deduplicated [OF that(1,2) key(2) that(3)] that(4) same by simp
  have one: "length (filter (in_flight coll inp) (pipeline_runs d)) = 1"
    if "store_inv coll d" "r \<in> set (pipeline_runs d)" "in_flight coll inp r" for d r
  proof -
    have "runs_in_flight coll (criPipeline inp) (criRequestKey inp) (pipeline_runs d) = filter (in_flight coll inp) (pipeline_runs d)"
      using assms(5) by (auto simp: runs_in_flight_def in_flight_def active_request_key_def intro!: filter_cong split: option.splits)
    moreover have "length (runs_in_flight coll (criPipeline inp) (criRequestKey inp) (pipeline_runs d)) \<le> 1"
      using that(1) by (intro runs_in_flight_le_1) (simp add: store_inv_def uq_pipeline_runs_def)
    moreover have "filter (in_flight coll inp) (pipeline_runs d) \<noteq> []" using that(2,3) by (auto simp: filter_empty_conv)
    ultimately show ?thesis by (cases "filter (in_flight coll inp) (pipeline_runs d)") simp_all
  qed
  have numbers: "distinct (map (\<lambda>r. (coll (rowPipeline r), rowRunNo r)) (pipeline_runs d))" if "store_inv coll d" for d
    using that by (simp add: store_inv_def uq_pipeline_runs_def)
  show ?thesis
  proof (cases "\<exists>r \<in> set (pipeline_runs db). in_flight coll inp r")
    case True
    then obtain r where r: "r \<in> set (pipeline_runs db)" "in_flight coll inp r" by blast
    let ?res = "\<lparr>crrRunNo = rowRunNo r, crrDeduped = True, crrExistingStatus = rowStatus r\<rparr>"
    from deduplicated [OF assms(1,2) key(1) r, of level id] again [OF assms(1,2) r] one [OF assms(1) r] numbers [OF assms(1)] r True
    show ?thesis by (intro exI [of _ ?res] exI [of _ db]) auto
  next
    case False
    then have none: "\<forall>r \<in> set (pipeline_runs db). \<not> in_flight coll inp r" by blast
    obtain n db' where new: "CreateRunOrGetActive coll level id inp db
        = (Inr \<lparr>crrRunNo = n, crrDeduped = False, crrExistingStatus = criStatus inp\<rparr>, db')"
        "pipeline_runs db' = pipeline_runs db @ [new_run_row coll inp n]"
        "\<forall>r \<in> set (pipeline_runs db). coll (rowPipeline r) = coll (criPipeline inp) \<longrightarrow> rowRunNo r < n" "faults db' = []"
      by (rule created_run [OF assms(1,2) none assms(3,4)])
    have inv: "store_inv coll db'" by (rule wp_Inr [OF wp_CreateRunOrGetActive [OF assms(1)] new(1)]) simp
    let ?r = "new_run_row coll inp n"
    have r: "?r \<in> set (pipeline_runs db')" "in_flight coll inp ?r"
      using assms(5,6) by (simp_all add: new(2) in_flight_def new_run_row_def active_def NULLIF_def)
    have "rowRunNo ?r = n" "rowStatus ?r = criStatus inp" by (simp_all add: new_run_row_def)
    with new again [OF inv new(4) r] one [OF inv r] numbers [OF inv] False assms(6)
    show ?thesis by (intro exI [of _ "\<lparr>crrRunNo = n, crrDeduped = False, crrExistingStatus = criStatus inp\<rparr>"] exI [of _ db']) simp
  qed
qed

lemma requests_share_run_witness:
  "\<exists>res db'. CreateRunOrGetActive id RepeatableRead id demo_run_input empty_db = (Inr res, db')
    \<and> pipeline_runs db' = [new_run_row id demo_run_input (crrRunNo res)]
    \<and> CreateRunOrGetActive id ReadCommitted id (demo_run_input\<lparr>criGitHash := ''def''\<rparr>) db'
      = (Inr \<lparr>crrRunNo = crrRunNo res, crrDeduped = True, crrExistingStatus = StatusQueued\<rparr>, db')"
proof -
  have db: "faults empty_db = []" "pipeline_runs empty_db = []" "sequences empty_db = []" by (simp_all add: empty_db_def)
  from requests_share_run [OF store_inv_empty, of id demo_run_input "demo_run_input\<lparr>criGitHash := ''def''\<rparr>" RepeatableRead ReadCommitted id]
  obtain res db' where res: "CreateRunOrGetActive id RepeatableRead id demo_run_input empty_db = (Inr res, db')"
    "pipeline_runs db' = [new_run_row id demo_run_input (crrRunNo res)]" "crrExistingStatus res = StatusQueued"
    "CreateRunOrGetActive id ReadCommitted id (demo_run_input\<lparr>criGitHash := ''def''\<rparr>) db'
      = (Inr \<lparr>crrRunNo = crrRunNo res, crrDeduped = True, crrExistingStatus = crrExistingStatus res\<rparr>, db')"
    by (auto simp: db has_number_def demo_run_input_def)
  then show ?thesis by auto
qed

lemma CreateRunOrGetActive_creates_witness:
  "\<exists>n db'. CreateRunOrGetActive id RepeatableRead id demo_run_input empty_db
      = (Inr \<lparr>crrRunNo = n, crrDeduped = False, crrExistingStatus = StatusQueued\<rparr>, db')
    \<and> pipeline_runs db' = [new_run_row id demo_run_input n]"
  using CreateRunOrGetActive_creates [OF store_inv_empty, of id demo_run_input RepeatableRead]
  by (simp add: empty_db_def has_number_def demo_run_input_def)

text \<open>C23. The fallback on a duplicate key depends on the isolation level. Let another transaction commit a
  run of the same request after the first \<open>SELECT\<close> found none. Under \<open>READ COMMITTED\<close> the second
  \<open>SELECT\<close> finds it and the request joins that run; under \<open>REPEATABLE READ\<close>, the default of MySQL,
  the second \<open>SELECT\<close> reads the old snapshot and the call fails with \<open>sql.ErrNoRows\<close>.\<close>

theorem duplicate_key_fallback:
  assumes "store_inv coll db" and "faults db = []" and "\<forall>r \<in> set (pipeline_runs db). \<not> in_flight coll inp r"
    and "store_inv coll (between db)" and "r \<in> set (pipeline_runs (between db))" and "in_flight coll inp r"
    and "has_number coll (criPipeline inp) (between db)" and "coll (criTraceID inp) \<noteq> coll ''''"
    and "coll (criRequestKey inp) \<noteq> coll ''''" and "criStatus inp = StatusQueued"
  shows "fst (CreateRunOrGetActive coll ReadCommitted between inp db)
      = Inr \<lparr>crrRunNo = rowRunNo r, crrDeduped = True, crrExistingStatus = rowStatus r\<rparr>
    \<and> (\<exists>e. fst (CreateRunOrGetActive coll RepeatableRead between inp db) = Inl e \<and> errors_Is e ErrNoRows)"
proof -
  let ?db = "(between db)\<lparr>faults := []\<rparr>"
  have key: "criRequestKey inp \<noteq> ''''" using assms(9) by auto
  have inv: "store_inv coll ?db" and uq: "uq_pipeline_runs coll (pipeline_runs (between db))"
    and number: "has_number coll (criPipeline inp) ?db"
    using assms(4,7) by (simp_all add: store_inv_def has_number_def)
  obtain n db1 where tx: "createRunTx coll inp ?db = andthen (sql_insert_run coll inp n) (\<lambda>_. ret n) db1"
      "faults db1 = []" "pipeline_runs db1 = pipeline_runs (between db)"
  proof (rule createRunTx_no_fault [OF inv _ number])
    show "faults ?db = []" by simp
  qed (use that in simp)
  have "\<not> uq_pipeline_runs coll (pipeline_runs (between db) @ [new_run_row coll inp n])"
  proof
    assume "uq_pipeline_runs coll (pipeline_runs (between db) @ [new_run_row coll inp n])"
    then have "distinct (active_keys coll (pipeline_runs (between db) @ [new_run_row coll inp n]))"
      by (simp add: uq_pipeline_runs_def)
    moreover have "(coll (criPipeline inp), coll (criRequestKey inp)) \<in> set (active_keys coll (pipeline_runs (between db)))"
      using assms(5,6) by (auto simp: active_keys_def in_flight_def active_request_key_def COALESCE_def image_iff
          intro!: bexI [of _ r])
    ultimately show False
      using assms(9,10) by (simp add: active_keys_def new_run_row_def active_request_key_def active_def NULLIF_def COALESCE_def)
  qed
  then have failed: "createRunTx coll inp ?db = (Inl (mysql_error 1062), db1)"
    using tx assms(8) by (simp add: andthen_def sql_insert_run_def NULLIF_def Let_def)
  have dup: "isDuplicateKeyError (mysql_error 1062)" by (simp add: isDuplicateKeyError_def mysql_error_def)
  obtain e where none: "sql_select_active coll (criPipeline inp) (criRequestKey inp) (pipeline_runs db) = Inl e"
      "errors_Is e ErrNoRows" using select_active_none [OF assms(3)] by blast
  have found: "sql_select_active coll (criPipeline inp) (criRequestKey inp) (pipeline_runs db1)
      = Inr (rowRunNo r, rowStatus r)"
    unfolding tx(3) by (rule select_active_found [OF uq assms(5,6)])
  have "fst (CreateRunOrGetActive coll level between inp db)
      = fst (transaction (create_or_reselect coll level inp db) ?db)" for level
    using assms(2) none key by (simp add: CreateRunOrGetActive_def andthen_def Let_def)
  with failed dup found none tx(2) key show ?thesis
    by (simp add: transaction_def create_or_reselect_def andthen_def ret_def read_view_def sql_commit_def deduped_result_def)
qed

lemma duplicate_key_fallback_witness:
  "fst (CreateRunOrGetActive id ReadCommitted (\<lambda>_. demo_db) demo_run_input empty_db)
      = Inr \<lparr>crrRunNo = 1, crrDeduped = True, crrExistingStatus = StatusQueued\<rparr>
   \<and> (\<exists>e. fst (CreateRunOrGetActive id RepeatableRead (\<lambda>_. demo_db) demo_run_input empty_db) = Inl e
          \<and> errors_Is e ErrNoRows)"
proof -
  have runs: "pipeline_runs demo_db = [new_run_row id demo_run_input 1]" by code_simp
  have "in_flight id demo_run_input (new_run_row id demo_run_input 1)"
    by (simp add: in_flight_def active_def new_run_row_def demo_run_input_def NULLIF_def)
  moreover have "sequences demo_db = [(''demo'', 2)]" by code_simp
  then have "has_number id (criPipeline demo_run_input) demo_db" by (simp add: has_number_def INT_MAX_def)
  ultimately show ?thesis
    using duplicate_key_fallback [OF store_inv_empty, of id demo_run_input "\<lambda>_. demo_db" "new_run_row id demo_run_input 1"]
      demo_db_inv runs
    by (simp add: empty_db_def demo_run_input_def new_run_row_def)
qed

lemma GetRun_row:
  assumes "uq_pipeline_runs coll (pipeline_runs db)" and "faults db = []" and "r \<in> set (pipeline_runs db)"
    and "coll (rowPipeline r) = coll pipeline"
  shows "GetRun coll pipeline (rowRunNo r) db = (Inr (scanRun r), db)"
proof -
  have dist: "distinct (map (\<lambda>r. (coll (rowPipeline r), rowRunNo r)) (pipeline_runs db))"
    using assms(1) by (simp add: uq_pipeline_runs_def)
  have only: "r' = r" if "r' \<in> set (pipeline_runs db)" "coll (rowPipeline r') = coll pipeline" "rowRunNo r' = rowRunNo r" for r'
    using dist assms(3,4) that unfolding distinct_map inj_on_def by force
  have "set (filter (\<lambda>r'. coll (rowPipeline r') = coll pipeline \<and> rowRunNo r' = rowRunNo r) (pipeline_runs db)) \<subseteq> {r}"
    using only by auto
  moreover have "filter (\<lambda>r'. coll (rowPipeline r') = coll pipeline \<and> rowRunNo r' = rowRunNo r) (pipeline_runs db) \<noteq> []"
    using assms(3,4) by (auto simp: filter_empty_conv)
  ultimately obtain rest where
    "filter (\<lambda>r'. coll (rowPipeline r') = coll pipeline \<and> rowRunNo r' = rowRunNo r) (pipeline_runs db) = r # rest"
    by (cases "filter (\<lambda>r'. coll (rowPipeline r') = coll pipeline \<and> rowRunNo r' = rowRunNo r) (pipeline_runs db)")
      simp_all
  with assms(2) show ?thesis by (simp add: GetRun_def)
qed

text \<open>Reads see writes: after \<open>UpdateRun\<close> succeeded, \<open>GetRun\<close> of that run returns the old record with
  the new status, and with the new end time when one was given and the old one otherwise; every other
  run reads as before.\<close>

theorem GetRun_after_UpdateRun:
  assumes "store_inv coll db" and "faults db = []" and "UpdateRun coll pipeline n inp db = (Inr (), db')"
    and "r \<in> set (pipeline_runs db)"
  shows "fst (GetRun coll (rowPipeline r) (rowRunNo r) db')
    = Inr (if coll (rowPipeline r) = coll pipeline \<and> rowRunNo r = n
           then (scanRun r)\<lparr>runStatus := updStatus inp,
                  runEndTime := (case updEndTime inp of None \<Rightarrow> rowEndTime r | Some t \<Rightarrow> Some t)\<rparr>
           else scanRun r)"
proof -
  let ?upd = "\<lambda>r. if coll (rowPipeline r) = coll pipeline \<and> rowRunNo r = n
      then r\<lparr>rowEndTime := (case updEndTime inp of None \<Rightarrow> rowEndTime r | Some t \<Rightarrow> Some t), rowStatus := updStatus inp\<rparr>
      else r"
  have db': "uq_pipeline_runs coll (map ?upd (pipeline_runs db)) \<and> db' = db\<lparr>pipeline_runs := map ?upd (pipeline_runs db)\<rparr>"
  proof (cases "updEndTime inp")
    case None
    then have eq: "?upd = (\<lambda>r. if coll (rowPipeline r) = coll pipeline \<and> rowRunNo r = n
        then r\<lparr>rowStatus := updStatus inp\<rparr> else r)" by (auto simp: fun_eq_iff)
    show ?thesis
      unfolding eq using None assms(2,3) by (auto simp: UpdateRun_def sql_update_run_def Let_def split: if_splits)
  next
    case (Some t)
    then have eq: "?upd = (\<lambda>r. if coll (rowPipeline r) = coll pipeline \<and> rowRunNo r = n
        then r\<lparr>rowEndTime := Some t, rowStatus := updStatus inp\<rparr> else r)" by (auto simp: fun_eq_iff)
    show ?thesis
      unfolding eq using Some assms(2,3) by (auto simp: UpdateRun_def sql_update_run_def Let_def split: if_splits)
  qed
  have "GetRun coll (rowPipeline r) (rowRunNo (?upd r)) db' = (Inr (scanRun (?upd r)), db')"
    by (rule GetRun_row) (use db' assms(2,4) in auto)
  then show ?thesis
    by (cases "coll (rowPipeline r) = coll pipeline \<and> rowRunNo r = n") (auto simp: scanRun_def)
qed

lemma GetRun_after_UpdateRun_witness:
  "map_sum (\<lambda>_. ()) runStatus (fst (GetRun id ''demo'' 1
     (snd (UpdateRun id ''demo'' 1 \<lparr>updEndTime = Some 9, updStatus = StatusSuccess\<rparr> demo_db)))) = Inr StatusSuccess"
proof -
  let ?upd = "\<lparr>updEndTime = Some 9, updStatus = StatusSuccess\<rparr>"
  obtain db' where db': "UpdateRun id ''demo'' 1 ?upd demo_db = (Inr (), db')"
  proof -
    have "fst (UpdateRun id ''demo'' 1 ?upd demo_db) = Inr ()" by code_simp
    then show ?thesis using that by (metis prod.collapse)
  qed
  have "pipeline_runs demo_db = [new_run_row id demo_run_input 1]" and "faults demo_db = []" by code_simp+
  with GetRun_after_UpdateRun [OF demo_db_inv _ db', of "new_run_row id demo_run_input 1"] db' show ?thesis
    by (simp add: new_run_row_def demo_run_input_def)
qed

text \<open>A run without a trace id is refused: the column is \<open>NOT NULL\<close> (migration 003) and the statement
  inserts \<open>NULLIF(?,'')\<close>, so the insert fails with error 1048 whatever else the request holds.\<close>

lemma CreateRun_empty_trace_id:
  assumes "criTraceID inp = ''''"
  shows "\<exists>e db'. CreateRun coll inp db = (Inl e, db')"
proof -
  have "wp (CreateRun coll inp) (\<lambda>_ _. False) (\<lambda>_ _. True) db"
    unfolding CreateRun_def wp_andthen
  proof (rule wp_begin)
    fix fs
    have insert: "wp (exec (sql_insert_run coll inp n)) (\<lambda>_ _. False) (\<lambda>_ _. True) d" for n d
      by (rule wp_exec) (simp_all add: wp_def sql_insert_run_def assms NULLIF_def Let_def)
    have "wp (createRunTx coll inp) (\<lambda>_ _. False) (\<lambda>_ _. True) (db\<lparr>faults := fs\<rparr>)"
      unfolding createRunTx_def wp_andthen wp_if wp_fail
      by (auto simp: insert wp_def [of "exec sql_last_insert_id"] wp_def [of "exec (sql_next_run_no coll p)" for p]
          split: prod.split sum.split)
    then show "wp (transaction (createRunTx coll inp)) (\<lambda>_ _. False) (\<lambda>_ _. True) (db\<lparr>faults := fs\<rparr>)"
      by (rule wp_transaction) simp_all
  qed simp
  then show ?thesis by (cases "CreateRun coll inp db") (auto simp: wp_def split: sum.splits)
qed

section \<open>Finishing runs, stages and jobs\<close>

text \<open>The tables after a row got its final status and end time.\<close>

definition finish_run_rows :: "(string \<Rightarrow> string) \<Rightarrow> string \<Rightarrow> int \<Rightarrow> int \<Rightarrow> string \<Rightarrow> run_row list \<Rightarrow> run_row list" where
  "finish_run_rows coll p n t status =
     map (\<lambda>r. if coll (rowPipeline r) = coll p \<and> rowRunNo r = n
              then r\<lparr>rowEndTime := Some t, rowStatus := status\<rparr> else r)"

definition finish_stage_rows ::
  "(string \<Rightarrow> string) \<Rightarrow> string \<Rightarrow> int \<Rightarrow> string \<Rightarrow> int \<Rightarrow> string \<Rightarrow> StageRun list \<Rightarrow> StageRun list" where
  "finish_stage_rows coll p n s t status =
     map (\<lambda>r. if coll (srPipeline r) = coll p \<and> srRunNo r = n \<and> coll (srStage r) = coll s
              then r\<lparr>srEndTime := Some t, srStatus := status\<rparr> else r)"

definition finish_job_rows ::
  "(string \<Rightarrow> string) \<Rightarrow> string \<Rightarrow> int \<Rightarrow> string \<Rightarrow> string \<Rightarrow> int \<Rightarrow> string \<Rightarrow> JobRun list \<Rightarrow> JobRun list" where
  "finish_job_rows coll p n s j t status =
     map (\<lambda>r. if coll (jrPipeline r) = coll p \<and> jrRunNo r = n \<and> coll (jrStage r) = coll s \<and> coll (jrJob r) = coll j
              then r\<lparr>jrEndTime := Some t, jrStatus := status\<rparr> else r)"

definition inactive_status :: "(string \<Rightarrow> string) \<Rightarrow> string \<Rightarrow> bool" where
  "inactive_status coll status \<longleftrightarrow> coll status \<noteq> coll StatusQueued \<and> coll status \<noteq> coll StatusRunning"

text \<open>A terminal status takes a run out of the unique key of active requests, so the update of the run
  cannot violate it.\<close>

lemma uq_finish_run_rows:
  assumes uq: "uq_pipeline_runs coll rows" and status: "inactive_status coll status"
  shows "uq_pipeline_runs coll (finish_run_rows coll p n t status rows)"
proof -
  let ?hit = "\<lambda>r. coll (rowPipeline r) = coll p \<and> rowRunNo r = n"
  let ?upd = "\<lambda>r. if ?hit r then r\<lparr>rowEndTime := Some t, rowStatus := status\<rparr> else r"
  let ?live = "\<lambda>r. active_request_key coll r \<noteq> None"
  let ?key = "\<lambda>r. (coll (rowPipeline r), coll (COALESCE (active_request_key coll r)))"
  have live: "?live (?upd r) \<longleftrightarrow> \<not> ?hit r \<and> ?live r" for r
    using status by (auto simp: active_request_key_def active_def inactive_status_def)
  have "map ?key (filter ?live (map ?upd rows)) = map ?key (filter (\<lambda>r. \<not> ?hit r) (filter ?live rows))"
    unfolding filter_map comp_def live
    by (induction rows) auto
  moreover have "distinct (map ?key (filter ?live rows))"
    using uq by (simp add: uq_pipeline_runs_def active_keys_def)
  ultimately have "distinct (map ?key (filter ?live (map ?upd rows)))" by (simp only: distinct_map_filter)
  then have "distinct (active_keys coll (finish_run_rows coll p n t status rows))"
    unfolding active_keys_def finish_run_rows_def .
  moreover have "map (\<lambda>r. (coll (rowPipeline r), rowRunNo r)) (finish_run_rows coll p n t status rows)
      = map (\<lambda>r. (coll (rowPipeline r), rowRunNo r)) rows"
    by (simp add: finish_run_rows_def comp_def)
  ultimately show ?thesis using uq by (simp add: uq_pipeline_runs_def)
qed

lemma UpdateRun_finish:
  assumes "faults db = []" and "uq_pipeline_runs coll (pipeline_runs db)" and "inactive_status coll status"
  shows "UpdateRun coll p n \<lparr>updEndTime = Some t, updStatus = status\<rparr> db
    = (Inr (), db\<lparr>pipeline_runs := finish_run_rows coll p n t status (pipeline_runs db)\<rparr>)"
  using uq_finish_run_rows [OF assms(2,3), of p n t] assms(1)
  by (simp add: UpdateRun_def sql_update_run_def finish_run_rows_def Let_def)

lemma UpdateStage_finish:
  "faults db = [] \<Longrightarrow> UpdateStage coll p n s \<lparr>updEndTime = Some t, updStatus = status\<rparr> db
    = (Inr (), db\<lparr>stage_runs := finish_stage_rows coll p n s t status (stage_runs db)\<rparr>)"
  by (simp add: UpdateStage_def sql_update_stage_def finish_stage_rows_def)

lemma UpdateJob_finish:
  "faults db = [] \<Longrightarrow> UpdateJob coll p n s j \<lparr>updEndTime = Some t, updStatus = status\<rparr> db
    = (Inr (), db\<lparr>job_runs := finish_job_rows coll p n s j t status (job_runs db)\<rparr>)"
  by (simp add: UpdateJob_def sql_update_job_def finish_job_rows_def)

lemmas update_finish = UpdateRun_finish UpdateStage_finish UpdateJob_finish

end
