(* ===== verification/Gostd.thy ===== *)
theory Gostd
  imports Prelude "HOL-Library.Word"
begin

text \<open>
  The parts of Go's standard library that several services use: \<open>strconv.ParseInt\<close> and
  \<open>strconv.Atoi\<close> on base 10 with 64-bit range checks, the lexical path functions of \<open>path\<close> and
  \<open>path/filepath\<close> (on Unix), and \<open>config.GetEnvOrDefault\<close>. Shown: a printed integer is parsed back, a
  parsed one is in range, and the algebra of clean absolute paths that path confinement rests on.
\<close>

section \<open>Numbers\<close>

datatype num_err = ErrSyntax | ErrRange

definition maxUint64 :: nat where "maxUint64 = 2 ^ 64 - 1"

definition is_digit :: "char \<Rightarrow> bool" where
  "is_digit c \<longleftrightarrow> 48 \<le> (of_char c :: nat) \<and> (of_char c :: nat) \<le> 57"

text \<open>The digit loop of \<open>ParseUint\<close>: the range check comes before the rest of the text is looked at.\<close>

fun parse_digits :: "nat \<Rightarrow> string \<Rightarrow> num_err + nat" where
  "parse_digits n [] = Inr n"
| "parse_digits n (c # s) =
     (if \<not> is_digit c then Inl ErrSyntax
      else if maxUint64 < 10 * n + (of_char c - 48) then Inl ErrRange
      else parse_digits (10 * n + (of_char c - 48)) s)"

definition ParseUint :: "string \<Rightarrow> num_err + nat" where
  "ParseUint s = (if s = [] then Inl ErrSyntax else parse_digits 0 s)"

definition parse_signed :: "bool \<Rightarrow> string \<Rightarrow> num_err + int" where
  "parse_signed neg s =
     (case ParseUint s of
        Inl e \<Rightarrow> Inl e
      | Inr un \<Rightarrow>
          if \<not> neg \<and> 2 ^ 63 \<le> un then Inl ErrRange
          else if neg \<and> 2 ^ 63 < un then Inl ErrRange
          else Inr (if neg then - int un else int un))"

definition parse_int :: "string \<Rightarrow> num_err + int" where
  "parse_int s =
     (case s of
        [] \<Rightarrow> Inl ErrSyntax
      | c # s1 \<Rightarrow>
          if c = CHR ''+'' then parse_signed False s1
          else if c = CHR ''-'' then parse_signed True s1
          else parse_signed False s)"

definition num_error :: "string \<Rightarrow> string \<Rightarrow> num_err \<Rightarrow> goerr" where
  "num_error fname s e =
     Errorf (''strconv.'' @ fname @ '': parsing '' @ quoted s @ '': '' @
       (case e of ErrSyntax \<Rightarrow> ''invalid syntax'' | ErrRange \<Rightarrow> ''value out of range''))"

text \<open>\<open>strconv.ParseInt(s, 10, 64)\<close> and \<open>strconv.Atoi(s)\<close>.\<close>

definition ParseInt64 :: "string \<Rightarrow> goerr + int" where
  "ParseInt64 s = map_sum (num_error ''ParseInt'' s) id (parse_int s)"

definition Atoi :: "string \<Rightarrow> goerr + int" where
  "Atoi s = map_sum (num_error ''Atoi'' s) id (parse_int s)"

lemmas parse_defs = ParseInt64_def Atoi_def parse_int_def parse_signed_def ParseUint_def is_digit_def maxUint64_def

lemma is_digit_digit [simp]: "n < 10 \<Longrightarrow> is_digit (digit n)"
  by (simp add: is_digit_def of_digit)

lemma parse_digits_append:
  "parse_digits n (s @ t) = (case parse_digits n s of Inl e \<Rightarrow> Inl e | Inr m \<Rightarrow> parse_digits m t)"
  by (induction n s rule: parse_digits.induct) auto

lemma parse_digits_decimal: "n \<le> maxUint64 \<Longrightarrow> parse_digits 0 (decimal n) = Inr n"
proof (induction n rule: decimal.induct)
  case (1 n)
  show ?case
  proof (cases "n < 10")
    case True
    with "1.prems" show ?thesis by (subst decimal.simps) (simp add: of_digit)
  next
    case False
    with "1.prems" have "n div 10 \<le> maxUint64" by (meson div_le_dividend le_trans)
    with 1 False show ?thesis
      by (subst decimal.simps) (simp add: parse_digits_append of_digit mult.commute)
  qed
qed

lemma decimal_not_Nil [simp]: "decimal n \<noteq> []"
  by (subst decimal.simps) simp

lemma ParseUint_decimal: "n \<le> maxUint64 \<Longrightarrow> ParseUint (decimal n) = Inr n"
  by (simp add: ParseUint_def parse_digits_decimal)

lemma sign_notin_decimal: "decimal n \<noteq> CHR ''+'' # s" "decimal n \<noteq> CHR ''-'' # s"
  using notin_decimal [of "CHR ''+''" n] notin_decimal [of "CHR ''-''" n] by auto

lemma parse_int_Itoa:
  assumes "- (2 ^ 63) \<le> i" and "i < 2 ^ 63"
  shows "parse_int (Itoa i) = Inr i"
proof (cases "i < 0")
  case True
  with assms have "nat (- i) \<le> 2 ^ 63" by simp
  then show ?thesis
    using True ParseUint_decimal [of "nat (- i)"]
    by (simp add: Itoa_def parse_int_def parse_signed_def maxUint64_def)
next
  case False
  obtain c s where d: "decimal (nat i) = c # s" by (meson decimal_not_Nil neq_Nil_conv)
  with sign_notin_decimal [of "nat i"] have "c \<noteq> CHR ''+''" "c \<noteq> CHR ''-''" by auto
  moreover have "nat i < 2 ^ 63" using False assms by simp
  ultimately show ?thesis
    using False d ParseUint_decimal [of "nat i"]
    by (simp add: Itoa_def parse_int_def parse_signed_def maxUint64_def)
qed

lemma Atoi_Itoa: "- (2 ^ 63) \<le> i \<Longrightarrow> i < 2 ^ 63 \<Longrightarrow> Atoi (Itoa i) = Inr i"
  by (simp add: Atoi_def parse_int_Itoa)

lemma parse_int_range:
  assumes "parse_int s = Inr i"
  shows "- (2 ^ 63) \<le> i \<and> i < 2 ^ 63"
proof -
  have "parse_signed neg t = Inr i \<Longrightarrow> - (2 ^ 63) \<le> i \<and> i < 2 ^ 63" for neg t
    by (auto simp: parse_signed_def split: sum.splits if_splits)
  with assms show ?thesis by (auto simp: parse_int_def split: list.splits if_splits)
qed

lemma ParseInt64_range: "ParseInt64 s = Inr i \<Longrightarrow> - (2 ^ 63) \<le> i \<and> i < 2 ^ 63"
  by (cases "parse_int s") (auto simp: ParseInt64_def dest: parse_int_range)

lemma Atoi_range: "Atoi s = Inr i \<Longrightarrow> - (2 ^ 63) \<le> i \<and> i < 2 ^ 63"
  by (cases "parse_int s") (auto simp: Atoi_def dest: parse_int_range)

section \<open>Text and settings\<close>

text \<open>\<open>strings.ToLower\<close> on ASCII text, \<open>strings.ReplaceAll\<close> of one byte by another, and
  \<open>config.GetEnvOrDefault\<close> with its variant for base URLs.\<close>

definition lower_char :: "char \<Rightarrow> char" where
  "lower_char c = (let n = of_char c :: nat in if 65 \<le> n \<and> n \<le> 90 then char_of (n + 32) else c)"

definition ToLower :: "string \<Rightarrow> string" where
  "ToLower s = map lower_char s"

definition replace_char :: "char \<Rightarrow> char \<Rightarrow> string \<Rightarrow> string" where
  "replace_char old new s = map (\<lambda>c. if c = old then new else c) s"

definition GetEnvOrDefault :: "(string \<Rightarrow> string) \<Rightarrow> string \<Rightarrow> string \<Rightarrow> string" where
  "GetEnvOrDefault getenv key fallback =
     (let v = TrimSpace (getenv key) in if v = '''' then fallback else v)"

definition GetEnvOrDefaultURL :: "(string \<Rightarrow> string) \<Rightarrow> string \<Rightarrow> string \<Rightarrow> string" where
  "GetEnvOrDefaultURL getenv key fallback = TrimRight (GetEnvOrDefault getenv key fallback) (CHR ''/'')"

definition DefaultGatewayURL :: string where "DefaultGatewayURL = ''http://localhost:8000''"
definition DefaultValidationURL :: string where "DefaultValidationURL = ''http://localhost:8001''"
definition DefaultOrchestratorURL :: string where "DefaultOrchestratorURL = ''http://localhost:8002''"
definition DefaultReportingURL :: string where "DefaultReportingURL = ''http://localhost:8004''"
definition DefaultPipelineDir :: string where "DefaultPipelineDir = ''.pipelines''"

text \<open>Trimming twice is trimming once, and a printed number is not trimmed.\<close>

definition no_space_front :: "string list \<Rightarrow> string \<Rightarrow> bool" where
  "no_space_front ps s \<longleftrightarrow> find (\<lambda>p. p \<noteq> [] \<and> HasPrefix s p) ps = None"

lemma strip_front_id: "no_space_front ps s \<Longrightarrow> strip_front ps s = s"
  by (subst strip_front.simps) (simp add: no_space_front_def)

lemma strip_front_normal: "no_space_front ps (strip_front ps s)"
proof (induction ps s rule: strip_front.induct)
  case (1 ps s)
  then show ?case
    by (subst strip_front.simps) (auto simp: no_space_front_def split: option.split)
qed

lemma strip_front_drop: "\<exists>k. strip_front ps s = drop k s"
proof (induction ps s rule: strip_front.induct)
  case (1 ps s)
  show ?case
  proof (cases "find (\<lambda>p. p \<noteq> [] \<and> HasPrefix s p) ps")
    case None
    then show ?thesis by (subst strip_front.simps) (auto intro: exI [of _ 0])
  next
    case (Some p)
    with 1 obtain k where "strip_front ps (drop (length p) s) = drop k (drop (length p) s)" by blast
    with Some show ?thesis by (subst strip_front.simps) (auto simp: drop_drop)
  qed
qed

lemma no_space_front_take:
  assumes "no_space_front ps s"
  shows "no_space_front ps (take k s)"
proof -
  have "\<not> (p \<noteq> [] \<and> HasPrefix (take k s) p)" if "p \<in> set ps" for p
  proof
    assume "p \<noteq> [] \<and> HasPrefix (take k s) p"
    then have "p \<noteq> []" and t: "take (length p) (take k s) = p" by (auto simp: HasPrefix_def)
    then have "length p \<le> k" by (metis length_take min.bounded_iff min.commute take_take nle_le)
    with t have "HasPrefix s p" by (simp add: HasPrefix_def min_def)
    with assms that \<open>p \<noteq> []\<close> show False by (auto simp: no_space_front_def find_None_iff)
  qed
  then show ?thesis by (simp add: no_space_front_def find_None_iff)
qed

lemma TrimSpace_id:
  assumes "no_space_front utf8_spaces s" and "no_space_front (map rev utf8_spaces) (rev s)"
  shows "TrimSpace s = s"
  using assms by (simp add: TrimSpace_def TrimLeftSpace_def TrimRightSpace_def strip_front_id)

lemma TrimSpace_idem [simp]: "TrimSpace (TrimSpace s) = TrimSpace s"
proof -
  obtain k where "strip_front (map rev utf8_spaces) (rev (TrimLeftSpace s)) = drop k (rev (TrimLeftSpace s))"
    using strip_front_drop by blast
  then have "TrimSpace s = take (length (TrimLeftSpace s) - k) (TrimLeftSpace s)"
    by (simp add: TrimSpace_def TrimRightSpace_def drop_rev)
  then have "no_space_front utf8_spaces (TrimSpace s)"
    using no_space_front_take [OF strip_front_normal] by (simp add: TrimLeftSpace_def)
  moreover have "no_space_front (map rev utf8_spaces) (rev (TrimSpace s))"
    using strip_front_normal by (simp add: TrimSpace_def TrimRightSpace_def)
  ultimately show ?thesis by (rule TrimSpace_id)
qed

lemma TrimSpace_Nil [simp]: "TrimSpace [] = []"
  by (rule TrimSpace_id) (auto simp: no_space_front_def find_None_iff HasPrefix_def)

lemma no_space_front_hd:
  "s \<noteq> [] \<Longrightarrow> \<forall>p \<in> set ps. p \<noteq> [] \<longrightarrow> hd p \<noteq> hd s \<Longrightarrow> no_space_front ps s"
  unfolding no_space_front_def find_None_iff HasPrefix_def by (metis hd_take length_greater_0_conv)

lemma last_decimal: "last (decimal n) = digit (n mod 10)"
  by (subst decimal.simps) simp

lemma not_space_char: "(of_char c :: nat) < 9 \<or> 13 < (of_char c :: nat) \<Longrightarrow> (of_char c :: nat) \<noteq> 32 \<Longrightarrow> (of_char c :: nat) < 128 \<Longrightarrow>
    \<forall>p \<in> set utf8_spaces. hd p \<noteq> c \<and> last p \<noteq> c"
  by (auto simp: utf8_spaces_def)

lemma TrimSpace_Itoa [simp]: "TrimSpace (Itoa i) = Itoa i"
proof -
  have ne: "Itoa i \<noteq> []" by (simp add: Itoa_def)
  have "hd (Itoa i) = CHR ''-'' \<or> (\<exists>d < 10. hd (Itoa i) = digit d)"
    using set_decimal [of "hd (decimal (nat i))" "nat i"] by (auto simp: Itoa_def)
  then have f: "\<forall>p \<in> set utf8_spaces. hd p \<noteq> hd (Itoa i)"
    using not_space_char [of "hd (Itoa i)"] by (auto simp: of_digit)
  have "\<exists>d < 10. last (Itoa i) = digit d"
    by (auto simp: Itoa_def last_decimal intro: exI [of _ "nat i mod 10"] exI [of _ "nat (- i) mod 10"])
  then have l: "\<forall>p \<in> set utf8_spaces. last p \<noteq> last (Itoa i)"
    using not_space_char [of "last (Itoa i)"] by (auto simp: of_digit)
  have "no_space_front utf8_spaces (Itoa i)" using ne f by (intro no_space_front_hd) auto
  moreover have "no_space_front (map rev utf8_spaces) (rev (Itoa i))"
    using ne l by (intro no_space_front_hd) (auto simp: hd_rev)
  ultimately show ?thesis by (rule TrimSpace_id)
qed

section \<open>Paths\<close>

fun split_on :: "char \<Rightarrow> string \<Rightarrow> string list" where
  "split_on d [] = [[]]"
| "split_on d (c # s) =
     (if c = d then [] # split_on d s
      else (case split_on d s of [] \<Rightarrow> [[c]] | x # xs \<Rightarrow> (c # x) # xs))"

abbreviation slash :: char where "slash \<equiv> CHR ''/''"

text \<open>\<open>Clean\<close> runs over the elements between slashes, with its output as a stack: empty elements and \<open>.\<close>
  are dropped, \<open>..\<close> takes back the element before it, is dropped at the root and kept at the front of
  a relative path.\<close>

definition clean_elem :: "bool \<Rightarrow> string list \<Rightarrow> string \<Rightarrow> string list" where
  "clean_elem rooted out e =
     (if e = '''' \<or> e = ''.'' then out
      else if e = ''..'' then
        (case out of
           [] \<Rightarrow> if rooted then [] else [e]
         | x # out1 \<Rightarrow> if x = ''..'' then e # out else out1)
      else e # out)"

definition IsAbs :: "string \<Rightarrow> bool" where
  "IsAbs p \<longleftrightarrow> HasPrefix p ''/''"

definition elements :: "string \<Rightarrow> string list" where
  "elements p = rev (foldl (clean_elem (IsAbs p)) [] (split_on slash p))"

definition path_string :: "bool \<Rightarrow> string list \<Rightarrow> string" where
  "path_string rooted es =
     (if es = [] then (if rooted then ''/'' else ''.'') else (if rooted then ''/'' else '''') @ Join es ''/'')"

definition filepath_Clean :: "string \<Rightarrow> string" where
  "filepath_Clean p = path_string (IsAbs p) (elements p)"

definition filepath_Join :: "string \<Rightarrow> string \<Rightarrow> string" where
  "filepath_Join a b =
     (if a \<noteq> '''' then filepath_Clean (a @ ''/'' @ b)
      else if b \<noteq> '''' then filepath_Clean b
      else '''')"

text \<open>\<open>path.Base\<close> and \<open>filepath.Base\<close>; \<open>filepath.Ext\<close>, the text from the last dot of the last element.\<close>

definition path_Base :: "string \<Rightarrow> string" where
  "path_Base p =
     (if p = '''' then ''.''
      else let b = last (split_on slash (TrimRight p slash)) in if b = '''' then ''/'' else b)"

definition filepath_Ext :: "string \<Rightarrow> string" where
  "filepath_Ext p =
     (let b = rev (last (split_on slash p)); e = takeWhile (\<lambda>c. c \<noteq> CHR ''.'') b in
      if length e = length b then '''' else CHR ''.'' # rev e)"

text \<open>\<open>filepath.Rel\<close>: up from what is left of the base after the common elements, then down the rest of
  the target. It fails when only one of the paths is absolute, and when it would have to leave a
  directory whose name is not known. The sources call it on absolute paths.\<close>

fun drop_common :: "string list \<Rightarrow> string list \<Rightarrow> string list \<times> string list" where
  "drop_common (b # bs) (t # ts) = (if b = t then drop_common bs ts else (b # bs, t # ts))"
| "drop_common bs ts = (bs, ts)"

definition filepath_Rel :: "string \<Rightarrow> string \<Rightarrow> goerr + string" where
  "filepath_Rel basepath targpath =
     (let err = Inl (Errorf (''Rel: can'' @ [CHR 0x27] @ ''t make '' @ targpath @ '' relative to '' @ basepath)) in
      if IsAbs basepath \<noteq> IsAbs targpath then err
      else
        (case drop_common (elements basepath) (elements targpath) of
           (bs, ts) \<Rightarrow>
             if bs \<noteq> [] \<and> hd bs = ''..'' then err
             else Inr (path_string False (replicate (length bs) ''..'' @ ts))))"

text \<open>\<open>pathEscapesParent\<close> of \<open>gitutil\<close> and \<open>pipelinepath\<close>.\<close>

definition pathEscapesParent :: "string \<Rightarrow> bool" where
  "pathEscapesParent p \<longleftrightarrow> p = ''..'' \<or> HasPrefix p ''../''"

section \<open>Clean paths\<close>

text \<open>An element of a clean absolute path.\<close>

definition plain :: "string \<Rightarrow> bool" where
  "plain e \<longleftrightarrow> e \<noteq> '''' \<and> e \<noteq> ''.'' \<and> e \<noteq> ''..'' \<and> slash \<notin> set e"

lemma split_on_not_Nil [simp]: "split_on d s \<noteq> []"
  by (cases s) (auto split: list.splits)

lemma split_on_no_sep: "d \<notin> set s \<Longrightarrow> split_on d s = [s]"
  by (induction s) auto

lemma split_on_append: "d \<notin> set x \<Longrightarrow> split_on d (x @ d # s) = x # split_on d s"
  by (induction x) auto

lemma notin_split_on: "e \<in> set (split_on d s) \<Longrightarrow> d \<notin> set e"
proof (induction s arbitrary: e)
  case (Cons c s)
  then show ?case by (cases "split_on d s") (auto split: if_splits)
qed simp

lemma split_on_Join: "es \<noteq> [] \<Longrightarrow> \<forall>e \<in> set es. d \<notin> set e \<Longrightarrow> split_on d (Join es [d]) = es"
proof (induction es "[d]" rule: Join.induct)
  case (3 x y xs)
  then show ?case using split_on_append [of d x] by simp
qed (simp_all add: split_on_no_sep)

lemma clean_elem_plain: "plain e \<Longrightarrow> clean_elem r out e = e # out"
  by (simp add: clean_elem_def plain_def)

lemma foldl_clean_plain: "\<forall>e \<in> set es. plain e \<Longrightarrow> foldl (clean_elem r) out es = rev es @ out"
  by (induction es arbitrary: out) (simp_all add: clean_elem_plain)

lemma foldl_clean_elem_plain:
  assumes "\<forall>e \<in> set es. slash \<notin> set e" and "\<forall>e \<in> set out. plain e"
  shows "\<forall>e \<in> set (foldl (clean_elem True) out es). plain e"
  using assms
proof (induction es arbitrary: out)
  case (Cons e es)
  have "\<forall>x \<in> set (clean_elem True out e). plain x"
    using Cons.prems by (auto simp: clean_elem_def plain_def split: list.splits if_splits)
  with Cons show ?case by simp
qed simp

lemma IsAbs_path_string [simp]: "IsAbs (path_string True es)"
  by (simp add: IsAbs_def path_string_def HasPrefix_def)

lemma elements_plain: "IsAbs p \<Longrightarrow> e \<in> set (elements p) \<Longrightarrow> plain e"
  using foldl_clean_elem_plain [of "split_on slash p" "[]"] notin_split_on [of _ slash p]
  unfolding elements_def by auto

lemma elements_path_string:
  assumes "\<forall>e \<in> set es. plain e"
  shows "elements (path_string True es) = es"
proof (cases "es = []")
  case False
  have "split_on slash (''/'' @ Join es ''/'') = '''' # es"
    using assms False by (simp add: split_on_Join plain_def)
  then have "foldl (clean_elem True) [] (split_on slash (path_string True es)) = rev es"
    using False assms by (simp add: path_string_def foldl_clean_plain) (simp add: clean_elem_def foldl_clean_plain)
  then show ?thesis by (simp add: elements_def)
qed (simp add: elements_def path_string_def IsAbs_def HasPrefix_def clean_elem_def)

lemma IsAbs_Clean [simp]: "IsAbs p \<Longrightarrow> IsAbs (filepath_Clean p)"
  by (simp add: filepath_Clean_def)

lemma elements_Clean [simp]: "IsAbs p \<Longrightarrow> elements (filepath_Clean p) = elements p"
  by (simp add: filepath_Clean_def elements_path_string elements_plain)

lemma Clean_idem: "IsAbs p \<Longrightarrow> filepath_Clean (filepath_Clean p) = filepath_Clean p"
  by (simp add: filepath_Clean_def elements_path_string elements_plain)

end
