(* ===== verification/Query_String.thy ===== *)
theory Query_String
  imports Gostd Http "HOL-Library.Char_ord" "HOL-Library.List_Lexorder"
begin

text \<open>
  Query strings of URLs, as \<open>net/url\<close> writes and reads them: escaping of a component, \<open>Values.Encode\<close> (keys in
  order), \<open>ParseQuery\<close>, and the request that a server sees for a URL. The CLI and the gateway build
  report queries with it and the gateway and the reporting service read them. Shown: reading back what
  was written gives the values, whatever bytes they consist of.
\<close>

section \<open>Escaping\<close>

definition unreserved :: "char \<Rightarrow> bool" where
  "unreserved c \<longleftrightarrow>
     (let n = of_char c :: nat in (97 \<le> n \<and> n \<le> 122) \<or> (65 \<le> n \<and> n \<le> 90) \<or> (48 \<le> n \<and> n \<le> 57)
        \<or> n = 45 \<or> n = 95 \<or> n = 46 \<or> n = 126)"

definition upper_hex :: "nat \<Rightarrow> char" where
  "upper_hex n = char_of (if n < 10 then 48 + n else 55 + n)"

definition escape_byte :: "char \<Rightarrow> string" where
  "escape_byte c =
     (if unreserved c then [c]
      else if c = CHR '' '' then ''+''
      else [CHR ''%'', upper_hex (of_char c div 16), upper_hex (of_char c mod 16)])"

definition QueryEscape :: "string \<Rightarrow> string" where
  "QueryEscape s = concat (map escape_byte s)"

definition unhex :: "char \<Rightarrow> nat option" where
  "unhex c =
     (let n = of_char c :: nat in
      if 48 \<le> n \<and> n \<le> 57 then Some (n - 48)
      else if 97 \<le> n \<and> n \<le> 102 then Some (n - 87)
      else if 65 \<le> n \<and> n \<le> 70 then Some (n - 55)
      else None)"

fun QueryUnescape :: "string \<Rightarrow> string option" where
  "QueryUnescape [] = Some []"
| "QueryUnescape (c # s) =
     (if c = CHR ''%'' then
        (case s of
           a # b # rest \<Rightarrow>
             (case (unhex a, unhex b) of
                (Some x, Some y) \<Rightarrow> map_option ((#) (char_of (16 * x + y))) (QueryUnescape rest)
              | _ \<Rightarrow> None)
         | _ \<Rightarrow> None)
      else if c = CHR ''+'' then map_option ((#) (CHR '' '')) (QueryUnescape s)
      else map_option ((#) c) (QueryUnescape s))"

section \<open>Query strings\<close>

text \<open>\<open>url.Values\<close> with one value for each key.\<close>

definition encode_pair :: "string \<times> string \<Rightarrow> string" where
  "encode_pair kv = QueryEscape (fst kv) @ ''='' @ QueryEscape (snd kv)"

definition Values_Encode :: "(string \<times> string) list \<Rightarrow> string" where
  "Values_Encode vs = Join (map encode_pair (sort_key fst vs)) ''&''"

definition Cut :: "string \<Rightarrow> char \<Rightarrow> string \<times> string" where
  "Cut s c = (takeWhile (\<lambda>x. x \<noteq> c) s, drop 1 (dropWhile (\<lambda>x. x \<noteq> c) s))"

definition parse_pair :: "string \<Rightarrow> (string \<times> string) list" where
  "parse_pair s =
     (if CHR '';'' \<in> set s \<or> s = '''' then []
      else
        (let (k, v) = Cut s (CHR ''='') in
         case (QueryUnescape k, QueryUnescape v) of (Some key, Some val) \<Rightarrow> [(key, val)] | _ \<Rightarrow> []))"

definition ParseQuery :: "string \<Rightarrow> (string \<times> string) list" where
  "ParseQuery s = concat (map parse_pair (split_on (CHR ''&'') s))"

definition Query_Get :: "http_request \<Rightarrow> string \<Rightarrow> string" where
  "Query_Get r key = (case map_of (hrQuery r) key of None \<Rightarrow> '''' | Some v \<Rightarrow> v)"

text \<open>The request a server at \<open>base\<close> sees when a client sends it to a URL.\<close>

definition server_request :: "string \<Rightarrow> string \<Rightarrow> string \<Rightarrow> goerr + string \<Rightarrow> http_request" where
  "server_request base method url body =
     (let (path, query) = Cut (TrimPrefix url base) (CHR ''?'')
      in \<lparr>hrMethod = method, hrPath = path, hrQuery = ParseQuery query, hrBody = body\<rparr>)"

section \<open>Reading back\<close>

lemma of_upper_hex: "n < 16 \<Longrightarrow> (of_char (upper_hex n) :: nat) = (if n < 10 then 48 + n else 55 + n)"
  by (simp add: upper_hex_def)

lemma unhex_upper_hex: "n < 16 \<Longrightarrow> unhex (upper_hex n) = Some n"
  by (auto simp: unhex_def of_upper_hex Let_def)

lemma of_char_div_16: "(of_char (c :: char) :: nat) div 16 < 16"
proof -
  have "(of_char c :: nat) < 16 * 16" using nat_of_char_less_256 [of c] by simp
  then show ?thesis by (rule less_mult_imp_div_less)
qed

lemma char_of_parts: "char_of (16 * (of_char c div 16) + of_char c mod 16 :: nat) = c"
  by simp

lemma unreserved_plain: "unreserved c \<Longrightarrow> c \<noteq> CHR ''%'' \<and> c \<noteq> CHR ''+''"
  by (auto simp: unreserved_def)

lemma QueryUnescape_Escape: "QueryUnescape (QueryEscape s @ t) = map_option ((@) s) (QueryUnescape t)"
proof (induction s)
  case (Cons c s)
  have "QueryUnescape (escape_byte c @ u) = map_option ((#) c) (QueryUnescape u)" for u
    using unreserved_plain [of c] of_char_div_16 [of c] char_of_parts [of c]
    by (auto simp: escape_byte_def unhex_upper_hex)
  with Cons show ?case by (simp add: QueryEscape_def option.map_comp comp_def)
qed (simp add: QueryEscape_def option.map_id0 [unfolded id_def] option.map_ident)

lemma unreserved_upper_hex: "n < 16 \<Longrightarrow> unreserved (upper_hex n)"
  by (simp add: unreserved_def of_upper_hex Let_def)

lemma set_escape_byte: "x \<in> set (escape_byte c) \<Longrightarrow> unreserved x \<or> x = CHR ''%'' \<or> x = CHR ''+''"
  using unreserved_upper_hex [OF of_char_div_16 [of c]] unreserved_upper_hex [of "of_char c mod 16"]
  by (auto simp: escape_byte_def split: if_splits)

lemma set_QueryEscape: "x \<in> set (QueryEscape s) \<Longrightarrow> unreserved x \<or> x = CHR ''%'' \<or> x = CHR ''+''"
  using set_escape_byte by (auto simp: QueryEscape_def)

lemma reserved_notin_QueryEscape:
  "CHR ''&'' \<notin> set (QueryEscape s)" "CHR ''='' \<notin> set (QueryEscape s)" "CHR '';'' \<notin> set (QueryEscape s)"
  "CHR ''?'' \<notin> set (QueryEscape s)"
  using set_QueryEscape [of _ s] by (fastforce simp: unreserved_def)+

lemma Cut_append: "c \<notin> set x \<Longrightarrow> Cut (x @ c # y) c = (x, y)"
  by (induction x) (auto simp: Cut_def)

lemma parse_encode_pair: "parse_pair (encode_pair kv) = [kv]"
proof -
  have "Cut (encode_pair kv) (CHR ''='') = (QueryEscape (fst kv), QueryEscape (snd kv))"
    using Cut_append [OF reserved_notin_QueryEscape(2)] by (simp add: encode_pair_def)
  moreover have "QueryUnescape (QueryEscape s) = Some s" for s
    using QueryUnescape_Escape [of s "[]"] by simp
  ultimately show ?thesis
    using reserved_notin_QueryEscape(3) by (simp add: parse_pair_def encode_pair_def)
qed

lemma ParseQuery_Encode:
  assumes "vs \<noteq> []"
  shows "ParseQuery (Values_Encode vs) = sort_key fst vs"
proof -
  have "CHR ''&'' \<notin> set (encode_pair kv)" for kv
    using reserved_notin_QueryEscape(1) by (simp add: encode_pair_def)
  moreover have "sort_key fst vs \<noteq> []" using assms by (metis length_0_conv length_sort)
  ultimately have "split_on (CHR ''&'') (Values_Encode vs) = map encode_pair (sort_key fst vs)"
    unfolding Values_Encode_def by (intro split_on_Join) auto
  moreover have "concat (map (parse_pair \<circ> encode_pair) xs) = xs" for xs :: "(string \<times> string) list"
    by (induction xs) (simp_all add: parse_encode_pair)
  ultimately show ?thesis by (simp add: ParseQuery_def)
qed

lemma map_of_sort_key: "distinct (map fst vs) \<Longrightarrow> map_of (sort_key fst vs) = map_of vs"
proof -
  assume "distinct (map fst vs)"
  moreover have "mset (map fst (sort_key fst vs)) = mset (map fst vs)" by simp
  ultimately have "distinct (map fst (sort_key fst vs))" by (metis mset_eq_imp_distinct_iff)
  with \<open>distinct (map fst vs)\<close> show ?thesis by (simp add: map_of_inject_set)
qed

lemma Cut_none: "c \<notin> set x \<Longrightarrow> Cut x c = (x, [])"
  by (induction x) (auto simp: Cut_def)

lemma server_request_query:
  assumes "vs \<noteq> []" and "distinct (map fst vs)" and "CHR ''?'' \<notin> set path"
  shows "hrPath (server_request base method (base @ path @ ''?'' @ Values_Encode vs) body) = path"
    and "Query_Get (server_request base method (base @ path @ ''?'' @ Values_Encode vs) body) key =
      (case map_of vs key of None \<Rightarrow> '''' | Some v \<Rightarrow> v)"
    and "hrMethod (server_request base method (base @ path @ ''?'' @ Values_Encode vs) body) = method"
    and "hrBody (server_request base method (base @ path @ ''?'' @ Values_Encode vs) body) = body"
proof -
  let ?url = "base @ path @ ''?'' @ Values_Encode vs"
  have "TrimPrefix ?url base = path @ CHR ''?'' # Values_Encode vs" by (simp add: TrimPrefix_def HasPrefix_def)
  then have "server_request base method ?url body =
      \<lparr>hrMethod = method, hrPath = path, hrQuery = sort_key fst vs, hrBody = body\<rparr>"
    by (simp add: server_request_def Cut_append assms ParseQuery_Encode)
  then show "hrPath (server_request base method ?url body) = path"
    and "Query_Get (server_request base method ?url body) key = (case map_of vs key of None \<Rightarrow> '''' | Some v \<Rightarrow> v)"
    and "hrMethod (server_request base method ?url body) = method"
    and "hrBody (server_request base method ?url body) = body"
    using assms(2) by (simp_all add: Query_Get_def map_of_sort_key)
qed

end
