(* ===== verification/Reporting.thy ===== *)
theory Reporting
  imports Store Query_String
begin

text \<open>
  \<open>internal/services/reporting\<close>: report queries over the run store, the translation of rows into report
  payloads, and the HTTP endpoints. The database is the one of \<open>Store\<close>; the zero value of \<open>time.Time\<close> is
  a parameter-free constant outside the range of recorded times. Shown: which HTTP status a query gets
  and that reading changes nothing, and that a report lists exactly the rows of what was asked for.
\<close>

section \<open>Errors\<close>

definition invalidReportQuery :: "string \<Rightarrow> goerr" where
  "invalidReportQuery message = \<lparr>Error = ''invalid report query: '' @ message, chain = [ErrInvalidReportQuery]\<rparr>"

definition reportNotFound :: "string \<Rightarrow> goerr" where
  "reportNotFound message = \<lparr>Error = ''report not found: '' @ message, chain = [ErrReportNotFound]\<rparr>"

definition report_classifyError :: "goerr \<Rightarrow> int \<times> string \<times> string" where
  "report_classifyError err =
     (if errors_Is err ErrInvalidReportQuery then (400, ''invalid_argument'', Error err)
      else if errors_Is err ErrReportNotFound then (404, ''report_not_found'', Error err)
      else (500, ''internal_error'', ''internal server error''))"

section \<open>The service\<close>

text \<open>The store of the service is absent in a service without a database.\<close>

definition zero_time :: int where "zero_time = - 62135596800"

definition Report_NewService :: "(string \<Rightarrow> string) \<Rightarrow> (string \<Rightarrow> goerr + 's) \<Rightarrow> goerr + 's" where
  "Report_NewService getenv store_New =
     (let connURL = TrimSpace (getenv ''DATABASE_URL'') in
      if connURL = '''' then Inl (Errorf ''DATABASE_URL is required'')
      else
        (case store_New connURL of
           Inl e \<Rightarrow> Inl (wrapf ''failed to connect report store: '' e)
         | Inr st \<Rightarrow> Inr st))"

definition Report_Ping :: "(goerr option) option \<Rightarrow> goerr option" where
  "Report_Ping store_Ping =
     (case store_Ping of None \<Rightarrow> Some (Errorf ''store is not initialized'') | Some r \<Rightarrow> r)"

definition mapRuns :: "Run list \<Rightarrow> ReportRun list" where
  "mapRuns runs =
     map (\<lambda>r. \<lparr>rpRunNo = runRunNo r, rpStatus = runStatus r, rpTraceID = runTraceID r, rpGitRepo = runGitRepo r,
       rpGitBranch = runGitBranch r, rpGitHash = runGitHash r, rpStart = runStartTime r, rpEnd = runEndTime r\<rparr>) runs"

definition mapStages :: "StageRun list \<Rightarrow> ReportStage list" where
  "mapStages stages =
     map (\<lambda>st. \<lparr>rsName = srStage st, rsStatus = srStatus st, rsStart = srStartTime st, rsEnd = srEndTime st,
       rsJobs = [], rsJob = []\<rparr>) stages"

definition mapJobs :: "JobRun list \<Rightarrow> ReportJob list" where
  "mapJobs jobs =
     map (\<lambda>j. \<lparr>rjName = jrJob j, rjStatus = jrStatus j, rjStart = jrStartTime j, rjEnd = jrEndTime j,
       rjFailures = jrFailures j\<rparr>) jobs"

definition validate_query :: "ReportQuery \<Rightarrow> goerr option" where
  "validate_query query =
     (if TrimSpace (qPipeline query) = '''' then Some (invalidReportQuery ''pipeline is required'')
      else if (case qRun query of None \<Rightarrow> False | Some n \<Rightarrow> n \<le> 0)
      then Some (invalidReportQuery ''run must be a positive integer'')
      else if qStage query \<noteq> '''' \<and> qRun query = None
      then Some (invalidReportQuery ''run is required when stage is provided'')
      else if qJob query \<noteq> '''' \<and> (qRun query = None \<or> qStage query = '''')
      then Some (invalidReportQuery ''run and stage are required when job is provided'')
      else None)"

definition pipeline_report :: "(string \<Rightarrow> string) \<Rightarrow> ReportQuery \<Rightarrow> ReportResponse stmt" where
  "pipeline_report coll query =
     andthen (wrap_err (wrapf ''failed to read runs: '') (GetRunsByPipeline coll (qPipeline query))) (\<lambda>runs.
     if runs = [] then fail (reportNotFound (''pipeline '' @ quoted (qPipeline query) @ '' not found''))
     else ret \<lparr>respPipeline = \<lparr>rpipeName = qPipeline query, rpipeRuns = mapRuns runs, rpipeRunNo = 0, rpipeStatus = '''',
       rpipeTraceID = '''', rpipeStart = zero_time, rpipeEnd = None, rpipeStages = [], rpipeStage = []\<rparr>\<rparr>)"

definition run_header :: "Run \<Rightarrow> ReportPipeline" where
  "run_header run =
     \<lparr>rpipeName = runPipeline run, rpipeRuns = [], rpipeRunNo = runRunNo run, rpipeStatus = runStatus run,
      rpipeTraceID = runTraceID run, rpipeStart = runStartTime run, rpipeEnd = runEndTime run, rpipeStages = [], rpipeStage = []\<rparr>"

text \<open>The error of \<open>GetRun\<close>: a missing run is not found, anything else is internal.\<close>

definition run_error :: "string \<Rightarrow> int \<Rightarrow> goerr \<Rightarrow> goerr" where
  "run_error pipeline runNo err =
     (if errors_Is err ErrNotFound
      then reportNotFound (''run '' @ Itoa runNo @ '' for pipeline '' @ quoted pipeline @ '' not found'')
      else wrapf ''failed to read run: '' err)"

text \<open>The part of the report for one stage, with all its jobs or the one asked for.\<close>

definition stage_report :: "(string \<Rightarrow> string) \<Rightarrow> ReportQuery \<Rightarrow> int \<Rightarrow> StageRun list \<Rightarrow> ReportPipeline \<Rightarrow> ReportResponse stmt" where
  "stage_report coll query runNo stages header =
     (case stages of
        [] \<Rightarrow> fail (reportNotFound (''stage '' @ quoted (qStage query) @ '' not found for pipeline '' @ quoted (qPipeline query)
                @ '' run '' @ Itoa runNo))
      | st # _ \<Rightarrow>
          (let stageReport = \<lparr>rsName = srStage st, rsStatus = srStatus st, rsStart = srStartTime st, rsEnd = srEndTime st,
                 rsJobs = [], rsJob = []\<rparr>
           in if qJob query = '''' then
                andthen (wrap_err (wrapf ''failed to read jobs: '') (GetJobsForRun coll (qPipeline query) runNo (qStage query) '''')) (\<lambda>jobs.
                ret \<lparr>respPipeline = header\<lparr>rpipeStage := [stageReport\<lparr>rsJobs := mapJobs jobs\<rparr>]\<rparr>\<rparr>)
              else
                andthen (wrap_err (wrapf ''failed to read job: '')
                  (GetJobsForRun coll (qPipeline query) runNo (qStage query) (qJob query))) (\<lambda>jobs.
                if jobs = [] then
                  fail (reportNotFound (''job '' @ quoted (qJob query) @ '' not found in stage '' @ quoted (qStage query)
                    @ '' for pipeline '' @ quoted (qPipeline query) @ '' run '' @ Itoa runNo))
                else ret \<lparr>respPipeline = header\<lparr>rpipeStage := [stageReport\<lparr>rsJob := mapJobs jobs\<rparr>]\<rparr>\<rparr>)))"

definition run_report :: "(string \<Rightarrow> string) \<Rightarrow> ReportQuery \<Rightarrow> int \<Rightarrow> ReportResponse stmt" where
  "run_report coll query runNo =
     andthen (wrap_err (run_error (qPipeline query) runNo) (GetRun coll (qPipeline query) runNo)) (\<lambda>run.
     if qStage query = '''' then
       andthen (wrap_err (wrapf ''failed to read stages: '') (GetStagesForRun coll (qPipeline query) runNo '''')) (\<lambda>stages.
       ret \<lparr>respPipeline = (run_header run)\<lparr>rpipeStages := mapStages stages\<rparr>\<rparr>)
     else
       andthen (wrap_err (wrapf ''failed to read stage: '') (GetStagesForRun coll (qPipeline query) runNo (qStage query))) (\<lambda>stages.
       stage_report coll query runNo stages (run_header run)))"

definition GetReport :: "(string \<Rightarrow> string) \<Rightarrow> ReportQuery \<Rightarrow> ReportResponse stmt" where
  "GetReport coll query =
     (case validate_query query of
        Some e \<Rightarrow> fail e
      | None \<Rightarrow>
          (case qRun query of
             None \<Rightarrow> pipeline_report coll query
           | Some runNo \<Rightarrow> run_report coll query runNo))"

section \<open>The endpoints\<close>

definition parseReportQuery :: "http_request \<Rightarrow> goerr + ReportQuery" where
  "parseReportQuery r =
     (let query = \<lparr>qPipeline = TrimSpace (Query_Get r ''pipeline''), qRun = None, qStage = TrimSpace (Query_Get r ''stage''),
            qJob = TrimSpace (Query_Get r ''job'')\<rparr>;
          runParam = TrimSpace (Query_Get r ''run'')
      in if runParam \<noteq> '''' then
           (case Atoi runParam of
              Inl e \<Rightarrow> Inl (wrapf ''parse report query run parameter: '' e)
            | Inr runNo \<Rightarrow> Inr (query\<lparr>qRun := Some runNo\<rparr>))
         else Inr query)"

definition report_not_allowed :: "encoder \<Rightarrow> http_response" where
  "report_not_allowed enc = WriteError enc 405 ''method_not_allowed'' (StatusText 405)"

definition report_handleHealth :: "encoder \<Rightarrow> http_request \<Rightarrow> http_response" where
  "report_handleHealth enc r =
     (if hrMethod r \<noteq> ''GET'' then report_not_allowed enc else WriteJSON enc 200 (AnyStatus \<lparr>stStatus = ''healthy''\<rparr>))"

definition report_handleReady :: "encoder \<Rightarrow> goerr option option \<Rightarrow> http_request \<Rightarrow> http_response" where
  "report_handleReady enc store_Ping r =
     (if hrMethod r \<noteq> ''GET'' then report_not_allowed enc
      else
        (case Report_Ping store_Ping of
           Some e \<Rightarrow> WriteError enc 503 ''service_unready'' (StatusText 503)
         | None \<Rightarrow> WriteJSON enc 200 (AnyStatus \<lparr>stStatus = ''ready''\<rparr>)))"

definition handleReport :: "encoder \<Rightarrow> (string \<Rightarrow> string) \<Rightarrow> http_request \<Rightarrow> db \<Rightarrow> http_response \<times> db" where
  "handleReport enc coll r db =
     (if hrMethod r \<noteq> ''GET'' then (report_not_allowed enc, db)
      else
        (case parseReportQuery r of
           Inl e \<Rightarrow> (WriteError enc 400 ''invalid_argument'' (Error e), db)
         | Inr query \<Rightarrow>
             (case GetReport coll query db of
                (Inl e, db1) \<Rightarrow> (case report_classifyError e of (status, code, message) \<Rightarrow> (WriteError enc status code message, db1))
              | (Inr report, db1) \<Rightarrow> (WriteJSON enc 200 (AnyReport report), db1))))"

definition serve_reporting :: "encoder \<Rightarrow> (string \<Rightarrow> string) \<Rightarrow> goerr option option \<Rightarrow> http_request \<Rightarrow> db \<Rightarrow> http_response \<times> db" where
  "serve_reporting enc coll store_Ping r db =
     (if hrPath r = ''/health'' then (report_handleHealth enc r, db)
      else if hrPath r = ''/report'' then handleReport enc coll r db
      else if hrPath r = ''/ready'' then (report_handleReady enc store_Ping r, db)
      else (http_Error ''404 page not found'' 404, db))"

section \<open>What a report says\<close>

definition valid_query :: "ReportQuery \<Rightarrow> bool" where
  "valid_query q \<longleftrightarrow> TrimSpace (qPipeline q) \<noteq> '''' \<and> (\<forall>n. qRun q = Some n \<longrightarrow> 0 < n)
     \<and> (qStage q \<noteq> '''' \<longrightarrow> qRun q \<noteq> None) \<and> (qJob q \<noteq> '''' \<longrightarrow> qRun q \<noteq> None \<and> qStage q \<noteq> '''')"

text \<open>The rows a query asks for.\<close>

definition asked_runs :: "(string \<Rightarrow> string) \<Rightarrow> ReportQuery \<Rightarrow> db \<Rightarrow> run_row list" where
  "asked_runs coll q db =
     filter (\<lambda>r. coll (rowPipeline r) = coll (qPipeline q) \<and> (\<forall>n. qRun q = Some n \<longrightarrow> rowRunNo r = n)) (pipeline_runs db)"

definition asked_stages :: "(string \<Rightarrow> string) \<Rightarrow> ReportQuery \<Rightarrow> db \<Rightarrow> StageRun list" where
  "asked_stages coll q db =
     filter (\<lambda>r. coll (srPipeline r) = coll (qPipeline q) \<and> qRun q = Some (srRunNo r)
       \<and> (qStage q = '''' \<or> coll (srStage r) = coll (qStage q))) (stage_runs db)"

definition asked_jobs :: "(string \<Rightarrow> string) \<Rightarrow> ReportQuery \<Rightarrow> db \<Rightarrow> JobRun list" where
  "asked_jobs coll q db =
     filter (\<lambda>r. coll (jrPipeline r) = coll (qPipeline q) \<and> qRun q = Some (jrRunNo r)
       \<and> (qStage q = '''' \<or> coll (jrStage r) = coll (qStage q)) \<and> (qJob q = '''' \<or> coll (jrJob r) = coll (qJob q))) (job_runs db)"

definition report_exists :: "(string \<Rightarrow> string) \<Rightarrow> ReportQuery \<Rightarrow> db \<Rightarrow> bool" where
  "report_exists coll q db \<longleftrightarrow> asked_runs coll q db \<noteq> []
     \<and> (qStage q \<noteq> '''' \<longrightarrow> asked_stages coll q db \<noteq> []) \<and> (qJob q \<noteq> '''' \<longrightarrow> asked_jobs coll q db \<noteq> [])"

definition report_status :: "goerr + ReportResponse \<Rightarrow> int" where
  "report_status r = (case r of Inl e \<Rightarrow> fst (report_classifyError e) | Inr _ \<Rightarrow> 200)"

lemma validate_query_None: "validate_query q = None \<longleftrightarrow> valid_query q"
  by (auto simp: validate_query_def valid_query_def split: option.splits if_splits)

lemma validate_query_Some: "validate_query q = Some e \<Longrightarrow> errors_Is e ErrInvalidReportQuery"
  by (auto simp: validate_query_def invalidReportQuery_def errors_Is_def split: if_splits)

lemma sort_key_Nil [simp]: "sort_key f xs = [] \<longleftrightarrow> xs = []"
  by (metis length_0_conv length_sort)

lemma status_not_found [simp]: "fst (report_classifyError (reportNotFound m)) = 404"
  by (simp add: report_classifyError_def reportNotFound_def errors_Is_def)

text \<open>The reads on a database without faults.\<close>

lemma GetRunsByPipeline_ok:
  "faults db = [] \<Longrightarrow> qRun q = None \<Longrightarrow>
     GetRunsByPipeline coll (qPipeline q) db = (Inr (map scanRun (sort_key rowRunNo (asked_runs coll q db))), db)"
  by (simp add: GetRunsByPipeline_def exec_def asked_runs_def)

lemma GetRun_ok:
  "faults db = [] \<Longrightarrow> qRun q = Some n \<Longrightarrow>
     GetRun coll (qPipeline q) n db = (case asked_runs coll q db of
       [] \<Rightarrow> (Inl \<lparr>Error = ''not found'', chain = [ErrNotFound]\<rparr>, db) | r # _ \<Rightarrow> (Inr (scanRun r), db))"
  by (auto simp: GetRun_def exec_def asked_runs_def errors_Is_def split: list.splits)

lemma GetStagesForRun_ok:
  "faults db = [] \<Longrightarrow> qRun q = Some n \<Longrightarrow>
     GetStagesForRun coll (qPipeline q) n (qStage q) db = (Inr (sort_key (\<lambda>r. coll (srStage r)) (asked_stages coll q db)), db)"
  by (simp add: GetStagesForRun_def exec_def asked_stages_def conj_ac eq_commute [of n])

lemma GetJobsForRun_ok:
  "faults db = [] \<Longrightarrow> qRun q = Some n \<Longrightarrow>
     GetJobsForRun coll (qPipeline q) n (qStage q) (qJob q) db =
       (Inr (sort_key (\<lambda>r. coll (jrStage r)) (sort_key (\<lambda>r. coll (jrJob r)) (asked_jobs coll q db))), db)"
  by (simp add: GetJobsForRun_def exec_def asked_jobs_def conj_ac eq_commute [of n])

lemmas report_reads = GetRunsByPipeline_ok GetRun_ok GetStagesForRun_ok GetJobsForRun_ok

lemma report_status_simps [simp]:
  "report_status (Inr x) = 200" "report_status (Inl (reportNotFound m)) = 404"
  by (simp_all add: report_status_def)

lemma run_report_status:
  assumes "faults db = []" and "qRun q = Some n" and "qJob q \<noteq> '''' \<longrightarrow> qStage q \<noteq> ''''"
  shows "snd (run_report coll q n db) = db \<and>
    report_status (fst (run_report coll q n db)) = (if report_exists coll q db then 200 else 404)"
proof (cases "asked_runs coll q db")
  case Nil
  then have "run_report coll q n db = (Inl (run_error (qPipeline q) n \<lparr>Error = ''not found'', chain = [ErrNotFound]\<rparr>), db)"
    using assms by (simp add: run_report_def andthen_def wrap_err_def GetRun_ok)
  with Nil show ?thesis by (simp add: report_exists_def run_error_def errors_Is_def)
next
  case (Cons r rs)
  note run = GetRun_ok [OF assms(1,2), of coll] GetStagesForRun_ok [OF assms(1,2), of coll] GetJobsForRun_ok [OF assms(1,2), of coll]
  show ?thesis
  proof (cases "qStage q = ''''")
    case True
    with run(2) have "GetStagesForRun coll (qPipeline q) n '''' db = (Inr (sort_key (\<lambda>r. coll (srStage r)) (asked_stages coll q db)), db)"
      by simp
    with True Cons assms(3) run(1) show ?thesis
      by (simp add: run_report_def andthen_def wrap_err_def ret_def report_exists_def)
  next
    case False
    show ?thesis
    proof (cases "sort_key (\<lambda>r. coll (srStage r)) (asked_stages coll q db)")
      case Nil
      with False Cons run(1,2) show ?thesis
        by (simp add: run_report_def andthen_def wrap_err_def fail_def report_exists_def stage_report_def)
    next
      case st: (Cons st sts)
      then have "asked_stages coll q db \<noteq> []" by (metis list.distinct(1) sort_key_Nil)
      with False Cons st run show ?thesis
        by (cases "qJob q = ''''")
          (auto simp: run_report_def andthen_def wrap_err_def ret_def fail_def report_exists_def stage_report_def Let_def)
    qed
  qed
qed

text \<open>C17. The status of a report: on a reachable database a query is answered 400 exactly when it is not
  well formed, otherwise 404 exactly when a row it asks for does not exist, and 200 otherwise; no
  table is changed.\<close>

theorem GetReport_status:
  assumes "faults db = []"
  shows "snd (GetReport coll q db) = db \<and>
    report_status (fst (GetReport coll q db)) =
      (if \<not> valid_query q then 400 else if report_exists coll q db then 200 else 404)"
proof (cases "validate_query q")
  case (Some e)
  then have "\<not> valid_query q" by (simp flip: validate_query_None)
  with Some validate_query_Some [OF Some] show ?thesis
    by (simp add: GetReport_def fail_def report_status_def report_classifyError_def)
next
  case None
  then have v: "valid_query q" by (simp add: validate_query_None)
  show ?thesis
  proof (cases "qRun q")
    case None
    with v have "qStage q = ''''" "qJob q = ''''" by (auto simp: valid_query_def)
    with None \<open>validate_query q = None\<close> v GetRunsByPipeline_ok [OF assms None, of coll] show ?thesis
      by (simp add: GetReport_def pipeline_report_def andthen_def wrap_err_def ret_def fail_def report_exists_def)
  next
    case (Some n)
    with v \<open>validate_query q = None\<close> run_report_status [OF assms Some, of coll] show ?thesis
      by (simp add: GetReport_def valid_query_def)
  qed
qed

text \<open>C36. A run report is complete: it shows the name, number, status, trace id, start and end of the run that was asked for as its row has
  them, and its list of stages is, in the order of their names, the list of the recorded stages of that run, each with name, status,
  start and end; nothing else is in it, and reading changes nothing.\<close>

theorem report_shows_run:
  assumes "faults db = []" and "qRun q = Some n" and "qStage q = ''''"
    and "GetReport coll q db = (Inr resp, db')"
  shows "db' = db \<and> (\<exists>row \<in> set (pipeline_runs db). coll (rowPipeline row) = coll (qPipeline q) \<and> rowRunNo row = n
    \<and> rpipeName (respPipeline resp) = rowPipeline row \<and> rpipeRunNo (respPipeline resp) = n
    \<and> rpipeStatus (respPipeline resp) = rowStatus row \<and> rpipeTraceID (respPipeline resp) = rowTraceID row
    \<and> rpipeStart (respPipeline resp) = rowStartTime row \<and> rpipeEnd (respPipeline resp) = rowEndTime row
    \<and> rpipeRuns (respPipeline resp) = [] \<and> rpipeStage (respPipeline resp) = []
    \<and> sorted (map (\<lambda>s. coll (rsName s)) (rpipeStages (respPipeline resp)))
    \<and> mset (rpipeStages (respPipeline resp))
      = mset (map (\<lambda>s. \<lparr>rsName = srStage s, rsStatus = srStatus s, rsStart = srStartTime s, rsEnd = srEndTime s, rsJobs = [], rsJob = []\<rparr>)
          (asked_stages coll q db)))"
proof -
  have "validate_query q = None" using assms(4) by (cases "validate_query q") (simp_all add: GetReport_def fail_def)
  with assms have rep: "run_report coll q n db = (Inr resp, db')" by (simp add: GetReport_def)
  obtain row rs where row: "asked_runs coll q db = row # rs"
    using rep assms(1,2) by (cases "asked_runs coll q db") (simp_all add: run_report_def andthen_def wrap_err_def GetRun_ok)
  have st: "GetStagesForRun coll (qPipeline q) n '''' db = (Inr (sort_key (\<lambda>r. coll (srStage r)) (asked_stages coll q db)), db)"
    using GetStagesForRun_ok [OF assms(1,2), of coll] assms(3) by simp
  have resp: "resp = \<lparr>respPipeline = (run_header (scanRun row))\<lparr>rpipeStages := mapStages (sort_key (\<lambda>r. coll (srStage r)) (asked_stages coll q db))\<rparr>\<rparr>"
    and "db' = db"
    using rep assms(1-3) row st by (auto simp: run_report_def andthen_def wrap_err_def ret_def GetRun_ok)
  moreover have "sorted (map (\<lambda>s. coll (rsName s)) (mapStages (sort_key (\<lambda>r. coll (srStage r)) (asked_stages coll q db))))"
    using sorted_sort_key [of "\<lambda>r. coll (srStage r)" "asked_stages coll q db"] by (simp add: mapStages_def comp_def)
  moreover have "row \<in> set (pipeline_runs db)" "coll (rowPipeline row) = coll (qPipeline q)" "rowRunNo row = n"
    using row assms(2) filter_set [of _ "pipeline_runs db"] unfolding asked_runs_def by (auto dest!: filter_eq_ConsD)
  ultimately show ?thesis
    by (intro conjI bexI [of _ row]) (simp_all add: run_header_def scanRun_def mapStages_def)
qed

section \<open>Concrete reports\<close>

definition demo_report_db :: db where
  "demo_report_db = empty_db\<lparr>
     pipeline_runs := [\<lparr>rowPipeline = ''demo'', rowRunNo = 1, rowStartTime = 10, rowEndTime = Some 40, rowStatus = StatusFailed,
       rowGitHash = None, rowGitBranch = None, rowGitRepo = None, rowTraceID = ''t'', rowRequestKey = None\<rparr>],
     stage_runs := [\<lparr>srPipeline = ''demo'', srRunNo = 1, srStage = ''test'', srStartTime = 20, srEndTime = Some 40, srStatus = StatusFailed\<rparr>,
       \<lparr>srPipeline = ''demo'', srRunNo = 1, srStage = ''build'', srStartTime = 10, srEndTime = Some 20, srStatus = StatusSuccess\<rparr>]\<rparr>"

definition demo_query :: ReportQuery where
  "demo_query = \<lparr>qPipeline = ''demo'', qRun = Some 1, qStage = '''', qJob = ''''\<rparr>"

lemma GetReport_status_witness:
  "report_status (fst (GetReport id (demo_query\<lparr>qStage := ''deploy''\<rparr>) demo_report_db)) = 404"
proof -
  have "faults demo_report_db = []" by (simp add: demo_report_db_def empty_db_def)
  moreover have "valid_query (demo_query\<lparr>qStage := ''deploy''\<rparr>)" unfolding validate_query_None [symmetric] by code_simp
  moreover have "\<not> report_exists id (demo_query\<lparr>qStage := ''deploy''\<rparr>) demo_report_db"
    by (simp add: report_exists_def asked_stages_def demo_query_def demo_report_db_def)
  ultimately show ?thesis using GetReport_status [of demo_report_db id "demo_query\<lparr>qStage := ''deploy''\<rparr>"] by simp
qed

lemma report_shows_run_witness:
  "\<exists>resp db'. GetReport id demo_query demo_report_db = (Inr resp, db') \<and> rpipeStatus (respPipeline resp) = StatusFailed
     \<and> rpipeTraceID (respPipeline resp) = ''t'' \<and> rpipeStart (respPipeline resp) = 10
     \<and> mset (rpipeStages (respPipeline resp))
       = {#\<lparr>rsName = ''build'', rsStatus = StatusSuccess, rsStart = 10, rsEnd = Some 20, rsJobs = [], rsJob = []\<rparr>,
           \<lparr>rsName = ''test'', rsStatus = StatusFailed, rsStart = 20, rsEnd = Some 40, rsJobs = [], rsJob = []\<rparr>#}"
proof -
  have f: "faults demo_report_db = []" by (simp add: demo_report_db_def empty_db_def)
  have "\<not> isl (fst (GetReport id demo_query demo_report_db))" by code_simp
  then obtain resp db' where r: "GetReport id demo_query demo_report_db = (Inr resp, db')"
    by (metis isl_def prod.collapse sum.exhaust)
  from report_shows_run [OF f _ _ r, of 1] r show ?thesis
    by (auto simp: demo_query_def demo_report_db_def asked_stages_def)
qed

end
