(* ===== verification/Gateway.thy ===== *)
theory Gateway
  imports Reporting
begin

text \<open>
  \<open>internal/services/gateway\<close>: the API gateway, which forwards requests to the validation, orchestrator and
  reporting services and proxies their answers. The network is a parameter; an answer comes with the
  error of copying its body, if any. The theory shows that a report through the gateway is the answer
  of the reporting service, for every query and every byte in it.
\<close>

section \<open>Errors\<close>

definition upstreamServiceTimeout :: "string \<Rightarrow> goerr" where
  "upstreamServiceTimeout message = \<lparr>Error = ''upstream timeout: '' @ message, chain = [ErrUpstreamTimeout]\<rparr>"

definition gateway_classifyError :: "goerr \<Rightarrow> int \<times> string \<times> string" where
  "gateway_classifyError err =
     (if errors_Is err ErrUpstreamTimeout then (504, ''upstream_timeout'', Error err)
      else (502, ''upstream_unavailable'', Error err))"

definition isTimeoutError :: "goerr \<Rightarrow> bool" where
  "isTimeoutError err \<longleftrightarrow> errors_Is err CtxDeadlineExceeded \<or> errors_Is err NetTimeout"

definition wrapUpstreamCallError :: "string \<Rightarrow> goerr \<Rightarrow> goerr" where
  "wrapUpstreamCallError serviceName err =
     (if isTimeoutError err then upstreamServiceTimeout (serviceName @ '': '' @ Error err)
      else wrapf (''failed to call '' @ serviceName @ '': '') err)"

section \<open>Forwarding\<close>

record gatewayClient =
  gwValidationURL :: string
  gwOrchestratorURL :: string
  gwReportURL :: string

definition NewClient :: "(string \<Rightarrow> string) \<Rightarrow> gatewayClient" where
  "NewClient getenv =
     \<lparr>gwValidationURL = GetEnvOrDefaultURL getenv ''VALIDATION_URL'' DefaultValidationURL,
      gwOrchestratorURL = GetEnvOrDefaultURL getenv ''ORCHESTRATOR_URL'' DefaultOrchestratorURL,
      gwReportURL = GetEnvOrDefaultURL getenv ''REPORTING_URL'' DefaultReportingURL\<rparr>"

text \<open>\<open>upDo\<close> sends a request (method, URL, body) and gives the answer as far as its body could be copied.\<close>

record 'w upstream =
  upNewRequest :: "string \<Rightarrow> goerr option"
  upDo :: "string \<Rightarrow> string \<Rightarrow> goerr + string \<Rightarrow> ('w, http_response \<times> goerr option) op"

definition doUpstreamRequest ::
  "'w upstream \<Rightarrow> string \<Rightarrow> string \<Rightarrow> string \<Rightarrow> goerr + string \<Rightarrow> ('w, http_response \<times> goerr option) op" where
  "doUpstreamRequest up serviceName method url body =
     wrap_err (wrapUpstreamCallError serviceName) (upDo up method url body)"

text \<open>What has been written to the client, and the error of the forwarding.\<close>

type_synonym proxied = "http_response option \<times> goerr option"

definition proxyDownstreamResponse :: "http_response \<times> goerr option \<Rightarrow> proxied" where
  "proxyDownstreamResponse answer =
     (Some (fst answer), map_option (wrapf ''copy downstream response failed: '') (snd answer))"

definition forward :: "'w upstream \<Rightarrow> string \<Rightarrow> string \<Rightarrow> string \<Rightarrow> goerr + string \<Rightarrow> 'w \<Rightarrow> proxied \<times> 'w" where
  "forward up serviceName method url body w =
     (case upNewRequest up url of
        Some e \<Rightarrow> ((None, Some (wrapf ''construct request failed: '' e)), w)
      | None \<Rightarrow>
          (case doUpstreamRequest up serviceName method url body w of
             (Inl e, w1) \<Rightarrow> ((None, Some e), w1)
           | (Inr answer, w1) \<Rightarrow> (proxyDownstreamResponse answer, w1)))"

definition forwardValidate :: "'w upstream \<Rightarrow> gatewayClient \<Rightarrow> http_request \<Rightarrow> 'w \<Rightarrow> proxied \<times> 'w" where
  "forwardValidate up c r = forward up ''validation service'' ''POST'' (gwValidationURL c @ ''/validate'') (hrBody r)"

definition forwardDryRun :: "'w upstream \<Rightarrow> gatewayClient \<Rightarrow> http_request \<Rightarrow> 'w \<Rightarrow> proxied \<times> 'w" where
  "forwardDryRun up c r = forward up ''dryrun service'' ''POST'' (gwValidationURL c @ ''/dryrun'') (hrBody r)"

definition forwardRun :: "'w upstream \<Rightarrow> gatewayClient \<Rightarrow> http_request \<Rightarrow> 'w \<Rightarrow> proxied \<times> 'w" where
  "forwardRun up c r = forward up ''orchestrator service'' ''POST'' (gwOrchestratorURL c @ ''/run'') (hrBody r)"

definition report_params :: "ReportQuery \<Rightarrow> (string \<times> string) list" where
  "report_params query =
     [(''pipeline'', qPipeline query)]
     @ (case qRun query of None \<Rightarrow> [] | Some n \<Rightarrow> [(''run'', Itoa n)])
     @ (if qStage query \<noteq> '''' then [(''stage'', qStage query)] else [])
     @ (if qJob query \<noteq> '''' then [(''job'', qJob query)] else [])"

definition forwardReport :: "'w upstream \<Rightarrow> gatewayClient \<Rightarrow> ReportQuery \<Rightarrow> 'w \<Rightarrow> proxied \<times> 'w" where
  "forwardReport up c query =
     (let encoded = Values_Encode (report_params query);
          endpoint = gwReportURL c @ ''/report'' @ (if encoded \<noteq> '''' then ''?'' @ encoded else '''')
      in forward up ''reporting service'' ''GET'' endpoint (Inr ''''))"

section \<open>The handlers\<close>

text \<open>An error after part of an answer was written can only be appended to it: the status is out.\<close>

definition finish_proxy :: "encoder \<Rightarrow> proxied \<times> 'w \<Rightarrow> http_response \<times> 'w" where
  "finish_proxy enc pw =
     (case pw of
        ((written, None), w) \<Rightarrow> (case written of None \<Rightarrow> \<lparr>hsStatus = 200, hsContentType = '''', hsBody = ''''\<rparr> | Some resp \<Rightarrow> resp, w)
      | ((written, Some e), w) \<Rightarrow>
          (case gateway_classifyError e of
             (status, code, message) \<Rightarrow>
               (let err = WriteError enc status code message in
                case written of None \<Rightarrow> err | Some resp \<Rightarrow> resp\<lparr>hsBody := hsBody resp @ hsBody err\<rparr>, w)))"

definition gateway_not_allowed :: "encoder \<Rightarrow> http_response" where
  "gateway_not_allowed enc = WriteError enc 405 ''method_not_allowed'' (StatusText 405)"

definition gateway_handleHealth :: "encoder \<Rightarrow> http_request \<Rightarrow> http_response" where
  "gateway_handleHealth enc r =
     (if hrMethod r \<noteq> ''GET'' then gateway_not_allowed enc else WriteJSON enc 200 (AnyStatus \<lparr>stStatus = ''healthy''\<rparr>))"

definition getGatewayPublicURL :: "(string \<Rightarrow> string) \<Rightarrow> string" where
  "getGatewayPublicURL getenv =
     (let url = TrimSpace (getenv ''GATEWAY_PUBLIC_URL'') in if url = '''' then DefaultGatewayURL else TrimRight url slash)"

definition handleServices :: "encoder \<Rightarrow> (string \<Rightarrow> string) \<Rightarrow> gatewayClient \<Rightarrow> http_request \<Rightarrow> http_response" where
  "handleServices enc getenv c r =
     (if hrMethod r \<noteq> ''GET'' then gateway_not_allowed enc
      else WriteJSON enc 200 (AnyServices
        [(''validation'', gwValidationURL c), (''orchestrator'', gwOrchestratorURL c), (''reporting'', gwReportURL c),
         (''gateway'', getGatewayPublicURL getenv)]))"

definition gateway_handleValidate :: "encoder \<Rightarrow> 'w upstream \<Rightarrow> gatewayClient \<Rightarrow> http_request \<Rightarrow> 'w \<Rightarrow> http_response \<times> 'w" where
  "gateway_handleValidate enc up c r w =
     (if hrMethod r \<noteq> ''POST'' then (gateway_not_allowed enc, w) else finish_proxy enc (forwardValidate up c r w))"

definition gateway_handleDryRun :: "encoder \<Rightarrow> 'w upstream \<Rightarrow> gatewayClient \<Rightarrow> http_request \<Rightarrow> 'w \<Rightarrow> http_response \<times> 'w" where
  "gateway_handleDryRun enc up c r w =
     (if hrMethod r \<noteq> ''POST'' then (gateway_not_allowed enc, w) else finish_proxy enc (forwardDryRun up c r w))"

definition gateway_handleRun :: "encoder \<Rightarrow> 'w upstream \<Rightarrow> gatewayClient \<Rightarrow> http_request \<Rightarrow> 'w \<Rightarrow> http_response \<times> 'w" where
  "gateway_handleRun enc up c r w =
     (if hrMethod r \<noteq> ''POST'' then (gateway_not_allowed enc, w) else finish_proxy enc (forwardRun up c r w))"

definition gateway_handleReport :: "encoder \<Rightarrow> 'w upstream \<Rightarrow> gatewayClient \<Rightarrow> http_request \<Rightarrow> 'w \<Rightarrow> http_response \<times> 'w" where
  "gateway_handleReport enc up c r w =
     (if hrMethod r \<noteq> ''GET'' then (gateway_not_allowed enc, w)
      else
        (let query = \<lparr>qPipeline = TrimSpace (Query_Get r ''pipeline''), qRun = None, qStage = TrimSpace (Query_Get r ''stage''),
               qJob = TrimSpace (Query_Get r ''job'')\<rparr>;
             runParam = TrimSpace (Query_Get r ''run'')
         in if runParam \<noteq> '''' then
              (case Atoi runParam of
                 Inl e \<Rightarrow> (WriteError enc 400 ''invalid_argument'' (''run must be an integer: '' @ Error e), w)
               | Inr runNo \<Rightarrow> finish_proxy enc (forwardReport up c (query\<lparr>qRun := Some runNo\<rparr>) w))
            else finish_proxy enc (forwardReport up c query w)))"

text \<open>\<open>checkValidationReady\<close> and its two siblings, on the base URL of their service.\<close>

definition check_ready :: "'w upstream \<Rightarrow> string \<Rightarrow> ('w, string) op" where
  "check_ready up base w =
     (case upNewRequest up (base @ ''/ready'') of
        Some e \<Rightarrow> (Inl e, w)
      | None \<Rightarrow>
          (case upDo up ''GET'' (base @ ''/ready'') (Inr '''') w of
             (Inl e, w1) \<Rightarrow> (Inl e, w1)
           | (Inr (resp, _), w1) \<Rightarrow> (Inr (if hsStatus resp = 200 then ''ready'' else ''not ready''), w1)))"

definition service_status :: "'w upstream \<Rightarrow> string \<Rightarrow> 'w \<Rightarrow> string \<times> 'w" where
  "service_status up base w =
     (case check_ready up base w of (Inl _, w1) \<Rightarrow> (''unknown'', w1) | (Inr s, w1) \<Rightarrow> (s, w1))"

definition gateway_handleReady :: "encoder \<Rightarrow> 'w upstream \<Rightarrow> gatewayClient \<Rightarrow> http_request \<Rightarrow> 'w \<Rightarrow> http_response \<times> 'w" where
  "gateway_handleReady enc up c r w =
     (if hrMethod r \<noteq> ''GET'' then (gateway_not_allowed enc, w)
      else
        (let (v, w1) = service_status up (gwValidationURL c) w;
             (p, w2) = service_status up (gwReportURL c) w1;
             (o', w3) = service_status up (gwOrchestratorURL c) w2;
             services = [(''validation'', v), (''reporting'', p), (''orchestrator'', o')];
             allReady = list_all (\<lambda>(k, s). s = ''ready'') services
         in (WriteJSON enc (if allReady then 200 else 503)
               (AnyReady \<lparr>stStatus = (if allReady then ''ready'' else ''not ready'')\<rparr> services), w3)))"

definition serve_gateway ::
  "encoder \<Rightarrow> (string \<Rightarrow> string) \<Rightarrow> 'w upstream \<Rightarrow> gatewayClient \<Rightarrow> http_request \<Rightarrow> 'w \<Rightarrow> http_response \<times> 'w" where
  "serve_gateway enc getenv up c r w =
     (if hrPath r = ''/health'' then (gateway_handleHealth enc r, w)
      else if hrPath r = ''/services'' then (handleServices enc getenv c r, w)
      else if hrPath r = ''/validate'' then gateway_handleValidate enc up c r w
      else if hrPath r = ''/dryrun'' then gateway_handleDryRun enc up c r w
      else if hrPath r = ''/run'' then gateway_handleRun enc up c r w
      else if hrPath r = ''/report'' then gateway_handleReport enc up c r w
      else if hrPath r = ''/ready'' then gateway_handleReady enc up c r w
      else (http_Error ''404 page not found'' 404, w))"

section \<open>Reports through the gateway\<close>

text \<open>The network in front of a reporting service at the URL \<open>base\<close>.\<close>

definition reporting_network ::
  "encoder \<Rightarrow> (string \<Rightarrow> string) \<Rightarrow> goerr option option \<Rightarrow> string \<Rightarrow> db upstream" where
  "reporting_network enc coll store_Ping base =
     \<lparr>upNewRequest = (\<lambda>url. None),
      upDo = (\<lambda>method url body db.
        case serve_reporting enc coll store_Ping (server_request base method url body) db of
          (resp, db1) \<Rightarrow> (Inr (resp, None), db1))\<rparr>"

lemma distinct_report_params: "distinct (map fst (report_params q))"
  by (auto simp: report_params_def split: option.split)

lemma map_of_report_params:
  "map_of (report_params q) ''pipeline'' = Some (qPipeline q)"
  "map_of (report_params q) ''run'' = map_option Itoa (qRun q)"
  "map_of (report_params q) ''stage'' = (if qStage q \<noteq> '''' then Some (qStage q) else None)"
  "map_of (report_params q) ''job'' = (if qJob q \<noteq> '''' then Some (qJob q) else None)"
  by (auto simp: report_params_def split: option.split)

lemma Itoa_not_Nil [simp]: "Itoa i \<noteq> []"
  by (simp add: Itoa_def)

text \<open>The reporting service reads the query that the gateway wrote.\<close>

lemma parse_query_of:
  assumes "TrimSpace (Query_Get r ''pipeline'') = qPipeline q" and "TrimSpace (Query_Get r ''stage'') = qStage q"
    and "TrimSpace (Query_Get r ''job'') = qJob q" and "Query_Get r ''run'' = (case qRun q of None \<Rightarrow> '''' | Some n \<Rightarrow> Itoa n)"
    and "\<And>n. qRun q = Some n \<Longrightarrow> - (2 ^ 63) \<le> n \<and> n < 2 ^ 63"
  shows "parseReportQuery r = Inr q"
  using assms(1-4) assms(5) [THEN conjunct1] assms(5) [THEN conjunct2]
  by (cases "qRun q") (auto simp: parseReportQuery_def Atoi_Itoa)

lemma parse_forwarded_query:
  assumes "TrimSpace (qPipeline q) = qPipeline q" and "TrimSpace (qStage q) = qStage q" and "TrimSpace (qJob q) = qJob q"
    and "\<And>n. qRun q = Some n \<Longrightarrow> - (2 ^ 63) \<le> n \<and> n < 2 ^ 63"
  shows "parseReportQuery (server_request base ''GET'' (base @ ''/report'' @ ''?'' @ Values_Encode (report_params q)) body) = Inr q"
proof -
  have "report_params q \<noteq> []" by (simp add: report_params_def)
  note get = server_request_query(2) [OF this distinct_report_params, of "''/report''" base "''GET''" body]
  show ?thesis
    by (rule parse_query_of [OF _ _ _ _ assms(4)], (subst get; use assms(1-3) in \<open>auto simp: map_of_report_params split: option.split\<close>)+)
qed

lemma parseReportQuery_Inr:
  assumes "parseReportQuery r = Inr q"
  shows "TrimSpace (qPipeline q) = qPipeline q" "TrimSpace (qStage q) = qStage q" "TrimSpace (qJob q) = qJob q"
    and "qRun q = Some n \<Longrightarrow> - (2 ^ 63) \<le> n \<and> n < 2 ^ 63"
  using assms Atoi_range by (auto simp: parseReportQuery_def Let_def split: if_splits sum.splits)

lemma gateway_handleReport_query:
  assumes "hrMethod r = ''GET''" and "parseReportQuery r = Inr q"
  shows "gateway_handleReport enc up c r w = finish_proxy enc (forwardReport up c q w)"
  using assms by (auto simp: gateway_handleReport_def parseReportQuery_def Let_def split: if_splits sum.splits)

lemma Values_Encode_not_Nil: "Values_Encode (report_params q) \<noteq> ''''"
proof
  assume "Values_Encode (report_params q) = ''''"
  moreover have "report_params q \<noteq> []" by (simp add: report_params_def)
  ultimately have "sort_key fst (report_params q) = []" using ParseQuery_Encode [of "report_params q"] by (simp add: ParseQuery_def parse_pair_def)
  with \<open>report_params q \<noteq> []\<close> show False by simp
qed

lemma report_through_gateway:
  assumes "hrMethod r = ''GET''" and "hrPath r = ''/report''" and "parseReportQuery r = Inr q"
  shows "serve_gateway enc getenv (reporting_network enc coll store_Ping (gwReportURL c)) c r db =
    serve_reporting enc coll store_Ping r db"
proof -
  let ?url = "gwReportURL c @ ''/report'' @ ''?'' @ Values_Encode (report_params q)"
  let ?r = "server_request (gwReportURL c) ''GET'' ?url (Inr '''')"
  have "report_params q \<noteq> []" by (simp add: report_params_def)
  note req = server_request_query [OF this distinct_report_params, of "''/report''" "gwReportURL c" "''GET''" "Inr ''''", simplified]
  have q: "parseReportQuery ?r = Inr q"
    by (rule parse_forwarded_query [OF parseReportQuery_Inr [OF assms(3)]])
  have same: "serve_reporting enc coll store_Ping ?r db = serve_reporting enc coll store_Ping r db"
    using req q assms by (simp add: serve_reporting_def handleReport_def)
  obtain resp db1 where s: "serve_reporting enc coll store_Ping ?r db = (resp, db1)" by (meson surj_pair)
  have url: "gwReportURL c @ ''/report'' @ (if Values_Encode (report_params q) \<noteq> '''' then ''?'' @ Values_Encode (report_params q) else '''') = ?url"
    using Values_Encode_not_Nil by simp
  have "serve_gateway enc getenv (reporting_network enc coll store_Ping (gwReportURL c)) c r db =
      finish_proxy enc (forwardReport (reporting_network enc coll store_Ping (gwReportURL c)) c q db)"
    using assms by (simp add: serve_gateway_def gateway_handleReport_query)
  also have "\<dots> = (resp, db1)"
    unfolding forwardReport_def Let_def url using s
    by (simp add: forward_def doUpstreamRequest_def wrap_err_def reporting_network_def proxyDownstreamResponse_def finish_proxy_def)
  finally show ?thesis using s same by simp
qed

text \<open>C37. A report through the gateway is the report of the reporting service: for every request whose run
  parameter is a number, with arbitrary bytes in the names, the answer of the gateway and its effect
  on the database are those of the reporting service asked directly.\<close>

theorem gateway_report_transparent:
  assumes "hrMethod r = ''GET''" and "hrPath r = ''/report''" and "parseReportQuery r = Inr q"
  shows "serve_gateway enc getenv (reporting_network enc coll store_Ping (gwReportURL c)) c r db =
    serve_reporting enc coll store_Ping r db"
  using assms by (rule report_through_gateway)

definition demo_report_request :: http_request where
  "demo_report_request = \<lparr>hrMethod = ''GET'', hrPath = ''/report'', hrQuery = [(''pipeline'', '' a&b = c% '')], hrBody = Inr ''''\<rparr>"

lemma gateway_report_transparent_witness:
  "serve_gateway (\<lambda>v. Inr '''') (\<lambda>_. '''') (reporting_network (\<lambda>v. Inr '''') id None (gwReportURL (NewClient (\<lambda>_. '''')))) (NewClient (\<lambda>_. ''''))
     demo_report_request demo_report_db = serve_reporting (\<lambda>v. Inr '''') id None demo_report_request demo_report_db"
proof -
  have "parseReportQuery demo_report_request = Inr \<lparr>qPipeline = ''a&b = c%'', qRun = None, qStage = '''', qJob = ''''\<rparr>"
    by code_simp
  then show ?thesis by (rule gateway_report_transparent [rotated 2]) (simp_all add: demo_report_request_def)
qed

end
