(* ===== verification/Pipeline_Path.thy ===== *)
theory Pipeline_Path
  imports Gostd "HOL-Library.Sublist"
begin

text \<open>
  \<open>internal/common/pipelinepath\<close>: from the path a user gives to the pipeline file that is read. The file
  system is a parameter that answers \<open>os.Stat\<close>. The theory shows that the result never leaves the
  \<open>.pipelines\<close> directory of the repository (in the lexical sense of \<open>filepath\<close>; symbolic links are not
  followed by the code), that only that directory itself is accepted as a directory, and that a plain
  file name below it is found.
\<close>

section \<open>Resolution\<close>

text \<open>The answer of \<open>os.Stat\<close>: an error that \<open>os.IsNotExist\<close> recognizes, another error, a directory or a file.\<close>

datatype stat = StatNotExist goerr | StatError goerr | StatDir | StatFile

definition isPathWithinDir :: "string \<Rightarrow> string \<Rightarrow> bool" where
  "isPathWithinDir root target =
     (case filepath_Rel root target of
        Inl _ \<Rightarrow> False
      | Inr rel \<Rightarrow> let rel = filepath_Clean rel in rel = ''.'' \<or> \<not> pathEscapesParent rel)"

definition isPipelineRootRelativePath :: "string \<Rightarrow> bool" where
  "isPipelineRootRelativePath p \<longleftrightarrow> p = DefaultPipelineDir \<or> HasPrefix p (DefaultPipelineDir @ ''/'')"

definition toRepoRelativePipelinePath :: "string \<Rightarrow> string \<Rightarrow> goerr + string" where
  "toRepoRelativePipelinePath rootDir inputPath =
     (case filepath_Rel rootDir inputPath of
        Inl e \<Rightarrow> Inl (wrapf (''failed to resolve pipeline path '' @ quoted inputPath @ '' relative to repository root: '') e)
      | Inr rel0 \<Rightarrow>
          let rel = filepath_Clean rel0 in
          if pathEscapesParent rel then Inl (Errorf (''pipeline path must stay within the repository: '' @ inputPath)) else Inr rel)"

definition stat_failed :: "string \<Rightarrow> goerr \<Rightarrow> goerr" where
  "stat_failed p e = wrapf (''failed to get the info of path '' @ quoted p @ '': '') e"

definition directory_error :: goerr where
  "directory_error = Errorf (''pipeline directory must be '' @ quoted DefaultPipelineDir)"

definition outside_error :: "string \<Rightarrow> goerr" where
  "outside_error inputPath = Errorf (''pipeline file must be inside '' @ quoted DefaultPipelineDir @ '': '' @ inputPath)"

definition statPipelineTarget :: "(string \<Rightarrow> stat) \<Rightarrow> string \<Rightarrow> goerr + bool" where
  "statPipelineTarget fs p =
     (case fs p of
        StatNotExist e \<Rightarrow> Inl (stat_failed p e)
      | StatError e \<Rightarrow> Inl (stat_failed p e)
      | StatDir \<Rightarrow> Inr True
      | StatFile \<Rightarrow> Inr False)"

text \<open>The input exists at its own place in the repository (\<open>isDir\<close> from its file info).\<close>

definition explicit_target :: "string \<Rightarrow> string \<Rightarrow> string \<Rightarrow> string \<Rightarrow> bool \<Rightarrow> goerr + string \<times> bool" where
  "explicit_target pipelineRoot inputPath repoRelativeInput explicitRepoPath isDir =
     (if repoRelativeInput = DefaultPipelineDir then
        (if \<not> isDir then Inl (Errorf (''pipeline directory '' @ quoted pipelineRoot @ '' is not a directory''))
         else Inr (pipelineRoot, isDir))
      else if isPathWithinDir pipelineRoot explicitRepoPath then
        (if isDir then Inl directory_error else Inr (explicitRepoPath, isDir))
      else if isDir then Inl directory_error
      else Inl (outside_error inputPath))"

text \<open>It does not exist there: it is looked for below \<open>.pipelines\<close>.\<close>

definition implicit_target :: "(string \<Rightarrow> stat) \<Rightarrow> string \<Rightarrow> string \<Rightarrow> string \<Rightarrow> goerr + string \<times> bool" where
  "implicit_target fs pipelineRoot inputPath cleanInput =
     (if IsAbs cleanInput then Inl (outside_error inputPath)
      else if pathEscapesParent cleanInput then Inl (outside_error inputPath)
      else
        (let finalPath = filepath_Clean (filepath_Join pipelineRoot cleanInput) in
         if \<not> isPathWithinDir pipelineRoot finalPath
         then Inl (Errorf (''pipeline path escapes '' @ quoted DefaultPipelineDir @ '': '' @ inputPath))
         else
           (case statPipelineTarget fs finalPath of
              Inl e \<Rightarrow> Inl e
            | Inr isDir \<Rightarrow> if isDir then Inl directory_error else Inr (finalPath, isDir))))"

definition resolveInputPathFromWorkingDir :: "(string \<Rightarrow> stat) \<Rightarrow> string \<Rightarrow> string \<Rightarrow> string \<Rightarrow> goerr + string \<times> bool" where
  "resolveInputPathFromWorkingDir fs rootDir workingDir inputPath =
     (let pipelineRoot = filepath_Join rootDir DefaultPipelineDir;
          cleanInput = filepath_Clean (TrimSpace inputPath)
      in if TrimSpace inputPath = '''' then Inl (Errorf ''pipeline path must not be empty'')
         else
           (let absoluteInputPath = filepath_Clean
                  (if \<not> IsAbs cleanInput then
                     (if isPipelineRootRelativePath cleanInput then filepath_Join rootDir cleanInput
                      else filepath_Join workingDir cleanInput)
                   else cleanInput)
            in case toRepoRelativePipelinePath rootDir absoluteInputPath of
                 Inl e \<Rightarrow> Inl e
               | Inr repoRelativeInput \<Rightarrow>
                   (let explicitRepoPath = filepath_Clean (filepath_Join rootDir repoRelativeInput) in
                    case fs explicitRepoPath of
                      StatDir \<Rightarrow> explicit_target pipelineRoot inputPath repoRelativeInput explicitRepoPath True
                    | StatFile \<Rightarrow> explicit_target pipelineRoot inputPath repoRelativeInput explicitRepoPath False
                    | StatError e \<Rightarrow> Inl (stat_failed explicitRepoPath e)
                    | StatNotExist e \<Rightarrow>
                        if repoRelativeInput = DefaultPipelineDir \<or> isPathWithinDir pipelineRoot explicitRepoPath
                        then Inl (stat_failed explicitRepoPath e)
                        else implicit_target fs pipelineRoot inputPath cleanInput)))"

definition ResolveInputPath :: "(string \<Rightarrow> stat) \<Rightarrow> (goerr + string) \<Rightarrow> string \<Rightarrow> string \<Rightarrow> goerr + string \<times> bool" where
  "ResolveInputPath fs getwd rootDir inputPath =
     (case getwd of
        Inl e \<Rightarrow> Inl (wrapf ''failed to get current working directory: '' e)
      | Inr cwd \<Rightarrow> resolveInputPathFromWorkingDir fs rootDir cwd inputPath)"

section \<open>Relative paths\<close>

lemma split_on_append_any: "split_on d (x @ d # s) = split_on d x @ split_on d s"
proof (induction x)
  case (Cons c x)
  then show ?case by (cases "split_on d x") (auto split: list.splits)
qed simp

lemma IsAbs_append [simp]: "IsAbs a \<Longrightarrow> IsAbs (a @ b)"
  by (cases a) (simp_all add: IsAbs_def HasPrefix_def)

lemma IsAbs_Join [simp]: "IsAbs a \<Longrightarrow> IsAbs (filepath_Join a b)"
  by (cases "a = []") (simp_all add: filepath_Join_def, simp add: IsAbs_def HasPrefix_def)

lemma elements_Join:
  assumes "IsAbs a"
  shows "elements (filepath_Join a b) = rev (foldl (clean_elem True) (rev (elements a)) (split_on slash b))"
proof -
  have "a \<noteq> ''''" using assms by (auto simp: IsAbs_def HasPrefix_def)
  then have "elements (filepath_Join a b) = elements (a @ ''/'' @ b)" using assms by (simp add: filepath_Join_def)
  also have "\<dots> = rev (foldl (clean_elem True) (rev (elements a)) (split_on slash b))"
    using assms by (simp add: elements_def split_on_append_any)
  finally show ?thesis .
qed

lemma elements_Join_plain: "IsAbs a \<Longrightarrow> plain e \<Longrightarrow> elements (filepath_Join a e) = elements a @ [e]"
  by (simp add: elements_Join plain_def split_on_no_sep clean_elem_def)

lemma drop_common_prefix: "drop_common bs ts = ([], ts') \<Longrightarrow> prefix bs ts"
  by (induction bs ts rule: drop_common.induct) (auto split: if_splits)

lemma drop_common_suffix: "drop_common bs ts = (bs', ts') \<Longrightarrow> set bs' \<subseteq> set bs \<and> set ts' \<subseteq> set ts"
  by (induction bs ts rule: drop_common.induct) (auto split: if_splits)

lemma foldl_dotdot: "foldl (clean_elem False) (replicate m ''..'') (replicate n ''..'') = replicate (m + n) ''..''"
proof (induction n arbitrary: m)
  case (Suc n)
  have "clean_elem False (replicate m ''..'') ''..'' = replicate (Suc m) ''..''"
    by (cases m) (simp_all add: clean_elem_def)
  with Suc [of "Suc m"] show ?case by simp
qed simp

lemma up_escapes:
  assumes "0 < n" and "\<forall>e \<in> set ts. plain e"
  shows "pathEscapesParent (filepath_Clean (path_string False (replicate n ''..'' @ ts)))"
proof -
  let ?es = "replicate n ''..'' @ ts"
  obtain m where n: "n = Suc m" using assms(1) by (cases n) auto
  have "slash \<notin> set e" if "e \<in> set ?es" for e
  proof -
    have "e = ''..'' \<or> plain e" using that assms(2) by auto
    then show ?thesis by (auto simp: plain_def)
  qed
  then have split: "split_on slash (Join ?es ''/'') = ?es" using n by (intro split_on_Join) auto
  have p: "path_string False ?es = Join ?es ''/''" using n by (simp add: path_string_def)
  have "Join (x # r) ''/'' = x @ (if r = [] then [] else ''/'' @ Join r ''/'')" for x r by (cases r) simp_all
  from this [of "''..''" "replicate m ''..'' @ ts"] n
  have starts: "pathEscapesParent (Join ?es ''/'')" and rel: "\<not> IsAbs (Join ?es ''/'')"
    by (simp_all add: pathEscapesParent_def HasPrefix_def IsAbs_def)
  have "foldl (clean_elem False) [] ?es = rev ts @ replicate n ''..''"
    using foldl_dotdot [of 0 n] assms(2) by (simp add: foldl_clean_plain)
  then have "elements (Join ?es ''/'') = ?es" using rel split by (simp add: elements_def)
  with rel starts p show ?thesis by (simp add: filepath_Clean_def)
qed

lemma Rel_inside:
  assumes "IsAbs root" and "IsAbs target" and "filepath_Rel root target = Inr rel" and "\<not> pathEscapesParent (filepath_Clean rel)"
  shows "prefix (elements root) (elements target)"
proof -
  obtain bs ts where d: "drop_common (elements root) (elements target) = (bs, ts)" by (meson surj_pair)
  have "\<forall>e \<in> set ts. plain e" using drop_common_suffix [OF d] elements_plain [OF assms(2)] by blast
  moreover have "rel = path_string False (replicate (length bs) ''..'' @ ts)"
    using assms(1-3) d by (auto simp: filepath_Rel_def Let_def split: if_splits)
  ultimately have "length bs = 0" using up_escapes [of "length bs" ts] assms(4) by (cases "length bs") auto
  with d show ?thesis by (auto dest: drop_common_prefix)
qed

lemma isPathWithinDir_prefix:
  assumes "isPathWithinDir root target" and "IsAbs root" and "IsAbs target"
  shows "prefix (elements root) (elements target)"
proof -
  from assms(1) obtain rel where r: "filepath_Rel root target = Inr rel"
    and c: "filepath_Clean rel = ''.'' \<or> \<not> pathEscapesParent (filepath_Clean rel)"
    by (auto simp: isPathWithinDir_def Let_def split: sum.splits)
  have "\<not> pathEscapesParent ''.''" by (simp add: pathEscapesParent_def HasPrefix_def)
  with c have "\<not> pathEscapesParent (filepath_Clean rel)" by auto
  with Rel_inside [OF assms(2,3) r] show ?thesis .
qed

section \<open>Confinement\<close>

lemma plain_pipeline_dir: "plain DefaultPipelineDir"
  by (simp add: plain_def DefaultPipelineDir_def)

text \<open>C14. Pipeline files are confined: whatever path is given, from whatever working directory, a resolved
  path lies in the \<open>.pipelines\<close> directory of the repository, it exists, and it is a directory only when
  it is that directory itself.\<close>

theorem ResolveInputPath_confined:
  assumes "IsAbs rootDir" and "ResolveInputPath fs getwd rootDir inputPath = Inr (p, isDir)"
  shows "IsAbs p \<and> prefix (elements rootDir @ [DefaultPipelineDir]) (elements p)
    \<and> (if isDir then elements p = elements rootDir @ [DefaultPipelineDir] else fs p = StatFile)"
proof -
  let ?root = "filepath_Join rootDir DefaultPipelineDir"
  have root: "IsAbs ?root" "elements ?root = elements rootDir @ [DefaultPipelineDir]"
    using assms(1) elements_Join_plain [OF _ plain_pipeline_dir] by simp_all
  from assms(2) obtain cwd where r: "resolveInputPathFromWorkingDir fs rootDir cwd inputPath = Inr (p, isDir)"
    by (auto simp: ResolveInputPath_def split: sum.splits)
  let ?clean = "filepath_Clean (TrimSpace inputPath)"
  from r consider rel where "explicit_target ?root inputPath rel (filepath_Clean (filepath_Join rootDir rel)) True = Inr (p, isDir)"
    | rel where "explicit_target ?root inputPath rel (filepath_Clean (filepath_Join rootDir rel)) False = Inr (p, isDir)"
        "fs (filepath_Clean (filepath_Join rootDir rel)) = StatFile"
    | "implicit_target fs ?root inputPath ?clean = Inr (p, isDir)"
    unfolding resolveInputPathFromWorkingDir_def Let_def by (auto split: if_splits sum.splits stat.splits)
  then show ?thesis
  proof cases
    case 1
    then show ?thesis using root by (auto simp: explicit_target_def split: if_splits)
  next
    case 2
    then have "p = filepath_Clean (filepath_Join rootDir rel)" "\<not> isDir" "isPathWithinDir ?root p"
      by (auto simp: explicit_target_def split: if_splits)
    with 2 assms(1) root isPathWithinDir_prefix [of ?root p] show ?thesis by simp
  next
    case 3
    then have "p = filepath_Clean (filepath_Join ?root ?clean)" "\<not> isDir" "isPathWithinDir ?root p" "statPipelineTarget fs p = Inr False"
      by (auto simp: implicit_target_def Let_def split: if_splits sum.splits)
    with root isPathWithinDir_prefix [of ?root p] show ?thesis
      by (auto simp: statPipelineTarget_def split: stat.splits)
  qed
qed

definition demo_fs :: "string \<Rightarrow> stat" where
  "demo_fs p = (if p = ''/repo/.pipelines/build.yaml'' then StatFile else StatNotExist (Errorf ''no such file''))"

lemma ResolveInputPath_confined_witness:
  "ResolveInputPath demo_fs (Inr ''/repo/cmd'') ''/repo'' '' ./build.yaml'' = Inr (''/repo/.pipelines/build.yaml'', False)
   \<and> prefix (elements ''/repo'' @ [DefaultPipelineDir]) (elements ''/repo/.pipelines/build.yaml'')"
proof -
  have "IsAbs ''/repo''" by code_simp
  moreover have r: "ResolveInputPath demo_fs (Inr ''/repo/cmd'') ''/repo'' '' ./build.yaml'' = Inr (''/repo/.pipelines/build.yaml'', False)"
    by code_simp
  ultimately show ?thesis using ResolveInputPath_confined by blast
qed

end
