(* ===== verification/Git.thy ===== *)
theory Git
  imports Pipeline_Path
begin

text \<open>
  \<open>internal/common/gitutil\<close>: what the CLI asks of the repository. The git library, the git command and the
  file system are parameters: a record of their calls on a world state. Modelled are the head and branch
  queries, the search for a commit in the history of a local or remote branch with its authentication,
  and reading a file at a commit through a temporary worktree. Shown: reading removes the worktree it
  makes and stays inside the repository, and the search finds exactly the commits of the history.
\<close>

section \<open>The repository\<close>

record Repository =
  repoRoot :: string

record git_head =
  ghIsBranch :: bool
  ghShort :: string
  ghHash :: string

datatype git_auth = HttpBasic string string | SshKeys string string

text \<open>\<open>gtLog\<close> gives the hashes of the history and the error that ends it, if any; \<open>gtRun\<close> runs the git command with
  its arguments and gives its combined output, also on failure.\<close>

record 'w git =
  gtPlainOpen :: "string \<Rightarrow> goerr + nat"
  gtWorktreeRoot :: "nat \<Rightarrow> goerr + string"
  gtNewHash :: "string \<Rightarrow> string"
  gtHead :: "'w \<Rightarrow> goerr + git_head"
  gtReference :: "string \<Rightarrow> 'w \<Rightarrow> goerr + string"
  gtLog :: "string \<Rightarrow> 'w \<Rightarrow> goerr + string list \<times> goerr option"
  gtRemote :: "string \<Rightarrow> 'w \<Rightarrow> goerr + string list option"
  gtFetch :: "string \<Rightarrow> string \<Rightarrow> git_auth option \<Rightarrow> ('w, unit) op"
  gtEndpointScheme :: "string \<Rightarrow> goerr + string"
  gtLoadKeys :: "string \<Rightarrow> string \<Rightarrow> string \<Rightarrow> goerr + git_auth"
  gtMkdirTemp :: "string \<Rightarrow> ('w, string) op"
  gtRun :: "string list \<Rightarrow> 'w \<Rightarrow> (goerr option \<times> string) \<times> 'w"
  gtRemoveAll :: "string \<Rightarrow> ('w, unit) op"
  gtReadFile :: "string \<Rightarrow> 'w \<Rightarrow> goerr + string"
  gtGetwd :: "goerr + string"

definition git_Open :: "'w git \<Rightarrow> string \<Rightarrow> goerr + Repository" where
  "git_Open g dir =
     (case gtPlainOpen g dir of
        Inl e \<Rightarrow> Inl (wrapf (''directory '' @ quoted dir @ '' is not inside a git repository: '') e)
      | Inr repo \<Rightarrow>
          (case gtWorktreeRoot g repo of
             Inl e \<Rightarrow> Inl (wrapf ''failed to get git worktree: '' e)
           | Inr root \<Rightarrow> Inr \<lparr>repoRoot = root\<rparr>))"

definition GetHeadBranch :: "'w git \<Rightarrow> 'w \<Rightarrow> goerr + string" where
  "GetHeadBranch g w =
     (case gtHead g w of
        Inl e \<Rightarrow> Inl (wrapf ''failed to get HEAD: '' e)
      | Inr ref \<Rightarrow> if ghIsBranch ref then Inr (ghShort ref) else Inl (Errorf (''detached HEAD at '' @ ghHash ref)))"

definition GetHeadCommit :: "'w git \<Rightarrow> 'w \<Rightarrow> goerr + string" where
  "GetHeadCommit g w =
     (case gtHead g w of Inl e \<Rightarrow> Inl (wrapf ''failed to get HEAD: '' e) | Inr ref \<Rightarrow> Inr (ghHash ref))"

definition NewBranchReferenceName :: "string \<Rightarrow> string" where
  "NewBranchReferenceName branch = ''refs/heads/'' @ branch"

definition GetHeadCommitByBranch :: "'w git \<Rightarrow> string \<Rightarrow> 'w \<Rightarrow> goerr + string" where
  "GetHeadCommitByBranch g branch w =
     (case gtReference g (NewBranchReferenceName branch) w of
        Inl e \<Rightarrow> Inl (wrapf (''branch: '' @ quoted branch @ '' not found: '') e)
      | Inr hash \<Rightarrow> Inr hash)"

section \<open>Worktrees\<close>

definition CreateDetachedWorktree :: "'w git \<Rightarrow> Repository \<Rightarrow> string \<Rightarrow> ('w, string) op" where
  "CreateDetachedWorktree g r commit w =
     (case gtMkdirTemp g ''cicd-run-wt-*'' w of
        (Inl e, w1) \<Rightarrow> (Inl (wrapf ''create temp dir failed: '' e), w1)
      | (Inr tmpDir, w1) \<Rightarrow>
          (case gtRun g [''-C'', repoRoot r, ''worktree'', ''add'', ''--detach'', tmpDir, commit] w1 of
             ((Some e, out), w2) \<Rightarrow>
               (Inl (Errorf (''git worktree add failed: '' @ Error e @ '', output: '' @ out)), snd (gtRemoveAll g tmpDir w2))
           | ((None, out), w2) \<Rightarrow> (Inr tmpDir, w2)))"

text \<open>The clean-up function that comes with a worktree.\<close>

definition remove_worktree :: "'w git \<Rightarrow> Repository \<Rightarrow> string \<Rightarrow> 'w \<Rightarrow> 'w" where
  "remove_worktree g r tmpDir w =
     snd (gtRemoveAll g tmpDir
       (snd (gtRun g [''-C'', repoRoot r, ''worktree'', ''prune'']
         (snd (gtRun g [''-C'', repoRoot r, ''worktree'', ''remove'', ''--force'', tmpDir] w)))))"

definition resolveRepoRelativePath :: "'w git \<Rightarrow> Repository \<Rightarrow> string \<Rightarrow> goerr + string" where
  "resolveRepoRelativePath g r filePath =
     (case gtGetwd g of
        Inl e \<Rightarrow> Inl (wrapf ''failed to get current working directory: '' e)
      | Inr cwd \<Rightarrow>
          (let absPath = filepath_Clean (if \<not> IsAbs filePath then filepath_Join cwd filePath else filePath) in
           case filepath_Rel (repoRoot r) absPath of
             Inl e \<Rightarrow> Inl (wrapf (''failed to resolve file '' @ quoted filePath @ '' relative to repository root: '') e)
           | Inr rel \<Rightarrow>
               (let relPath = filepath_Clean rel in
                if pathEscapesParent relPath then Inl (Errorf (''file is outside repository: '' @ filePath)) else Inr relPath)))"

definition ReadFileAtCommit :: "'w git \<Rightarrow> Repository \<Rightarrow> string \<Rightarrow> string \<Rightarrow> ('w, string) op" where
  "ReadFileAtCommit g r commit0 filePath0 w =
     (let commit = TrimSpace commit0; filePath = TrimSpace filePath0 in
      if commit = '''' then (Inl (Errorf ''commit is required''), w)
      else if filePath = '''' then (Inl (Errorf ''file path is required''), w)
      else
        (case resolveRepoRelativePath g r filePath of
           Inl e \<Rightarrow> (Inl e, w)
         | Inr relPath \<Rightarrow>
             (case CreateDetachedWorktree g r commit w of
                (Inl e, w1) \<Rightarrow> (Inl (wrapf (''failed to prepare workspace for commit '' @ quoted commit @ '': '') e), w1)
              | (Inr worktreeDir, w1) \<Rightarrow>
                  (case gtReadFile g (filepath_Join worktreeDir relPath) w1 of
                     Inl e \<Rightarrow>
                       Inl (wrapf (''failed to read file '' @ quoted filePath @ '' at commit '' @ quoted commit @ '': '') e)
                   | Inr content \<Rightarrow> Inr content,
                   remove_worktree g r worktreeDir w1))))"

section \<open>Commits of a branch\<close>

text \<open>The iteration over the history stops at the commit it looks for, or at its error.\<close>

definition search_log :: "'w git \<Rightarrow> string \<Rightarrow> string \<Rightarrow> 'w \<Rightarrow> goerr + bool" where
  "search_log g tip target w =
     (if tip = target then Inr True
      else
        (case gtLog g tip w of
           Inl e \<Rightarrow> Inl e
         | Inr (hashes, err) \<Rightarrow>
             if target \<in> set hashes then Inr True
             else (case err of Some e \<Rightarrow> Inl e | None \<Rightarrow> Inr False)))"

definition BranchContainsCommit :: "'w git \<Rightarrow> string \<Rightarrow> string \<Rightarrow> 'w \<Rightarrow> goerr + bool" where
  "BranchContainsCommit g branch commitSHA w =
     (case gtReference g (NewBranchReferenceName branch) w of
        Inl e \<Rightarrow> Inl e
      | Inr tip \<Rightarrow> search_log g tip (gtNewHash g commitSHA) w)"

definition buildRemoteAuth :: "'w git \<Rightarrow> (string \<Rightarrow> string) \<Rightarrow> string \<Rightarrow> goerr + git_auth option" where
  "buildRemoteAuth g getenv remoteURL =
     (case gtEndpointScheme g (TrimSpace remoteURL) of
        Inl e \<Rightarrow> Inl (wrapf ''parse remote URL: '' e)
      | Inr scheme \<Rightarrow>
          if scheme = ''http'' \<or> scheme = ''https'' then
            (let token = TrimSpace (getenv ''CICD_GIT_TOKEN''); user = TrimSpace (getenv ''CICD_GIT_USERNAME'') in
             if token = '''' then Inr None
             else Inr (Some (HttpBasic (if user = '''' then ''x-access-token'' else user) token)))
          else if scheme = ''ssh'' then
            (let keyPath = TrimSpace (getenv ''CICD_SSH_KEY_PATH''); sshUser = TrimSpace (getenv ''CICD_SSH_USER'') in
             if keyPath = '''' then Inr None
             else
               (case gtLoadKeys g (if sshUser = '''' then ''git'' else sshUser) keyPath (getenv ''CICD_SSH_KEY_PASSPHRASE'') of
                  Inl e \<Rightarrow> Inl (wrapf (''load ssh auth from '' @ quoted keyPath @ '': '') e)
                | Inr auth \<Rightarrow> Inr (Some auth)))
          else Inr None)"

fun firstNonEmptyURL :: "string list \<Rightarrow> string" where
  "firstNonEmptyURL [] = ''''"
| "firstNonEmptyURL (raw # urls) = (let url = TrimSpace raw in if url \<noteq> '''' then url else firstNonEmptyURL urls)"

definition GetRepoURL :: "'w git \<Rightarrow> string \<Rightarrow> 'w \<Rightarrow> goerr + string" where
  "GetRepoURL g remoteName0 w =
     (let remoteName = TrimSpace remoteName0;
          none = Inl (Errorf (''remote '' @ quoted remoteName @ '' has no configured URL''))
      in if remoteName = '''' then Inl (Errorf ''remote name is required'')
         else
           (case gtRemote g remoteName w of
              Inl e \<Rightarrow> Inl (wrapf (''remote '' @ quoted remoteName @ '' not found: '') e)
            | Inr None \<Rightarrow> none
            | Inr (Some urls) \<Rightarrow>
                if urls = [] then none
                else let url = firstNonEmptyURL urls in if url \<noteq> '''' then Inr url else none))"

definition branch_refspec :: "string \<Rightarrow> string \<Rightarrow> string" where
  "branch_refspec remoteName branch = ''+refs/heads/'' @ branch @ '':refs/remotes/'' @ remoteName @ ''/'' @ branch"

text \<open>Fetching: the library's error for a branch that is already up to date is no error. The first attempt is
  anonymous; only an authentication error leads to a second one, with credentials.\<close>

definition fetch_branch :: "'w git \<Rightarrow> string \<Rightarrow> string \<Rightarrow> git_auth option \<Rightarrow> ('w, unit) op" where
  "fetch_branch g remoteName branch auth w =
     (case gtFetch g remoteName (branch_refspec remoteName branch) auth w of
        (Inl e, w1) \<Rightarrow> (if errors_Is e ErrAlreadyUpToDate then Inr () else Inl e, w1)
      | (Inr u, w1) \<Rightarrow> (Inr (), w1))"

definition fetch_with_auth ::
  "'w git \<Rightarrow> (string \<Rightarrow> string) \<Rightarrow> string \<Rightarrow> string \<Rightarrow> string \<Rightarrow> git_auth option \<Rightarrow> ('w, unit) op" where
  "fetch_with_auth g getenv remoteName branch remoteURL auth w =
     (case fetch_branch g remoteName branch None w of
        (Inr u, w1) \<Rightarrow> (Inr (), w1)
      | (Inl err, w1) \<Rightarrow>
          if errors_Is err ErrAuthenticationRequired \<or> errors_Is err ErrAuthorizationFailed then
            (case (case auth of Some a \<Rightarrow> Inr (Some a) | None \<Rightarrow> buildRemoteAuth g getenv remoteURL) of
               Inl e \<Rightarrow> (Inl e, w1)
             | Inr None \<Rightarrow>
                 (Inl (Errorf (''remote '' @ quoted remoteName
                    @ '' requires authentication; set CICD_GIT_TOKEN (HTTPS) or CICD_SSH_KEY_PATH (SSH)'')), w1)
             | Inr (Some a) \<Rightarrow>
                 wrap_err (wrapf ''fetch remote branch with auth: '') (fetch_branch g remoteName branch (Some a)) w1)
          else (Inl (wrapf ''fetch remote branch: '' err), w1))"

definition RemoteBranchContainsCommit ::
  "'w git \<Rightarrow> (string \<Rightarrow> string) \<Rightarrow> string \<Rightarrow> string \<Rightarrow> string \<Rightarrow> git_auth option \<Rightarrow> ('w, bool) op" where
  "RemoteBranchContainsCommit g getenv remoteName0 branch0 commitSHA0 auth w =
     (let remoteName = TrimSpace remoteName0; branch = TrimSpace branch0; commitSHA = TrimSpace commitSHA0 in
      if remoteName = '''' then (Inl (Errorf ''remote name is required''), w)
      else if branch = '''' then (Inl (Errorf ''branch is required''), w)
      else if commitSHA = '''' then (Inl (Errorf ''commit is required''), w)
      else
        (case GetRepoURL g remoteName w of
           Inl e \<Rightarrow> (Inl e, w)
         | Inr remoteURL \<Rightarrow>
             (case fetch_with_auth g getenv remoteName branch remoteURL auth w of
                (Inl e, w1) \<Rightarrow> (Inl e, w1)
              | (Inr _, w1) \<Rightarrow>
                  (case gtReference g (''refs/remotes/'' @ remoteName @ ''/'' @ branch) w1 of
                     Inl e \<Rightarrow> Inl e
                   | Inr tip \<Rightarrow> search_log g tip (gtNewHash g commitSHA) w1, w1))))"

section \<open>Worktrees are removed\<close>

text \<open>
  The contract of the host: \<open>dirs\<close> are the temporary directories there are, \<open>stuck\<close> the list of those that
  could not be removed. The git command removes a directory only as a worktree it is asked to remove.
\<close>

locale worktree_host =
  fixes g :: "'w git" and dirs :: "'w \<Rightarrow> string set" and stuck :: "'w \<Rightarrow> string list"
  assumes mkdir_one: "gtMkdirTemp g pattern w = (r, w1) \<Longrightarrow> stuck w1 = stuck w \<and>
      (case r of Inl e \<Rightarrow> dirs w1 = dirs w | Inr d \<Rightarrow> d \<notin> dirs w \<and> dirs w1 = insert d (dirs w))"
    and run_add: "gtRun g [''-C'', root, ''worktree'', ''add'', ''--detach'', d, c] w = (u, w1) \<Longrightarrow>
      dirs w1 = dirs w \<and> stuck w1 = stuck w"
    and run_prune: "gtRun g [''-C'', root, ''worktree'', ''prune''] w = (u, w1) \<Longrightarrow> dirs w1 = dirs w \<and> stuck w1 = stuck w"
    and run_remove: "gtRun g [''-C'', root, ''worktree'', ''remove'', ''--force'', d] w = (u, w1) \<Longrightarrow>
      (dirs w1 = dirs w \<or> dirs w1 = dirs w - {d}) \<and> stuck w1 = stuck w"
    and remove_all_one: "gtRemoveAll g d w = (v, w1) \<Longrightarrow>
      (case v of Inl e \<Rightarrow> dirs w1 = dirs w \<and> stuck w1 = d # stuck w | Inr _ \<Rightarrow> dirs w1 = dirs w - {d} \<and> stuck w1 = stuck w)"
begin

text \<open>What is left of the directories: all there were, and at most those that could not be removed.\<close>

definition tidied :: "'w \<Rightarrow> 'w \<Rightarrow> bool" where
  "tidied w w1 \<longleftrightarrow> (\<exists>fs. stuck w1 = fs @ stuck w \<and> dirs w \<subseteq> dirs w1 \<and> dirs w1 \<subseteq> dirs w \<union> set fs)"

lemma create_worktree:
  assumes "CreateDetachedWorktree g r commit w = (res, w1)"
  shows "case res of Inl e \<Rightarrow> tidied w w1
    | Inr d \<Rightarrow> d \<notin> dirs w \<and> dirs w1 = insert d (dirs w) \<and> stuck w1 = stuck w"
proof -
  obtain m w0 where mk: "gtMkdirTemp g ''cicd-run-wt-*'' w = (m, w0)" by (meson surj_pair)
  show ?thesis
  proof (cases m)
    case (Inl e)
    with assms mk mkdir_one [OF mk] show ?thesis by (auto simp: CreateDetachedWorktree_def tidied_def)
  next
    case (Inr d)
    obtain err out w2 where run: "gtRun g [''-C'', repoRoot r, ''worktree'', ''add'', ''--detach'', d, commit] w0 = ((err, out), w2)"
      by (metis prod.exhaust)
    have w2: "d \<notin> dirs w" "dirs w2 = insert d (dirs w)" "stuck w2 = stuck w"
      using mkdir_one [OF mk] run_add [OF run] Inr by auto
    obtain v w3 where rm: "gtRemoveAll g d w2 = (v, w3)" by (meson surj_pair)
    have "tidied w w3"
      using remove_all_one [OF rm] w2 unfolding tidied_def by (cases v) (auto intro: exI [of _ "[d]"] exI [of _ "[]"])
    with assms mk Inr run w2 rm show ?thesis by (cases err) (auto simp: CreateDetachedWorktree_def)
  qed
qed

lemma removed_worktree:
  assumes "d \<notin> dirs w" and "dirs w1 = insert d (dirs w)" and "stuck w1 = stuck w"
  shows "tidied w (remove_worktree g r d w1)"
proof -
  obtain u w2 where a: "gtRun g [''-C'', repoRoot r, ''worktree'', ''remove'', ''--force'', d] w1 = (u, w2)" by (meson surj_pair)
  obtain u' w3 where b: "gtRun g [''-C'', repoRoot r, ''worktree'', ''prune''] w2 = (u', w3)" by (meson surj_pair)
  obtain v w4 where c: "gtRemoveAll g d w3 = (v, w4)" by (meson surj_pair)
  have "tidied w w4"
    using assms run_remove [OF a] run_prune [OF b] remove_all_one [OF c] unfolding tidied_def
    by (cases v) (auto intro: exI [of _ "[d]"] exI [of _ "[]"])
  then show ?thesis by (simp add: remove_worktree_def a b c)
qed

lemma tidied_refl [simp]: "tidied w w"
  by (simp add: tidied_def)

lemma ReadFileAtCommit_tidied: "tidied w (snd (ReadFileAtCommit g r commit path w))"
proof -
  obtain res w1 where c: "CreateDetachedWorktree g r (TrimSpace commit) w = (res, w1)" by (meson surj_pair)
  note m = create_worktree [OF c]
  show ?thesis
  proof (cases res)
    case (Inl e)
    with c m show ?thesis by (auto simp: ReadFileAtCommit_def Let_def split: sum.split)
  next
    case (Inr d)
    with m have "tidied w (remove_worktree g r d w1)" using removed_worktree by simp
    with c Inr show ?thesis by (auto simp: ReadFileAtCommit_def Let_def split: sum.split)
  qed
qed

end

text \<open>The file read at a commit is a path of the repository.\<close>

lemma resolveRepoRelativePath_inside:
  assumes "IsAbs (repoRoot r)" and "gtGetwd g = Inr cwd" and "IsAbs cwd" and "resolveRepoRelativePath g r p = Inr rel"
  shows "prefix (elements (repoRoot r)) (elements (if IsAbs p then p else filepath_Join cwd p))"
proof -
  let ?p = "filepath_Clean (if \<not> IsAbs p then filepath_Join cwd p else p)"
  from assms(2,4) obtain rel0 where rel: "filepath_Rel (repoRoot r) ?p = Inr rel0" "\<not> pathEscapesParent (filepath_Clean rel0)"
    by (auto simp: resolveRepoRelativePath_def Let_def split: sum.splits if_splits)
  have "IsAbs ?p" using assms(3) by simp
  from Rel_inside [OF assms(1) this rel] show ?thesis using assms(3) by (auto split: if_splits)
qed

section \<open>A repository in memory\<close>

record gitworld =
  gwDirs :: "string list"
  gwStuck :: "string list"
  gwOut :: "string list"

definition fresh_dir :: "gitworld \<Rightarrow> string" where
  "fresh_dir w = ''/tmp/'' @ replicate (Suc (sum_list (map length (gwDirs w)))) (CHR ''x'')"

lemma fresh_dir_fresh: "fresh_dir w \<notin> set (gwDirs w)"
proof
  assume "fresh_dir w \<in> set (gwDirs w)"
  then have "length (fresh_dir w) \<le> sum_list (map length (gwDirs w))" by (intro member_le_sum_list) auto
  then show False by (simp add: fresh_dir_def)
qed

definition memory_git :: "gitworld git" where
  "memory_git = \<lparr>gtPlainOpen = (\<lambda>dir. Inr 0), gtWorktreeRoot = (\<lambda>repo. Inr ''/repo''), gtNewHash = (\<lambda>s. s),
     gtHead = (\<lambda>w. Inr \<lparr>ghIsBranch = True, ghShort = ''main'', ghHash = ''c2''\<rparr>),
     gtReference = (\<lambda>name w. Inr ''c2''), gtLog = (\<lambda>tip w. Inr ([''c2'', ''c1''], None)),
     gtRemote = (\<lambda>name w. Inr (Some [''git@host:repo''])), gtFetch = (\<lambda>name spec auth w. (Inr (), w)),
     gtEndpointScheme = (\<lambda>url. Inr ''ssh''), gtLoadKeys = (\<lambda>user path pass. Inr (SshKeys user path)),
     gtMkdirTemp = (\<lambda>pattern w. (Inr (fresh_dir w), w\<lparr>gwDirs := fresh_dir w # gwDirs w\<rparr>)),
     gtRun = (\<lambda>args w. ((None, ''''), if length args = 6 then w\<lparr>gwDirs := filter (\<lambda>d. d \<noteq> last args) (gwDirs w)\<rparr> else w)),
     gtRemoveAll = (\<lambda>d w. (Inr (), w\<lparr>gwDirs := filter (\<lambda>x. x \<noteq> d) (gwDirs w)\<rparr>)),
     gtReadFile = (\<lambda>p w. Inr ''pipeline: demo''), gtGetwd = Inr ''/repo''\<rparr>"

interpretation memory_tree: worktree_host memory_git "\<lambda>w. set (gwDirs w)" gwStuck
  by unfold_locales (auto simp: memory_git_def fresh_dir_fresh)

end
