(* ===== verification/Cli.thy ===== *)
theory Cli
  imports Git Gateway Parser
begin

text \<open>
  \<open>internal/cli\<close> and \<open>internal/common/formatter\<close>: the client of the gateway, the commands \<open>validate\<close>, \<open>dryrun\<close>,
  \<open>run\<close> and \<open>report\<close>, and the help for unknown commands. Git, the file system, HTTP, JSON, YAML and the
  output streams are parameters. Shown: the query of a report survives the way through the gateway to
  the reporting service, a local run sends the file at the commit it names and leaves its worktree
  behind, and \<open>validate\<close> on a directory succeeds only when every pipeline file in it is valid.
\<close>

section \<open>Formatting\<close>

definition plain_scalar :: "string \<Rightarrow> yaml_node" where
  "plain_scalar v = ScalarNode '''' v 0 0"

definition scriptToYAMLNode :: "string list \<Rightarrow> yaml_node" where
  "scriptToYAMLNode script = SequenceNode '''' 0 0 (map plain_scalar script)"

definition job_yaml :: "JobExecutionPlan \<Rightarrow> yaml_node \<times> yaml_node" where
  "job_yaml job =
     (plain_scalar (jepName job),
      MappingNode '''' 0 0 [(plain_scalar ''image'', plain_scalar (jepImage job)),
        (plain_scalar ''script'', scriptToYAMLNode (jepScript job))])"

definition stage_yaml :: "StageExecutionPlan \<Rightarrow> yaml_node \<times> yaml_node" where
  "stage_yaml stage = (plain_scalar (sepName stage), MappingNode '''' 0 0 (map job_yaml (sepJobs stage)))"

definition FormatExecutionPlanYAML :: "(yaml_node \<Rightarrow> goerr + string) \<Rightarrow> ExecutionPlan option \<Rightarrow> goerr + string" where
  "FormatExecutionPlanYAML marshal plan =
     (case plan of
        None \<Rightarrow> Inl (Errorf ''plan is nil'')
      | Some p \<Rightarrow> marshal (MappingNode '''' 0 0 (map stage_yaml (epStages p))))"

definition FormatExecutionPlanJSON :: "(ExecutionPlan \<Rightarrow> goerr + string) \<Rightarrow> ExecutionPlan option \<Rightarrow> goerr + string" where
  "FormatExecutionPlanJSON marshal plan =
     (case plan of None \<Rightarrow> Inl (Errorf ''plan is nil'') | Some p \<Rightarrow> marshal p)"

definition FormatReportYAML :: "(ReportResponse \<Rightarrow> goerr + string) \<Rightarrow> ReportResponse option \<Rightarrow> goerr + string" where
  "FormatReportYAML marshal report =
     (case report of None \<Rightarrow> Inl (Errorf ''report is nil'') | Some p \<Rightarrow> marshal p)"

definition FormatReportJSON :: "(ReportResponse \<Rightarrow> goerr + string) \<Rightarrow> ReportResponse option \<Rightarrow> goerr + string" where
  "FormatReportJSON marshal report =
     (case report of None \<Rightarrow> Inl (Errorf ''report is nil'') | Some p \<Rightarrow> marshal p)"

section \<open>The world of the command line\<close>

record 'w cliEnv =
  ceGit :: "'w git"
  ceGetenv :: "string \<Rightarrow> string"
  ceStat :: "'w \<Rightarrow> string \<Rightarrow> stat"
  ceReadFile :: "string \<Rightarrow> 'w \<Rightarrow> goerr + string"
  ceReadDir :: "string \<Rightarrow> 'w \<Rightarrow> goerr + (string \<times> bool) list"
  ceWalkDir :: "string \<Rightarrow> 'w \<Rightarrow> goerr + (string \<times> bool) list"
  cePost :: "string \<Rightarrow> string \<Rightarrow> ('w, int \<times> (goerr + string)) op"
  ceGet :: "string \<Rightarrow> ('w, int \<times> (goerr + string)) op"
  ceNewRequest :: "string \<Rightarrow> goerr option"
  ceStdout :: "string \<Rightarrow> 'w \<Rightarrow> 'w"
  ceStderr :: "string \<Rightarrow> 'w \<Rightarrow> 'w"
  ceUnmarshalYAML :: "string \<Rightarrow> goerr + yaml_node"
  ceMarshalValidateRequest :: "ValidateRequest \<Rightarrow> goerr + string"
  ceMarshalRunRequest :: "RunRequest \<Rightarrow> goerr + string"
  ceUnmarshalValidate :: "string \<Rightarrow> goerr + ValidateResponse"
  ceUnmarshalDryRun :: "string \<Rightarrow> goerr + DryRunResponse"
  ceUnmarshalRun :: "string \<Rightarrow> goerr + RunResponse"
  ceUnmarshalReport :: "string \<Rightarrow> goerr + ReportResponse"
  ceUnmarshalError :: "string \<Rightarrow> goerr + ErrorResponse"
  ceMarshalPlanYAML :: "yaml_node \<Rightarrow> goerr + string"
  ceMarshalPlanJSON :: "ExecutionPlan \<Rightarrow> goerr + string"
  ceMarshalReportYAML :: "ReportResponse \<Rightarrow> goerr + string"
  ceMarshalReportJSON :: "ReportResponse \<Rightarrow> goerr + string"

section \<open>The client of the gateway\<close>

definition NewGatewayClient :: "'w cliEnv \<Rightarrow> string" where
  "NewGatewayClient env =
     (let gatewayURL = ceGetenv env ''GATEWAY_URL'' in if gatewayURL = '''' then DefaultGatewayURL else gatewayURL)"

definition parseGatewayError :: "'w cliEnv \<Rightarrow> int \<Rightarrow> string \<Rightarrow> goerr" where
  "parseGatewayError env statusCode body =
     (let other = Errorf (''gateway returned status '' @ Itoa statusCode @ '': '' @ body) in
      case ceUnmarshalError env body of
        Inl _ \<Rightarrow> other
      | Inr typed \<Rightarrow> let msg = TrimSpace (erMessage typed) in if msg \<noteq> '''' then Errorf msg else other)"

definition decodeJSONResponse :: "'w cliEnv \<Rightarrow> (string \<Rightarrow> goerr + 'a) \<Rightarrow> int \<times> (goerr + string) \<Rightarrow> goerr + 'a" where
  "decodeJSONResponse env unmarshal resp =
     (case snd resp of
        Inl e \<Rightarrow> Inl (wrapf ''failed to read response: '' e)
      | Inr body \<Rightarrow>
          if fst resp \<noteq> 200 then Inl (parseGatewayError env (fst resp) body)
          else (case unmarshal body of Inl e \<Rightarrow> Inl (wrapf ''failed to unmarshal response: '' e) | Inr x \<Rightarrow> Inr x))"

definition postJSON :: "'w cliEnv \<Rightarrow> string \<Rightarrow> string \<Rightarrow> goerr + string \<Rightarrow> (string \<Rightarrow> goerr + 'a) \<Rightarrow> ('w, 'a) op" where
  "postJSON env baseURL path reqBody unmarshal w =
     (case reqBody of
        Inl e \<Rightarrow> (Inl (wrapf ''failed to marshal request: '' e), w)
      | Inr jsonBody \<Rightarrow>
          (case cePost env (baseURL @ path) jsonBody w of
             (Inl e, w1) \<Rightarrow> (Inl (wrapf ''failed to call gateway: '' e), w1)
           | (Inr resp, w1) \<Rightarrow> (decodeJSONResponse env unmarshal resp, w1)))"

definition Client_Validate :: "'w cliEnv \<Rightarrow> string \<Rightarrow> ValidateRequest \<Rightarrow> ('w, ValidateResponse) op" where
  "Client_Validate env baseURL req =
     postJSON env baseURL ''/validate'' (ceMarshalValidateRequest env req) (ceUnmarshalValidate env)"

definition Client_DryRun :: "'w cliEnv \<Rightarrow> string \<Rightarrow> ValidateRequest \<Rightarrow> ('w, DryRunResponse) op" where
  "Client_DryRun env baseURL req =
     postJSON env baseURL ''/dryrun'' (ceMarshalValidateRequest env req) (ceUnmarshalDryRun env)"

definition Client_Run :: "'w cliEnv \<Rightarrow> string \<Rightarrow> RunRequest \<Rightarrow> ('w, RunResponse) op" where
  "Client_Run env baseURL req = postJSON env baseURL ''/run'' (ceMarshalRunRequest env req) (ceUnmarshalRun env)"

text \<open>The URL of a report request: the query of the base URL is empty, so the parameters are the query.\<close>

definition report_url :: "string \<Rightarrow> ReportQuery \<Rightarrow> string" where
  "report_url baseURL query = baseURL @ ''/report'' @ ''?'' @ Values_Encode (report_params query)"

definition Client_Report :: "'w cliEnv \<Rightarrow> string \<Rightarrow> ReportQuery \<Rightarrow> ('w, ReportResponse) op" where
  "Client_Report env baseURL query w =
     (case ceNewRequest env (baseURL @ ''/report'') of
        Some e \<Rightarrow> (Inl (wrapf ''failed to create request: '' e), w)
      | None \<Rightarrow>
          (case ceGet env (report_url baseURL query) w of
             (Inl e, w1) \<Rightarrow> (Inl (wrapf ''failed to call gateway: '' e), w1)
           | (Inr resp, w1) \<Rightarrow> (decodeJSONResponse env (ceUnmarshalReport env) resp, w1)))"

section \<open>validate\<close>

definition repoFromCommandContext :: "Repository option \<Rightarrow> goerr + Repository" where
  "repoFromCommandContext ctx =
     (case ctx of None \<Rightarrow> Inl (Errorf ''git repository context is missing'') | Some repo \<Rightarrow> Inr repo)"

text \<open>The line printed for one message of the validation service.\<close>

definition error_line :: "string \<Rightarrow> string \<Rightarrow> string" where
  "error_line pipelinePath errMsg =
     (let msg = TrimSpace errMsg in
      if msg = '''' then pipelinePath @ '': validation failed''
      else if HasPrefix msg ''content:'' then pipelinePath @ '':'' @ TrimPrefix msg ''content:''
      else if \<not> Contains msg pipelinePath then pipelinePath @ '': '' @ msg
      else msg)"

definition validateSinglePipeline :: "'w cliEnv \<Rightarrow> string \<Rightarrow> string \<Rightarrow> string \<Rightarrow> string \<Rightarrow> ('w, bool) op" where
  "validateSinglePipeline env pipelinePath0 baseURL commit pipelineData w =
     (let pipelinePath = path_Base pipelinePath0 in
      case Client_Validate env baseURL \<lparr>vqYAMLContent = pipelineData, vqCommit = commit, vqPipelinePath = pipelinePath\<rparr> w of
        (Inl e, w1) \<Rightarrow> (Inl (wrapf (''failed to verify '' @ quoted pipelinePath @ '': '') e), w1)
      | (Inr response, w1) \<Rightarrow>
          if vrValid response then (Inr True, w1)
          else if vrErrors response = [] then
            (Inl (Errorf ''validation failed with 1 error(s)''),
             ceStderr env (pipelinePath @ '': validation failed (no error details returned)'') w1)
          else
            (Inl (Errorf (''validation failed with '' @ Itoa (int (length (vrErrors response))) @ '' error(s)'')),
             fold (\<lambda>errMsg. ceStderr env (error_line pipelinePath errMsg)) (vrErrors response) w1))"

definition collectYAMLFiles :: "'w cliEnv \<Rightarrow> string \<Rightarrow> 'w \<Rightarrow> goerr + string list" where
  "collectYAMLFiles env dir w =
     (case ceWalkDir env dir w of
        Inl e \<Rightarrow> Inl e
      | Inr found \<Rightarrow>
          Inr (map fst (filter (\<lambda>(p, isDir). \<not> isDir \<and> ToLower (filepath_Ext p) \<in> {''.yaml'', ''.yml''}) found)))"

definition validate_target :: "'w cliEnv \<Rightarrow> Repository \<Rightarrow> string \<Rightarrow> string \<Rightarrow> string \<Rightarrow> ('w, bool) op" where
  "validate_target env repo baseURL commit target =
     andthen (wrap_err (wrapf ''read pipeline file failed: '') (ReadFileAtCommit (ceGit env) repo commit target)) (\<lambda>pipelineData.
     validateSinglePipeline env target baseURL commit pipelineData)"

definition validatePipelineDir :: "'w cliEnv \<Rightarrow> Repository \<Rightarrow> string \<Rightarrow> string \<Rightarrow> string \<Rightarrow> ('w, unit) op" where
  "validatePipelineDir env repo dir baseURL commit w =
     (case collectYAMLFiles env dir w of
        Inl e \<Rightarrow> (Inl (wrapf (''failed to enumerate directory '' @ quoted dir @ '': '') e), w)
      | Inr targets \<Rightarrow>
          if targets = [] then (Inl (Errorf (''no YAML files found in directory: '' @ dir)), w)
          else each (\<lambda>target.
            andthen (validate_target env repo baseURL commit target) (\<lambda>valid w.
            (Inr (), if valid then ceStdout env (target @ '': pipeline is valid'') w else w))) (sort targets) w)"

definition runValidate :: "'w cliEnv \<Rightarrow> Repository option \<Rightarrow> string \<Rightarrow> ('w, unit) op" where
  "runValidate env ctx arg w =
     (case repoFromCommandContext ctx of
        Inl e \<Rightarrow> (Inl e, w)
      | Inr repo \<Rightarrow>
          (case ResolveInputPath (ceStat env w) (gtGetwd (ceGit env)) (repoRoot repo) arg of
             Inl e \<Rightarrow> (Inl e, w)
           | Inr (completePath, isDir) \<Rightarrow>
               (case GetHeadCommit (ceGit env) w of
                  Inl e \<Rightarrow> (Inl (wrapf ''get head commit failed: '' e), w)
                | Inr commit \<Rightarrow>
                    (let baseURL = NewGatewayClient env in
                     if isDir then validatePipelineDir env repo completePath baseURL commit w
                     else
                       andthen (validate_target env repo baseURL commit completePath) (\<lambda>valid w.
                       (Inr (), if valid then ceStdout env ''pipeline is valid'' w else w)) w))))"

section \<open>dryrun\<close>

definition formatOutput :: "'w cliEnv \<Rightarrow> ExecutionPlan option \<Rightarrow> string \<Rightarrow> goerr + string" where
  "formatOutput env plan format0 =
     (let f = ToLower (TrimSpace format0); f1 = (if f = '''' then ''yaml'' else f) in
      if f1 = ''yaml'' then FormatExecutionPlanYAML (ceMarshalPlanYAML env) plan
      else if f1 = ''json'' then FormatExecutionPlanJSON (ceMarshalPlanJSON env) plan
      else Inl (Errorf (''invalid format '' @ quoted f1 @ '' (supported: yaml, json)'')))"

definition dryrun_error :: "string list \<Rightarrow> goerr" where
  "dryrun_error errs =
     (let count = ''dry run failed with '' @ Itoa (int (length errs)) @ '' error(s)'' in
      case find (\<lambda>m. TrimSpace m \<noteq> '''') errs of
        Some m \<Rightarrow> Errorf (count @ '': '' @ TrimSpace m)
      | None \<Rightarrow> Errorf count)"

definition runDryRun :: "'w cliEnv \<Rightarrow> Repository option \<Rightarrow> string \<Rightarrow> string \<Rightarrow> ('w, unit) op" where
  "runDryRun env ctx arg formatting w =
     (case repoFromCommandContext ctx of
        Inl e \<Rightarrow> (Inl e, w)
      | Inr repo \<Rightarrow>
          (case ResolveInputPath (ceStat env w) (gtGetwd (ceGit env)) (repoRoot repo) arg of
             Inl e \<Rightarrow> (Inl e, w)
           | Inr (completePath, isDir) \<Rightarrow>
               (case GetHeadCommit (ceGit env) w of
                  Inl e \<Rightarrow> (Inl (wrapf ''get head commit failed: '' e), w)
                | Inr commit \<Rightarrow>
                    andthen (wrap_err (wrapf ''read pipeline file failed: '') (ReadFileAtCommit (ceGit env) repo commit completePath)) (\<lambda>pipelineData.
                    andthen (wrap_err (wrapf ''dry run failed, error: '') (Client_DryRun env (NewGatewayClient env)
                      \<lparr>vqYAMLContent = pipelineData, vqCommit = commit, vqPipelinePath = path_Base completePath\<rparr>)) (\<lambda>response w.
                    if \<not> drValid response then
                      (Inl (dryrun_error (drErrors response)), fold (ceStderr env) (drErrors response) w)
                    else
                      (case formatOutput env (drExecutionPlan response) formatting of
                         Inl e \<Rightarrow> (Inl e, w)
                       | Inr output \<Rightarrow> (Inr (), ceStdout env output w)))) w)))"

section \<open>report\<close>

definition buildReportQuery :: "int \<Rightarrow> string \<Rightarrow> string \<Rightarrow> string \<Rightarrow> goerr + ReportQuery" where
  "buildReportQuery reportRun reportStage reportJob pipeline =
     (let stage = TrimSpace reportStage; job = TrimSpace reportJob in
      if pipeline = '''' then Inl (Errorf ''pipeline name is required'')
      else if reportRun < 0 then Inl (Errorf ''run must be a positive integer'')
      else if stage \<noteq> '''' \<and> reportRun = 0 then Inl (Errorf ''run is required when stage is provided'')
      else if job \<noteq> '''' \<and> (reportRun = 0 \<or> stage = '''')
      then Inl (Errorf ''run and stage are required when job is provided'')
      else Inr \<lparr>qPipeline = pipeline, qRun = (if 0 < reportRun then Some reportRun else None), qStage = stage, qJob = job\<rparr>)"

definition formatReport :: "'w cliEnv \<Rightarrow> ReportResponse option \<Rightarrow> string \<Rightarrow> goerr + string" where
  "formatReport env report f =
     (if f = ''json'' then FormatReportJSON (ceMarshalReportJSON env) report
      else FormatReportYAML (ceMarshalReportYAML env) report)"

definition runReport :: "'w cliEnv \<Rightarrow> int \<Rightarrow> string \<Rightarrow> string \<Rightarrow> goerr + string \<Rightarrow> string \<Rightarrow> ('w, unit) op" where
  "runReport env reportRun reportStage reportJob formatFlag pipeline w =
     (case buildReportQuery reportRun reportStage reportJob pipeline of
        Inl e \<Rightarrow> (Inl e, w)
      | Inr query \<Rightarrow>
          (case formatFlag of
             Inl e \<Rightarrow> (Inl (wrapf ''failed to read format flag: '' e), w)
           | Inr format0 \<Rightarrow>
               (let f = ToLower (TrimSpace format0) in
                if f \<noteq> ''yaml'' \<and> f \<noteq> ''json''
                then (Inl (Errorf (''invalid format '' @ quoted f @ '' (supported: yaml, json)'')), w)
                else
                  andthen (Client_Report env (NewGatewayClient env) query) (\<lambda>report w.
                  case formatReport env (Some report) f of
                    Inl e \<Rightarrow> (Inl e, w)
                  | Inr out \<Rightarrow> (Inr (), ceStdout env out w)) w)))"

section \<open>run\<close>

record runFlags =
  rfFile :: string
  rfName :: string
  rfBranch :: string
  rfCommit :: string
  rfRemote :: string

fun find_named :: "'w cliEnv \<Rightarrow> string \<Rightarrow> string \<Rightarrow> (string \<times> bool) list \<Rightarrow> 'w \<Rightarrow> string option" where
  "find_named env name pipelineDir [] w = None"
| "find_named env name pipelineDir ((fname, isDir) # files) w =
     (if isDir then find_named env name pipelineDir files w
      else
        (let filePath = filepath_Join pipelineDir fname in
         case Parse (ceUnmarshalYAML env) (\<lambda>p. ceReadFile env p w) (NewParser filePath) of
           Inl _ \<Rightarrow> find_named env name pipelineDir files w
         | Inr (pipeline, _) \<Rightarrow>
             if pipelineName pipeline = name then Some filePath else find_named env name pipelineDir files w))"

definition findPipelineByName :: "'w cliEnv \<Rightarrow> string \<Rightarrow> string \<Rightarrow> 'w \<Rightarrow> goerr + string" where
  "findPipelineByName env name root w =
     (let pipelineDir = filepath_Join root DefaultPipelineDir in
      case ceReadDir env pipelineDir w of
        Inl e \<Rightarrow> Inl (wrapf ''failed to read pipeline directory: '' e)
      | Inr files \<Rightarrow>
          (case find_named env name pipelineDir files w of
             None \<Rightarrow> Inl (Errorf (''pipeline with name '' @ name @ '' not found''))
           | Some filePath \<Rightarrow>
               (case gtGetwd (ceGit env) of
                  Inl _ \<Rightarrow> Inr filePath
                | Inr cwd \<Rightarrow> (case filepath_Rel cwd filePath of Inl _ \<Rightarrow> Inr filePath | Inr rel \<Rightarrow> Inr rel))))"

text \<open>The checks on the flags up to the file, and the two ways to settle branch and commit.\<close>

definition check_flags :: "'w cliEnv \<Rightarrow> Repository \<Rightarrow> runFlags \<Rightarrow> 'w \<Rightarrow> goerr + runFlags" where
  "check_flags env repo f w =
     (if rfFile f = '''' \<and> rfName f = '''' then Inl (Errorf ''must provide at least one of --file or --name'')
      else if rfFile f \<noteq> '''' \<and> rfName f \<noteq> '''' then Inl (Errorf ''must provide exactly one --file or --name'')
      else if rfFile f \<noteq> '''' \<and> (case ceStat env w (rfFile f) of StatNotExist _ \<Rightarrow> True | StatError _ \<Rightarrow> True | _ \<Rightarrow> False)
      then Inl (Errorf (''invalid --file: '' @ rfFile f))
      else if rfName f \<noteq> '''' then
        (case findPipelineByName env (rfName f) (repoRoot repo) w of
           Inl e \<Rightarrow> Inl e
         | Inr resolvedPath \<Rightarrow> Inr (f\<lparr>rfFile := resolvedPath\<rparr>))
      else Inr f)"

definition settle_local :: "'w cliEnv \<Rightarrow> runFlags \<Rightarrow> 'w \<Rightarrow> goerr + runFlags" where
  "settle_local env f w =
     (case GetHeadBranch (ceGit env) w of
        Inl e \<Rightarrow> Inl e
      | Inr headBranch \<Rightarrow>
          (let f1 = (if rfBranch f = '''' then f\<lparr>rfBranch := headBranch\<rparr> else f) in
           case GetHeadCommit (ceGit env) w of
             Inl e \<Rightarrow> Inl e
           | Inr headCommit \<Rightarrow>
               (let f2 = (if rfCommit f1 = '''' then f1\<lparr>rfCommit := headCommit\<rparr> else f1) in
                case BranchContainsCommit (ceGit env) (rfBranch f2) (rfCommit f2) w of
                  Inl e \<Rightarrow> Inl e
                | Inr found \<Rightarrow>
                    if \<not> found
                    then Inl (Errorf (''commit '' @ quoted (rfCommit f2) @ '' can not be found at branch '' @ quoted (rfBranch f2)))
                    else Inr f2)))"

definition runPreRunE :: "'w cliEnv \<Rightarrow> runFlags \<Rightarrow> ('w, runFlags) op" where
  "runPreRunE env flags w =
     (case git_Open (ceGit env) ''.'' of
        Inl e \<Rightarrow> (Inl e, w)
      | Inr repo \<Rightarrow>
          (let f = \<lparr>rfFile = TrimSpace (rfFile flags), rfName = TrimSpace (rfName flags), rfBranch = TrimSpace (rfBranch flags),
                 rfCommit = TrimSpace (rfCommit flags), rfRemote = TrimSpace (rfRemote flags)\<rparr>
           in case check_flags env repo f w of
                Inl e \<Rightarrow> (Inl e, w)
              | Inr f1 \<Rightarrow>
                  if rfRemote f1 = '''' then (settle_local env f1 w, w)
                  else
                    (case RemoteBranchContainsCommit (ceGit env) (ceGetenv env) (rfRemote f1) (rfBranch f1) (rfCommit f1) None w of
                       (Inl e, w1) \<Rightarrow> (Inl e, w1)
                     | (Inr found, w1) \<Rightarrow>
                         (if \<not> found
                          then Inl (Errorf (''commit '' @ quoted (rfCommit f1) @ '' can not be found at branch '' @ quoted (rfBranch f1)
                            @ '' at remote '' @ quoted (rfRemote f1)))
                          else Inr f1, w1))))"

definition local_request :: "'w cliEnv \<Rightarrow> Repository \<Rightarrow> runFlags \<Rightarrow> ('w, RunRequest) op" where
  "local_request env repo f =
     andthen (wrap_err (wrapf (''failed to prepare workspace for commit '' @ quoted (rfCommit f) @ '': ''))
       (CreateDetachedWorktree (ceGit env) repo (rfCommit f))) (\<lambda>worktree w.
     case ResolveInputPath (ceStat env w) (gtGetwd (ceGit env)) (repoRoot repo) (rfFile f) of
       Inl e \<Rightarrow> (Inl e, w)
     | Inr (completePath, isDir) \<Rightarrow>
         andthen (wrap_err (wrapf ''read pipeline file failed: '') (ReadFileAtCommit (ceGit env) repo (rfCommit f) completePath)) (\<lambda>pipelineData.
         ret \<lparr>rqYAMLContent = pipelineData, rqBranch = rfBranch f, rqCommit = rfCommit f, rqRepoURL = '''', rqWorkspacePath = worktree\<rparr>) w)"

definition remote_request :: "'w cliEnv \<Rightarrow> runFlags \<Rightarrow> 'w \<Rightarrow> goerr + RunRequest" where
  "remote_request env f w =
     (case ceReadFile env (rfFile f) w of
        Inl e \<Rightarrow> Inl (wrapf (''failed to read run file '' @ quoted (rfFile f) @ '': '') e)
      | Inr fileContent \<Rightarrow>
          (case GetRepoURL (ceGit env) (rfRemote f) w of
             Inl e \<Rightarrow> Inl e
           | Inr remoteURL \<Rightarrow>
               Inr \<lparr>rqYAMLContent = fileContent, rqBranch = rfBranch f, rqCommit = rfCommit f, rqRepoURL = remoteURL, rqWorkspacePath = ''''\<rparr>))"

definition print_response :: "'w cliEnv \<Rightarrow> RunResponse \<Rightarrow> 'w \<Rightarrow> 'w" where
  "print_response env response w =
     fold (ceStdout env)
       ((if rrRunNo response \<noteq> 0 then [''Run number: '' @ Itoa (rrRunNo response)] else [])
        @ (if TrimSpace (rrPipeline response) \<noteq> '''' then [''Pipeline: '' @ rrPipeline response] else [])
        @ (if TrimSpace (rrStatus response) \<noteq> '''' then [''Status: '' @ rrStatus response] else [])
        @ (if TrimSpace (rrMessage response) \<noteq> '''' then [rrMessage response] else [])) w"

definition runRun :: "'w cliEnv \<Rightarrow> Repository option \<Rightarrow> runFlags \<Rightarrow> ('w, unit) op" where
  "runRun env ctx f =
     (case ctx of
        None \<Rightarrow> fail (Errorf ''git repository context is missing'')
      | Some repo \<Rightarrow>
          andthen (if rfRemote f = '''' then local_request env repo f else (\<lambda>w. (remote_request env f w, w))) (\<lambda>req.
          andthen (wrap_err (wrapf ''run failed '') (Client_Run env (NewGatewayClient env) req)) (\<lambda>response w.
          if rrErrors response \<noteq> [] then
            (Inl (Errorf ''run failed %!w(<nil>)''), fold (ceStderr env) (rrErrors response) w)
          else (Inr (), print_response env response w))))"

section \<open>Commands\<close>

text \<open>\<open>openGitRepo\<close> puts the repository into the context of the command; \<open>dryrun\<close> validates first, with
  standard output sent to the null device.\<close>

definition openGitRepo :: "'w cliEnv \<Rightarrow> goerr + Repository option" where
  "openGitRepo env =
     (case git_Open (ceGit env) ''.'' of
        Inl e \<Rightarrow> Inl (wrapf ''validate, dryrun, run commands can only run within a git repo: '' e)
      | Inr gitRepo \<Rightarrow> Inr (Some gitRepo))"

definition runValidateQuiet :: "'w cliEnv \<Rightarrow> goerr option \<Rightarrow> Repository option \<Rightarrow> string \<Rightarrow> ('w, unit) op" where
  "runValidateQuiet env devNull ctx arg =
     (case devNull of
        Some e \<Rightarrow> fail e
      | None \<Rightarrow> runValidate (env\<lparr>ceStdout := \<lambda>line w. w\<rparr>) ctx arg)"

definition findTypedSubCmd :: "string \<Rightarrow> string" where
  "findTypedSubCmd errMsg =
     (let quote = CHR 0x22 in
      if \<not> HasPrefix errMsg ''unknown command '' then ''''
      else if quote \<notin> set errMsg then ''''
      else
        (let rest = drop 1 (dropWhile (\<lambda>c. c \<noteq> quote) errMsg) in
         if quote \<notin> set rest then '''' else takeWhile (\<lambda>c. c \<noteq> quote) rest))"

text \<open>A command with its aliases and subcommands.\<close>

datatype command = Command (cmdName: string) (cmdAliases: "string list") (cmdSubs: "command list")

fun findCommandByName :: "command \<Rightarrow> string \<Rightarrow> command option"
  and find_in_commands :: "command list \<Rightarrow> string \<Rightarrow> command option" where
  "findCommandByName (Command name aliases subs) cname =
     (if name = cname \<or> cname \<in> set aliases then Some (Command name aliases subs) else find_in_commands subs cname)"
| "find_in_commands [] cname = None"
| "find_in_commands (c # cs) cname =
     (case findCommandByName c cname of Some found \<Rightarrow> Some found | None \<Rightarrow> find_in_commands cs cname)"

text \<open>The command whose usage is shown after an unknown one: the first that the library suggests.\<close>

definition handleUnknownCommandError :: "(string \<Rightarrow> string list) \<Rightarrow> command \<Rightarrow> goerr \<Rightarrow> command option" where
  "handleUnknownCommandError suggestionsFor rootCmd err =
     (if HasPrefix (Error err) ''unknown command '' then
        (let typedSubCmd = findTypedSubCmd (Error err) in
         if typedSubCmd = '''' then None
         else
           (case suggestionsFor typedSubCmd of
              [] \<Rightarrow> None
            | suggestedName # _ \<Rightarrow> findCommandByName rootCmd suggestedName))
      else None)"

section \<open>A report query on its way\<close>

lemma buildReportQuery_Inr:
  assumes "buildReportQuery reportRun reportStage reportJob pipeline = Inr q"
  shows "qPipeline q = pipeline" "TrimSpace (qStage q) = qStage q" "TrimSpace (qJob q) = qJob q"
    and "qRun q = (if 0 < reportRun then Some reportRun else None)"
    and "qStage q \<noteq> '''' \<Longrightarrow> 0 < reportRun" "qJob q \<noteq> '''' \<Longrightarrow> 0 < reportRun \<and> qStage q \<noteq> ''''"
  using assms by (auto simp: buildReportQuery_def Let_def split: if_splits)

text \<open>C38. A report command is answered by the reporting service for what was meant: when the client of a valid command
  line sends its request to the gateway, whatever bytes the names consist of, the gateway reads it, asks the reporting service and
  relays the answer, and this is the answer of \<open>GetReport\<close> to the query of the command line with the white space around the
  pipeline name removed, encoded with its status. The command line accepts a name of white space only, which the service then refuses as an invalid query;
  every other query arrives well formed.\<close>

theorem report_query_delivered:
  assumes "buildReportQuery reportRun reportStage reportJob pipeline = Inr q" and "reportRun < 2 ^ 63"
    and "q' = \<lparr>qPipeline = TrimSpace pipeline, qRun = (if 0 < reportRun then Some reportRun else None),
      qStage = TrimSpace reportStage, qJob = TrimSpace reportJob\<rparr>"
  shows "serve_gateway enc getenv (reporting_network enc coll store_Ping (gwReportURL c)) c
        (server_request base ''GET'' (report_url base q) (Inr '''')) db
      = (case GetReport coll q' db of
           (Inl e, db1) \<Rightarrow> (case report_classifyError e of (status, code, message) \<Rightarrow> (WriteError enc status code message, db1))
         | (Inr report, db1) \<Rightarrow> (WriteJSON enc 200 (AnyReport report), db1))
    \<and> (valid_query q' \<longleftrightarrow> TrimSpace pipeline \<noteq> '''')"
proof
  note q = buildReportQuery_Inr [OF assms(1)]
  have parts: "qStage q = TrimSpace reportStage" "qJob q = TrimSpace reportJob"
    using assms(1) by (auto simp: buildReportQuery_def Let_def split: if_splits)
  show "valid_query q' \<longleftrightarrow> TrimSpace pipeline \<noteq> ''''"
    using q(5,6) parts by (auto simp: valid_query_def assms(3))
  let ?r = "server_request base ''GET'' (report_url base q) (Inr '''')"
  have "report_params q \<noteq> []" by (simp add: report_params_def)
  note req = server_request_query [OF this distinct_report_params, of "''/report''" base "''GET''" "Inr ''''", simplified, folded report_url_def [simplified]]
  have parse: "parseReportQuery ?r = Inr q'"
    by (rule parse_query_of) (use q parts assms(2) in \<open>auto simp: req(2) map_of_report_params assms(3) split: if_splits\<close>)
  have r: "hrMethod ?r = ''GET''" "hrPath ?r = ''/report''" using req(1,3) by simp_all
  show "serve_gateway enc getenv (reporting_network enc coll store_Ping (gwReportURL c)) c ?r db
      = (case GetReport coll q' db of
           (Inl e, db1) \<Rightarrow> (case report_classifyError e of (status, code, message) \<Rightarrow> (WriteError enc status code message, db1))
         | (Inr report, db1) \<Rightarrow> (WriteJSON enc 200 (AnyReport report), db1))"
    unfolding report_through_gateway [OF r parse] using r parse by (simp add: serve_reporting_def handleReport_def)
qed

section \<open>Validating a directory\<close>

lemma each_ok:
  "each f xs w = (Inr (), w') \<Longrightarrow> x \<in> set xs \<Longrightarrow> \<exists>w1 w2. f x w1 = (Inr (), w2)"
  by (induction xs arbitrary: w) (auto simp: andthen_def split: prod.splits sum.splits)

lemma validateSinglePipeline_ok:
  assumes "validateSinglePipeline env target baseURL commit content w = (Inr valid, w')"
  shows "\<exists>response. Client_Validate env baseURL \<lparr>vqYAMLContent = content, vqCommit = commit, vqPipelinePath = path_Base target\<rparr> w
      = (Inr response, w') \<and> vrValid response"
  using assms by (fastforce simp: validateSinglePipeline_def Let_def split: prod.splits sum.splits if_splits)

lemma validate_target_ok:
  assumes "validate_target env repo baseURL commit target w = (Inr valid, w')"
  shows "\<exists>content response w1. ReadFileAtCommit (ceGit env) repo commit target w = (Inr content, w1)
    \<and> Client_Validate env baseURL \<lparr>vqYAMLContent = content, vqCommit = commit, vqPipelinePath = path_Base target\<rparr> w1 = (Inr response, w')
    \<and> vrValid response"
proof -
  obtain r w1 where rd: "ReadFileAtCommit (ceGit env) repo commit target w = (r, w1)" by (meson surj_pair)
  with assms obtain content where "r = Inr content" "validateSinglePipeline env target baseURL commit content w1 = (Inr valid, w')"
    by (cases r) (auto simp: validate_target_def andthen_def wrap_err_def)
  with rd validateSinglePipeline_ok [of env target baseURL commit content w1 valid w'] show ?thesis by blast
qed

text \<open>C39. \<open>validate\<close> on a directory vouches for every file: when it succeeds there was at least one pipeline file,
  and each one was read at the commit of the head and judged valid by the service.\<close>

theorem validate_directory_complete:
  assumes "validatePipelineDir env repo dir baseURL commit w = (Inr (), w')"
  shows "\<exists>targets. collectYAMLFiles env dir w = Inr targets \<and> targets \<noteq> [] \<and>
    (\<forall>target \<in> set targets. \<exists>content response w1 w2 w3.
       ReadFileAtCommit (ceGit env) repo commit target w1 = (Inr content, w2)
       \<and> Client_Validate env baseURL \<lparr>vqYAMLContent = content, vqCommit = commit, vqPipelinePath = path_Base target\<rparr> w2 = (Inr response, w3)
       \<and> vrValid response)"
proof -
  let ?f = "\<lambda>target. andthen (validate_target env repo baseURL commit target) (\<lambda>valid w.
    (Inr (), if valid then ceStdout env (target @ '': pipeline is valid'') w else w))"
  from assms obtain targets where t: "collectYAMLFiles env dir w = Inr targets" "targets \<noteq> []"
    and e: "each ?f (sort targets) w = (Inr (), w')"
    by (auto simp: validatePipelineDir_def split: sum.splits if_splits)
  have "\<exists>content response w1 w2 w3. ReadFileAtCommit (ceGit env) repo commit target w1 = (Inr content, w2)
      \<and> Client_Validate env baseURL \<lparr>vqYAMLContent = content, vqCommit = commit, vqPipelinePath = path_Base target\<rparr> w2 = (Inr response, w3)
      \<and> vrValid response" if target: "target \<in> set targets" for target
  proof -
    from each_ok [OF e, of target] target obtain w1 w2 where "?f target w1 = (Inr (), w2)" by auto
    then obtain valid w3 where "validate_target env repo baseURL commit target w1 = (Inr valid, w3)"
      by (cases "validate_target env repo baseURL commit target w1"; cases "fst (validate_target env repo baseURL commit target w1)")
        (auto simp: andthen_def)
    from validate_target_ok [OF this] show ?thesis by blast
  qed
  with t show ?thesis by blast
qed

section \<open>The worktree of a local run\<close>

lemma local_request_worktree:
  assumes "worktree_host (ceGit env) dirs stuck"
    and "local_request env repo f w = (Inr req, w')"
  shows "rqWorkspacePath req \<notin> dirs w" "rqWorkspacePath req \<in> dirs w'" "rqRepoURL req = ''''" "rqCommit req = rfCommit f"
    "\<exists>p isDir w1. ResolveInputPath (ceStat env w1) (gtGetwd (ceGit env)) (repoRoot repo) (rfFile f) = Inr (p, isDir)
      \<and> ReadFileAtCommit (ceGit env) repo (rfCommit f) p w1 = (Inr (rqYAMLContent req), w')"
proof -
  obtain r w1 where c: "CreateDetachedWorktree (ceGit env) repo (rfCommit f) w = (r, w1)" by (meson surj_pair)
  with assms(2) obtain d where r: "r = Inr d" by (cases r) (auto simp: local_request_def andthen_def wrap_err_def)
  with worktree_host.create_worktree [OF assms(1) c] have d: "d \<notin> dirs w" "d \<in> dirs w1" by auto
  from assms(2) c r obtain p isDir where p: "ResolveInputPath (ceStat env w1) (gtGetwd (ceGit env)) (repoRoot repo) (rfFile f) = Inr (p, isDir)"
    by (auto simp: local_request_def andthen_def wrap_err_def split: sum.splits)
  obtain u w2 where rd: "ReadFileAtCommit (ceGit env) repo (rfCommit f) p w1 = (u, w2)" by (meson surj_pair)
  with p have u: "u = Inr (rqYAMLContent req)" "w' = w2" "rqWorkspacePath req = d" "rqRepoURL req = ''''" "rqCommit req = rfCommit f"
    using assms(2) c r by (cases u; auto simp: local_request_def andthen_def wrap_err_def ret_def)+
  have "dirs w1 \<subseteq> dirs w2"
    using worktree_host.ReadFileAtCommit_tidied [OF assms(1), of w1 repo "rfCommit f" p] rd
    by (auto simp: worktree_host.tidied_def [OF assms(1)])
  with u d show "rqWorkspacePath req \<notin> dirs w" "rqWorkspacePath req \<in> dirs w'" "rqRepoURL req = ''''" "rqCommit req = rfCommit f" by auto
  from p rd u show "\<exists>p isDir w1. ResolveInputPath (ceStat env w1) (gtGetwd (ceGit env)) (repoRoot repo) (rfFile f) = Inr (p, isDir)
      \<and> ReadFileAtCommit (ceGit env) repo (rfCommit f) p w1 = (Inr (rqYAMLContent req), w')" by blast
qed

lemma print_response_keeps:
  assumes "\<And>line w. f (ceStdout env line w) = f w"
  shows "f (print_response env response w) = f w"
proof -
  have "f (fold (ceStdout env) xs w) = f w" for xs using assms by (induction xs arbitrary: w) simp_all
  then show ?thesis unfolding print_response_def .
qed

text \<open>C40. A local run refers to a snapshot that is there, and stays there: the request of a successful local run
  carries the pipeline as it is at the requested commit and the path of a new worktree, and this
  worktree still exists when the command returns.\<close>

theorem local_run_keeps_worktree:
  assumes "worktree_host (ceGit env) dirs stuck" and "rfRemote f = ''''"
    and "\<And>url body. keeps dirs (cePost env url body)" and "\<And>line w. dirs (ceStdout env line w) = dirs w"
    and "runRun env (Some repo) f w = (Inr (), w')"
  shows "\<exists>req w1. local_request env repo f w = (Inr req, w1) \<and> rqRepoURL req = '''' \<and> rqCommit req = rfCommit f
    \<and> rqWorkspacePath req \<notin> dirs w \<and> rqWorkspacePath req \<in> dirs w'
    \<and> (\<exists>p isDir w0. ResolveInputPath (ceStat env w0) (gtGetwd (ceGit env)) (repoRoot repo) (rfFile f) = Inr (p, isDir)
      \<and> ReadFileAtCommit (ceGit env) repo (rfCommit f) p w0 = (Inr (rqYAMLContent req), w1))"
proof -
  obtain r w1 where l: "local_request env repo f w = (r, w1)" by (meson surj_pair)
  with assms(2,5) obtain req where r: "r = Inr req" by (cases r) (auto simp: runRun_def andthen_def)
  obtain resp w2 where c: "Client_Run env (NewGatewayClient env) req w1 = (resp, w2)" by (meson surj_pair)
  have "dirs w2 = dirs w1"
    using c assms(3)
    by (auto simp: Client_Run_def postJSON_def keeps_def split: sum.splits prod.splits) (metis snd_conv)+
  moreover have "dirs w' = dirs w2"
    using assms(2,5) l r c print_response_keeps [of dirs env, OF assms(4)]
    by (cases resp) (auto simp: runRun_def andthen_def wrap_err_def split: if_splits)
  ultimately show ?thesis using local_request_worktree [OF assms(1) l [unfolded r]] l r by blast
qed

section \<open>Concrete commands\<close>

definition demo_cli :: "gitworld cliEnv" where
  "demo_cli = \<lparr>ceGit = memory_git, ceGetenv = (\<lambda>_. ''''), ceStat = (\<lambda>w p. StatFile), ceReadFile = (\<lambda>p w. Inr ''pipeline: demo''),
     ceReadDir = (\<lambda>p w. Inr []), ceWalkDir = (\<lambda>p w. Inr [(''/repo/.pipelines'', True), (''/repo/.pipelines/b.YML'', False), (''/repo/.pipelines/a.yaml'', False)]),
     cePost = (\<lambda>url body w. (Inr (200, Inr ''{}''), w)), ceGet = (\<lambda>url w. (Inr (200, Inr ''{}''), w)), ceNewRequest = (\<lambda>url. None),
     ceStdout = (\<lambda>s w. w\<lparr>gwOut := gwOut w @ [s]\<rparr>), ceStderr = (\<lambda>s w. w\<lparr>gwOut := gwOut w @ [s]\<rparr>),
     ceUnmarshalYAML = (\<lambda>s. Inl (Errorf ''yaml'')), ceMarshalValidateRequest = (\<lambda>r. Inr ''''), ceMarshalRunRequest = (\<lambda>r. Inr ''''),
     ceUnmarshalValidate = (\<lambda>s. Inr \<lparr>vrValid = True, vrErrors = []\<rparr>), ceUnmarshalDryRun = (\<lambda>s. Inl (Errorf ''json'')),
     ceUnmarshalRun = (\<lambda>s. Inr \<lparr>rrPipeline = ''demo'', rrRunNo = 7, rrStatus = ''queued'', rrErrors = [], rrMessage = ''''\<rparr>), ceUnmarshalReport = (\<lambda>s. Inl (Errorf ''json'')), ceUnmarshalError = (\<lambda>s. Inl (Errorf ''json'')),
     ceMarshalPlanYAML = (\<lambda>n. Inr ''''), ceMarshalPlanJSON = (\<lambda>n. Inr ''''), ceMarshalReportYAML = (\<lambda>n. Inr ''''), ceMarshalReportJSON = (\<lambda>n. Inr '''')\<rparr>"

definition demo_gitworld :: gitworld where
  "demo_gitworld = \<lparr>gwDirs = [], gwStuck = [], gwOut = []\<rparr>"

lemma report_query_delivered_witness:
  "\<exists>q. buildReportQuery 1 '' test '' '''' '' demo '' = Inr q
     \<and> fst (serve_gateway (\<lambda>v. Inr '''') (\<lambda>_. '''') (reporting_network (\<lambda>v. Inr '''') id None (gwReportURL (NewClient (\<lambda>_. '''')))) (NewClient (\<lambda>_. ''''))
         (server_request ''http://gw'' ''GET'' (report_url ''http://gw'' q) (Inr '''')) demo_report_db)
       = WriteJSON (\<lambda>v. Inr '''') 200 (AnyReport \<lparr>respPipeline = \<lparr>rpipeName = ''demo'', rpipeRuns = [], rpipeRunNo = 1, rpipeStatus = ''failed'',
           rpipeTraceID = ''t'', rpipeStart = 10, rpipeEnd = Some 40, rpipeStages = [],
           rpipeStage = [\<lparr>rsName = ''test'', rsStatus = ''failed'', rsStart = 20, rsEnd = Some 40, rsJobs = [], rsJob = []\<rparr>]\<rparr>\<rparr>)"
proof -
  let ?q = "\<lparr>qPipeline = '' demo '', qRun = Some 1, qStage = ''test'', qJob = ''''\<rparr>"
  let ?q' = "\<lparr>qPipeline = TrimSpace '' demo '', qRun = (if 0 < (1::int) then Some 1 else None), qStage = TrimSpace '' test '', qJob = TrimSpace ''''\<rparr>"
  let ?resp = "\<lparr>respPipeline = \<lparr>rpipeName = ''demo'', rpipeRuns = [], rpipeRunNo = 1, rpipeStatus = ''failed'',
       rpipeTraceID = ''t'', rpipeStart = 10, rpipeEnd = Some 40, rpipeStages = [],
       rpipeStage = [\<lparr>rsName = ''test'', rsStatus = ''failed'', rsStart = 20, rsEnd = Some 40, rsJobs = [], rsJob = []\<rparr>]\<rparr>\<rparr>"
  have q: "buildReportQuery 1 '' test '' '''' '' demo '' = Inr ?q" by code_simp
  have "fst (GetReport id ?q' demo_report_db) = Inr ?resp" by code_simp
  then obtain db' where "GetReport id ?q' demo_report_db = (Inr ?resp, db')" by (metis prod.collapse)
  with report_query_delivered [OF q _ refl, of "\<lambda>v. Inr ''''" "\<lambda>_. ''''" id None "NewClient (\<lambda>_. '''')" "''http://gw''" demo_report_db] q
  show ?thesis by simp
qed

lemma validate_directory_complete_witness:
  "\<exists>targets. collectYAMLFiles demo_cli ''/repo/.pipelines'' demo_gitworld = Inr targets \<and> targets \<noteq> []"
proof -
  let ?v = "validatePipelineDir demo_cli \<lparr>repoRoot = ''/repo''\<rparr> ''/repo/.pipelines'' ''http://gw'' ''c2'' demo_gitworld"
  have "fst ?v = Inr ()" by code_simp
  then obtain w' where "?v = (Inr (), w')" by (metis prod.collapse)
  from validate_directory_complete [OF this] show ?thesis by blast
qed

lemma local_run_keeps_worktree_witness:
  "\<exists>w' (req :: RunRequest). runRun demo_cli (Some \<lparr>repoRoot = ''/repo''\<rparr>) \<lparr>rfFile = ''.pipelines/a.yaml'', rfName = '''', rfBranch = ''main'', rfCommit = ''c2'', rfRemote = ''''\<rparr>
      demo_gitworld = (Inr (), w') \<and> rqWorkspacePath req \<in> set (gwDirs w')"
proof -
  let ?f = "\<lparr>rfFile = ''.pipelines/a.yaml'', rfName = '''', rfBranch = ''main'', rfCommit = ''c2'', rfRemote = ''''\<rparr>"
  let ?r = "runRun demo_cli (Some \<lparr>repoRoot = ''/repo''\<rparr>) ?f demo_gitworld"
  have "fst ?r = Inr ()" by code_simp
  then obtain w' where r: "?r = (Inr (), w')" by (metis prod.collapse)
  have host: "worktree_host (ceGit demo_cli) (\<lambda>w. set (gwDirs w)) gwStuck"
    using memory_tree.worktree_host_axioms by (simp add: demo_cli_def)
  have post: "keeps (\<lambda>w. set (gwDirs w)) (cePost demo_cli url body)" for url body by (simp add: demo_cli_def keeps_def)
  have out: "set (gwDirs (ceStdout demo_cli line w)) = set (gwDirs w)" for line w by (simp add: demo_cli_def)
  have remote: "rfRemote ?f = ''''" by simp
  from local_run_keeps_worktree [OF host remote post out r] obtain req :: RunRequest where "rqWorkspacePath req \<in> set (gwDirs w')" by blast
  with r show ?thesis by blast
qed

end
