(* ===== verification/Execute.thy ===== *)
theory Execute
  imports Gostd Models
begin

text \<open>
  \<open>internal/services/worker/execute.go\<close>: running one job in a container. The container engine, the git
  library and the file system are parameters: a record of their calls on a world state. Modelled are
  the workspace (clone, or a local path with its mapping for Windows paths), the tar archive of it,
  the container options with the resource limits in 64-bit arithmetic, and \<open>ExecuteJob\<close> with its
  deferred clean-up. Shown: nothing is left behind on any path, success means exit status 0, the
  archive is the whole workspace or an error, and where the memory limit is exact.
\<close>

section \<open>The world around a job\<close>

text \<open>A file system tree as \<open>filepath.Walk\<close> sees it: \<open>FBad\<close> an entry whose \<open>Lstat\<close> fails, \<open>FLeaf\<close> an entry that
  is not a directory with its kind, its size and what opening and reading it gives (through the
  link, for a symbolic link), \<open>FDir\<close> a directory with the error of listing it, if any.\<close>

datatype fkind = KReg | KSymlink | KFifo | KDevice | KSocket

datatype fnode =
    FBad goerr
  | FLeaf fkind nat "goerr + string"
  | FDir "goerr option" "(string \<times> fnode) list"

datatype typeflag = TypeReg | TypeSymlink | TypeFifo | TypeChar | TypeDir

record tar_header =
  hdName :: string
  hdType :: typeflag
  hdSize :: nat

text \<open>\<open>container.Resources\<close> with the two fields the code sets, and the options of a container.\<close>

record Resources =
  NanoCPUs :: "64 word"
  Memory :: "64 word"

record containerConfig =
  ccImage :: string
  ccCmd :: "string list"
  ccAttachStdout :: bool
  ccAttachStderr :: bool
  ccWorkingDir :: string
  ccResources :: "Resources option"

record BasicAuth =
  baUsername :: string
  baPassword :: string

datatype wait_event = WaitError "goerr option" | WaitResult int | WaitCtxDone goerr

text \<open>\<open>dkWait\<close> is the \<open>select\<close> of \<open>waitContainer\<close> over the error channel, the result channel and the
  context; \<open>dkStdCopy\<close> demultiplexes a log stream into stdout and stderr.\<close>

record 'w docker =
  dkPull :: "string \<Rightarrow> ('w, nat) op"
  dkPullWait :: "nat \<Rightarrow> ('w, unit) op"
  dkPullClose :: "nat \<Rightarrow> ('w, unit) op"
  dkCreate :: "containerConfig \<Rightarrow> ('w, string) op"
  dkCopy :: "string \<Rightarrow> string \<Rightarrow> (tar_header \<times> string) list \<Rightarrow> ('w, unit) op"
  dkStart :: "string \<Rightarrow> ('w, unit) op"
  dkWait :: "string \<Rightarrow> 'w \<Rightarrow> wait_event \<times> 'w"
  dkLogs :: "string \<Rightarrow> ('w, nat) op"
  dkStdCopy :: "nat \<Rightarrow> 'w \<Rightarrow> (string \<times> string \<times> goerr option) \<times> 'w"
  dkLogsClose :: "nat \<Rightarrow> ('w, unit) op"
  dkRemove :: "string \<Rightarrow> ('w, unit) op"

record 'w host =
  hMkdirTemp :: "string \<Rightarrow> ('w, string) op"
  hClone :: "string \<Rightarrow> string \<Rightarrow> BasicAuth option \<Rightarrow> ('w, nat) op"
  hWorktree :: "nat \<Rightarrow> ('w, nat) op"
  hCheckout :: "nat \<Rightarrow> string \<Rightarrow> ('w, unit) op"
  hRemoveAll :: "string \<Rightarrow> ('w, unit) op"
  hExists :: "string \<Rightarrow> 'w \<Rightarrow> bool"
  hTree :: "string \<Rightarrow> 'w \<Rightarrow> fnode"

text \<open>The 64-bit floating point numbers of the CPU limit: \<open>strconv.ParseFloat\<close>, the test \<open>x <= 0\<close>, and
  \<open>int64(math.Round(x * 1e9))\<close>.\<close>

record 'f floats =
  flParse :: "string \<Rightarrow> goerr + 'f"
  flNotPositive :: "'f \<Rightarrow> bool"
  flNanos :: "'f \<Rightarrow> 64 word"

section \<open>Resource limits\<close>

definition envWorkerJobCPULimit :: string where "envWorkerJobCPULimit = ''WORKER_JOB_CPU_LIMIT''"
definition envWorkerJobNanoCPUs :: string where "envWorkerJobNanoCPUs = ''WORKER_JOB_NANO_CPUS''"
definition envWorkerJobMemoryLimit :: string where "envWorkerJobMemoryLimit = ''WORKER_JOB_MEMORY_LIMIT_MB''"
definition memoryMegabyteBytes :: "64 word" where "memoryMegabyteBytes = 1024 * 1024"

definition nano_cpus :: "'f floats \<Rightarrow> string \<Rightarrow> string \<Rightarrow> goerr + 64 word" where
  "nano_cpus fl nanoCPURaw cpuLimitRaw =
     (if nanoCPURaw \<noteq> '''' then
        (let err = Inl (Errorf (envWorkerJobNanoCPUs @ '' must be a positive int64, got '' @ quoted nanoCPURaw)) in
         case ParseInt64 nanoCPURaw of
           Inl _ \<Rightarrow> err
         | Inr n \<Rightarrow> if n \<le> 0 then err else Inr (word_of_int n))
      else if cpuLimitRaw \<noteq> '''' then
        (let err = Inl (Errorf (envWorkerJobCPULimit @ '' must be a positive number, got '' @ quoted cpuLimitRaw)) in
         case flParse fl cpuLimitRaw of
           Inl _ \<Rightarrow> err
         | Inr x \<Rightarrow>
             if flNotPositive fl x then err
             else if sint (flNanos fl x) \<le> 0
             then Inl (Errorf (envWorkerJobCPULimit @ '' resolved to invalid NanoCPUs for value '' @ quoted cpuLimitRaw))
             else Inr (flNanos fl x))
      else Inr 0)"

definition memory_limit :: "string \<Rightarrow> goerr + 64 word" where
  "memory_limit memoryLimitRaw =
     (if memoryLimitRaw = '''' then Inr 0
      else
        (let err = Inl (Errorf (envWorkerJobMemoryLimit @ '' must be a positive integer (MB), got '' @ quoted memoryLimitRaw)) in
         case ParseInt64 memoryLimitRaw of
           Inl _ \<Rightarrow> err
         | Inr n \<Rightarrow> if n \<le> 0 then err else Inr (word_of_int n * memoryMegabyteBytes)))"

definition containerResourcesFromEnv :: "'f floats \<Rightarrow> (string \<Rightarrow> string) \<Rightarrow> goerr + Resources" where
  "containerResourcesFromEnv fl getenv =
     (let nanoCPURaw = TrimSpace (getenv envWorkerJobNanoCPUs);
          cpuLimitRaw = TrimSpace (getenv envWorkerJobCPULimit);
          memoryLimitRaw = TrimSpace (getenv envWorkerJobMemoryLimit)
      in if nanoCPURaw \<noteq> '''' \<and> cpuLimitRaw \<noteq> ''''
         then Inl (Errorf (envWorkerJobNanoCPUs @ '' and '' @ envWorkerJobCPULimit @ '' cannot both be set''))
         else
           (case nano_cpus fl nanoCPURaw cpuLimitRaw of
              Inl e \<Rightarrow> Inl e
            | Inr cpus \<Rightarrow>
                (case memory_limit memoryLimitRaw of
                   Inl e \<Rightarrow> Inl e
                 | Inr mem \<Rightarrow> Inr \<lparr>NanoCPUs = cpus, Memory = mem\<rparr>)))"

definition hasContainerResourceLimits :: "Resources \<Rightarrow> bool" where
  "hasContainerResourceLimits r \<longleftrightarrow> 0 < sint (NanoCPUs r) \<or> 0 < sint (Memory r)"

section \<open>The workspace\<close>

definition cloneAuth :: "(string \<Rightarrow> string) \<Rightarrow> string \<Rightarrow> BasicAuth option" where
  "cloneAuth getenv repoURL =
     (let username = TrimSpace (getenv ''GIT_USERNAME''); token = TrimSpace (getenv ''GITHUB_TOKEN'') in
      if username \<noteq> '''' then Some \<lparr>baUsername = username, baPassword = TrimSpace (getenv ''GIT_PASSWORD'')\<rparr>
      else if Contains (ToLower (TrimSpace repoURL)) ''github.com'' \<and> token \<noteq> ''''
      then Some \<lparr>baUsername = ''x-access-token'', baPassword = token\<rparr>
      else None)"

abbreviation backslash :: char where "backslash \<equiv> CHR 0x5C"

definition ascii_letter :: "char \<Rightarrow> bool" where
  "ascii_letter c \<longleftrightarrow> (let n = of_char c :: nat in (97 \<le> n \<and> n \<le> 122) \<or> (65 \<le> n \<and> n \<le> 90))"

definition looksLikeWindowsPath :: "string \<Rightarrow> bool" where
  "looksLikeWindowsPath p =
     (if backslash \<in> set p then True
      else if length p < 2 \<or> p ! 1 \<noteq> CHR '':'' then False
      else ascii_letter (p ! 0))"

definition mapWindowsWorkspacePath :: "(string \<Rightarrow> string) \<Rightarrow> string \<Rightarrow> string" where
  "mapWindowsWorkspacePath getenv workspacePath =
     (let d = TrimSpace (getenv ''WORKSPACE_HOST_TEMP_DIR'');
          hostTempDir = (if d = '''' then ''/host-temp'' else d);
          base = path_Base (replace_char backslash slash (TrimSpace workspacePath))
      in if base = ''.'' \<or> base = ''/'' \<or> base = '''' then '''' else filepath_Join hostTempDir base)"

definition resolveWorkspacePath :: "'w host \<Rightarrow> (string \<Rightarrow> string) \<Rightarrow> string \<Rightarrow> 'w \<Rightarrow> string" where
  "resolveWorkspacePath h getenv workspacePath w =
     (let p = TrimSpace workspacePath; mappedPath = mapWindowsWorkspacePath getenv p in
      if p = '''' then ''''
      else if hExists h p w then p
      else if \<not> looksLikeWindowsPath p then p
      else if mappedPath = '''' then p
      else if hExists h mappedPath w then mappedPath
      else p)"

text \<open>The clean-up function of a materialized workspace is the directory it removes, if there is one.\<close>

definition materializeWorkspace ::
  "'w host \<Rightarrow> (string \<Rightarrow> string) \<Rightarrow> string \<Rightarrow> string \<Rightarrow> string \<Rightarrow> ('w, string \<times> string option) op" where
  "materializeWorkspace h getenv repoURL commit workspacePath w =
     (if TrimSpace repoURL \<noteq> '''' \<and> TrimSpace commit \<noteq> '''' then
        (case hMkdirTemp h ''cicd-worker-repo-*'' w of
           (Inl e, w1) \<Rightarrow> (Inl e, w1)
         | (Inr tmpDir, w1) \<Rightarrow>
             (case andthen (hClone h tmpDir repoURL (cloneAuth getenv repoURL)) (\<lambda>repo.
                   andthen (hWorktree h repo) (\<lambda>wt. hCheckout h wt commit)) w1 of
                (Inl e, w2) \<Rightarrow> (Inl e, snd (hRemoveAll h tmpDir w2))
              | (Inr _, w2) \<Rightarrow> (Inr (tmpDir, Some tmpDir), w2)))
      else (Inr (resolveWorkspacePath h getenv workspacePath w, None), w))"

section \<open>The workspace archive\<close>

text \<open>A \<open>tar.Writer\<close> over a buffer: the entries written, and how many bytes the last one still has to get.
  A header is refused while bytes are missing, and so are more bytes than the header announced.\<close>

record tar =
  tarEntries :: "(tar_header \<times> string) list"
  tarLeft :: nat

definition tar_Flush :: "tar \<Rightarrow> goerr + tar" where
  "tar_Flush t =
     (if 0 < tarLeft t then Inl (Errorf (''archive/tar: missed writing '' @ decimal (tarLeft t) @ '' bytes''))
      else Inr t)"

definition tar_WriteHeader :: "tar_header \<Rightarrow> tar \<Rightarrow> goerr + tar" where
  "tar_WriteHeader hdr t =
     (case tar_Flush t of
        Inl e \<Rightarrow> Inl e
      | Inr t1 \<Rightarrow> Inr \<lparr>tarEntries = tarEntries t1 @ [(hdr, '''')], tarLeft = hdSize hdr\<rparr>)"

definition tar_Write :: "string \<Rightarrow> tar \<Rightarrow> goerr + tar" where
  "tar_Write b t =
     (if tarLeft t < length b then Inl (Errorf ''archive/tar: write too long'')
      else
        (case tarEntries t of
           [] \<Rightarrow> Inr t
         | _ \<Rightarrow> let (hdr, c) = last (tarEntries t) in
                Inr \<lparr>tarEntries = butlast (tarEntries t) @ [(hdr, c @ b)], tarLeft = tarLeft t - length b\<rparr>))"

text \<open>\<open>tar.FileInfoHeader\<close>: the size is kept for regular files only, and sockets have no header.\<close>

fun FileInfoHeader :: "fnode \<Rightarrow> goerr + typeflag \<times> nat" where
  "FileInfoHeader (FBad e) = Inl e"
| "FileInfoHeader (FDir err es) = Inr (TypeDir, 0)"
| "FileInfoHeader (FLeaf KReg n data) = Inr (TypeReg, n)"
| "FileInfoHeader (FLeaf KSymlink n data) = Inr (TypeSymlink, 0)"
| "FileInfoHeader (FLeaf KFifo n data) = Inr (TypeFifo, 0)"
| "FileInfoHeader (FLeaf KDevice n data) = Inr (TypeChar, 0)"
| "FileInfoHeader (FLeaf KSocket n data) = Inl (Errorf ''archive/tar: sockets not supported'')"

definition relative_name :: "string list \<Rightarrow> string" where
  "relative_name names = path_string False names"

text \<open>The function given to \<open>filepath.Walk\<close>, at the entry reached from the root by \<open>names\<close>.\<close>

definition archive_entry :: "string list \<Rightarrow> fnode \<Rightarrow> tar \<Rightarrow> goerr + tar" where
  "archive_entry names node t =
     (let relPath = relative_name names in
      if relPath = ''.'' then Inr t
      else
        (case FileInfoHeader node of
           Inl e \<Rightarrow> Inl e
         | Inr (flag, sz) \<Rightarrow>
             (case tar_WriteHeader \<lparr>hdName = filepath_Join ''workspace'' relPath, hdType = flag, hdSize = sz\<rparr> t of
                Inl e \<Rightarrow> Inl e
              | Inr t1 \<Rightarrow>
                  (case node of
                     FLeaf k n data \<Rightarrow> (case data of Inl e \<Rightarrow> Inl e | Inr b \<Rightarrow> tar_Write b t1)
                   | _ \<Rightarrow> Inr t1))))"

fun walk_archive :: "string list \<Rightarrow> fnode \<Rightarrow> tar \<Rightarrow> goerr + tar"
  and walk_names :: "string list \<Rightarrow> (string \<times> fnode) list \<Rightarrow> tar \<Rightarrow> goerr + tar" where
  "walk_archive names (FBad e) t = Inl e"
| "walk_archive names (FLeaf k n data) t = archive_entry names (FLeaf k n data) t"
| "walk_archive names (FDir err es) t =
     (case err of
        Some e \<Rightarrow> Inl e
      | None \<Rightarrow>
          (case archive_entry names (FDir err es) t of
             Inl e \<Rightarrow> Inl e
           | Inr t1 \<Rightarrow> walk_names names es t1))"
| "walk_names names [] t = Inr t"
| "walk_names names ((n, node) # es) t =
     (case walk_archive (names @ [n]) node t of
        Inl e \<Rightarrow> Inl e
      | Inr t1 \<Rightarrow> walk_names names es t1)"

definition buildWorkspaceArchive :: "fnode \<Rightarrow> goerr + (tar_header \<times> string) list" where
  "buildWorkspaceArchive root =
     (case walk_archive [] root \<lparr>tarEntries = [], tarLeft = 0\<rparr> of
        Inl e \<Rightarrow> Inl e
      | Inr t \<Rightarrow> (case tar_Flush t of Inl e \<Rightarrow> Inl e | Inr t1 \<Rightarrow> Inr (tarEntries t1)))"

section \<open>The container\<close>

definition DefaultImage :: string where "DefaultImage = ''alpine:latest''"

definition scriptToCmd :: "string list \<Rightarrow> string list" where
  "scriptToCmd script =
     (if script = [] then [''sh'', ''-c'', ''true'']
      else let one = TrimSpace (Join script '' && '') in
        if one = '''' then [''sh'', ''-c'', ''true''] else [''sh'', ''-c'', one])"

definition pullImage :: "'w docker \<Rightarrow> string \<Rightarrow> ('w, unit) op" where
  "pullImage d imageRef =
     andthen (dkPull d imageRef) (\<lambda>resp w.
       case dkPullWait d resp w of (r, w1) \<Rightarrow> (r, snd (dkPullClose d resp w1)))"

definition createContainer ::
  "'f floats \<Rightarrow> 'w docker \<Rightarrow> (string \<Rightarrow> string) \<Rightarrow> string \<Rightarrow> string list \<Rightarrow> bool \<Rightarrow> ('w, string) op" where
  "createContainer fl d getenv img script hasWorkspace =
     (case containerResourcesFromEnv fl getenv of
        Inl e \<Rightarrow> fail e
      | Inr resources \<Rightarrow>
          dkCreate d \<lparr>ccImage = img, ccCmd = scriptToCmd script, ccAttachStdout = True, ccAttachStderr = True,
            ccWorkingDir = (if hasWorkspace then ''/workspace'' else ''''),
            ccResources = (if hasContainerResourceLimits resources then Some resources else None)\<rparr>)"

definition startContainer :: "'w docker \<Rightarrow> string \<Rightarrow> ('w, unit) op" where
  "startContainer d containerID = dkStart d containerID"

definition copyWorkspaceToContainer :: "'w docker \<Rightarrow> 'w host \<Rightarrow> string \<Rightarrow> string \<Rightarrow> ('w, unit) op" where
  "copyWorkspaceToContainer d h containerID workspacePath w =
     (case buildWorkspaceArchive (hTree h workspacePath w) of
        Inl e \<Rightarrow> (Inl e, w)
      | Inr archive \<Rightarrow> dkCopy d containerID ''/'' archive w)"

definition waitContainer :: "'w docker \<Rightarrow> string \<Rightarrow> ('w, unit) op" where
  "waitContainer d containerID w =
     (case dkWait d containerID w of
        (WaitError err, w1) \<Rightarrow> (case err of None \<Rightarrow> Inr () | Some e \<Rightarrow> Inl e, w1)
      | (WaitResult code, w1) \<Rightarrow>
          (if code \<noteq> 0 then Inl (Errorf (''container exited with status '' @ Itoa code)) else Inr (), w1)
      | (WaitCtxDone e, w1) \<Rightarrow> (Inl e, w1))"

definition io_EOF :: goerr where "io_EOF = Errorf ''EOF''"

definition getLogs :: "'w docker \<Rightarrow> string \<Rightarrow> ('w, string) op" where
  "getLogs d containerID =
     andthen (dkLogs d containerID) (\<lambda>rc w.
       case dkStdCopy d rc w of
         ((out, errOut, err), w1) \<Rightarrow>
           (let w2 = snd (dkLogsClose d rc w1) in
            case err of
              Some e \<Rightarrow>
                if e \<noteq> io_EOF then (Inl e, w2)
                else (Inr (if errOut \<noteq> '''' then (if out \<noteq> '''' then out @ [CHR 0x0A] else out) @ errOut else out), w2)
            | None \<Rightarrow>
                (Inr (if errOut \<noteq> '''' then (if out \<noteq> '''' then out @ [CHR 0x0A] else out) @ errOut else out), w2)))"

definition removeContainer :: "'w docker \<Rightarrow> string \<Rightarrow> ('w, unit) op" where
  "removeContainer d containerID = dkRemove d containerID"

section \<open>Running a job\<close>

text \<open>\<open>ExecuteJob\<close> returns logs and an error; with an error of the wait both can be there. Its steps after the
  container exists, after the workspace exists, and the whole, each with the deferred calls at its end.\<close>

type_synonym outcome = "string \<times> goerr option"

definition collect_result :: "(goerr + unit) \<Rightarrow> (goerr + string) \<Rightarrow> outcome" where
  "collect_result waitRes logsRes =
     (case logsRes of
        Inl logsErr \<Rightarrow>
          (case waitRes of
             Inl waitErr \<Rightarrow> ('''', Some \<lparr>Error = ''wait container: '' @ Error waitErr @ ''; get logs: '' @ Error logsErr,
                                     chain = chain waitErr\<rparr>)
           | Inr _ \<Rightarrow> ('''', Some (wrapf ''get logs: '' logsErr)))
      | Inr logs \<Rightarrow>
          (case waitRes of
             Inl waitErr \<Rightarrow>
               if TrimSpace logs \<noteq> '''' then
                 (logs, Some \<lparr>Error = ''wait container: '' @ Error waitErr @ [CHR 0x0A] @ ''logs:'' @ [CHR 0x0A] @ logs,
                              chain = chain waitErr\<rparr>)
               else (logs, Some (wrapf ''wait container: '' waitErr))
           | Inr _ \<Rightarrow> (logs, None)))"

definition run_container :: "'w docker \<Rightarrow> 'w host \<Rightarrow> string \<Rightarrow> string \<Rightarrow> 'w \<Rightarrow> outcome \<times> 'w" where
  "run_container d h containerID workspacePath w =
     (case (if workspacePath \<noteq> '''' then copyWorkspaceToContainer d h containerID workspacePath w else (Inr (), w)) of
        (Inl e, w1) \<Rightarrow> (('''', Some (wrapf ''copy workspace to container: '' e)), w1)
      | (Inr _, w1) \<Rightarrow>
          (case startContainer d containerID w1 of
             (Inl e, w2) \<Rightarrow> (('''', Some (wrapf ''run container: '' e)), w2)
           | (Inr _, w2) \<Rightarrow>
               (let (waitRes, w3) = waitContainer d containerID w2; (logsRes, w4) = getLogs d containerID w3
                in (collect_result waitRes logsRes, w4))))"

definition container_job ::
  "'f floats \<Rightarrow> 'w docker \<Rightarrow> 'w host \<Rightarrow> (string \<Rightarrow> string) \<Rightarrow> string \<Rightarrow> string list \<Rightarrow> string \<Rightarrow> 'w \<Rightarrow> outcome \<times> 'w" where
  "container_job fl d h getenv img script workspacePath w =
     (case createContainer fl d getenv img script (workspacePath \<noteq> '''') w of
        (Inl e, w1) \<Rightarrow> (('''', Some (wrapf ''create container: '' e)), w1)
      | (Inr containerID, w1) \<Rightarrow>
          (case run_container d h containerID workspacePath w1 of
             (out, w2) \<Rightarrow> (out, snd (removeContainer d containerID w2))))"

definition ExecuteJob ::
  "'f floats \<Rightarrow> 'w docker option \<Rightarrow> 'w host \<Rightarrow> (string \<Rightarrow> string) \<Rightarrow> JobExecutionPlan option \<Rightarrow> string \<Rightarrow> string \<Rightarrow> string \<Rightarrow>
     'w \<Rightarrow> outcome \<times> 'w" where
  "ExecuteJob fl cli h getenv job repoURL commit workspacePath w =
     (case (cli, job) of
        (Some d, Some j) \<Rightarrow>
          (let img = (if jepImage j = '''' then DefaultImage else jepImage j) in
           case (if jepImage j \<noteq> '''' then pullImage d img w else (Inr (), w)) of
             (Inl e, w1) \<Rightarrow> (('''', Some (wrapf (''pull image '' @ quoted img @ '': '') e)), w1)
           | (Inr _, w1) \<Rightarrow>
               (case materializeWorkspace h getenv repoURL commit workspacePath w1 of
                  (Inl e, w2) \<Rightarrow> (('''', Some (wrapf ''prepare workspace: '' e)), w2)
                | (Inr (path, cleanup), w2) \<Rightarrow>
                    (case container_job fl d h getenv img (jepScript j) path w2 of
                       (out, w3) \<Rightarrow>
                         (out, case cleanup of None \<Rightarrow> w3 | Some dir \<Rightarrow> snd (hRemoveAll h dir w3)))))
      | _ \<Rightarrow> (('''', Some (Errorf ''docker client and job are required'')), w))"

section \<open>Resource limits: what reaches the engine\<close>

lemma sint_word64: "sint (word_of_int i :: 64 word) = (i + 2 ^ 63) mod 2 ^ 64 - 2 ^ 63"
  by (simp add: int_word_sint)

lemma memory_product: "word_of_int n * memoryMegabyteBytes = (word_of_int (n * 2 ^ 20) :: 64 word)"
  by (simp add: memoryMegabyteBytes_def wi_hom_mult)

lemma memory_exact_iff:
  assumes "0 < n" "n < 2 ^ 63"
  shows "sint (word_of_int n * memoryMegabyteBytes :: 64 word) = n * 2 ^ 20 \<longleftrightarrow> n < 2 ^ 43"
proof
  assume "sint (word_of_int n * memoryMegabyteBytes :: 64 word) = n * 2 ^ 20"
  moreover have "sint (word_of_int n * memoryMegabyteBytes :: 64 word) < 2 ^ 63"
    using sint_lt [of "word_of_int n * memoryMegabyteBytes :: 64 word"] by simp
  ultimately show "n < 2 ^ 43" by simp
next
  assume "n < 2 ^ 43"
  then have "(n * 2 ^ 20 + 2 ^ 63) mod 2 ^ 64 = n * 2 ^ 20 + 2 ^ 63" using assms by (intro mod_pos_pos_trivial) simp_all
  then show "sint (word_of_int n * memoryMegabyteBytes :: 64 word) = n * 2 ^ 20"
    unfolding memory_product sint_word64 by simp
qed

lemma memory_negative:
  assumes "2 ^ 43 \<le> n" "n \<le> 2 ^ 44"
  shows "sint (word_of_int n * memoryMegabyteBytes :: 64 word) = n * 2 ^ 20 - 2 ^ 64"
proof -
  have "(n * 2 ^ 20 + 2 ^ 63) mod 2 ^ 64 = (n * 2 ^ 20 + 2 ^ 63 - 2 ^ 64) mod (2 ^ 64 :: int)"
    by (metis minus_mod_self2)
  also have "\<dots> = n * 2 ^ 20 + 2 ^ 63 - 2 ^ 64"
    using assms by (intro mod_pos_pos_trivial) simp_all
  finally show ?thesis unfolding memory_product sint_word64 by simp
qed

lemma containerResources_Memory:
  assumes "containerResourcesFromEnv fl getenv = Inr r" and "TrimSpace (getenv envWorkerJobMemoryLimit) \<noteq> ''''"
  obtains n where "ParseInt64 (TrimSpace (getenv envWorkerJobMemoryLimit)) = Inr n" "0 < n"
    "Memory r = word_of_int n * memoryMegabyteBytes"
  using assms by (auto simp: containerResourcesFromEnv_def memory_limit_def Let_def split: if_splits sum.splits)

text \<open>The memory limit is exact below 8 EiB and only there: when the environment asks for \<open>n\<close> MB and
  the settings are accepted, the limit handed to the engine is \<open>n * 2^20\<close> bytes if and only if
  \<open>n < 2^43\<close>, and then the container is created with limits.\<close>

theorem memory_limit_in_bytes:
  assumes "containerResourcesFromEnv fl getenv = Inr r"
    and "ParseInt64 (TrimSpace (getenv envWorkerJobMemoryLimit)) = Inr n"
  shows "0 < n \<and> (sint (Memory r) = n * 2 ^ 20 \<longleftrightarrow> n < 2 ^ 43) \<and> (n < 2 ^ 43 \<longrightarrow> hasContainerResourceLimits r)"
proof -
  have "TrimSpace (getenv envWorkerJobMemoryLimit) \<noteq> ''''"
    using assms(2) by (auto simp: ParseInt64_def parse_int_def)
  then have n: "0 < n" "Memory r = word_of_int n * memoryMegabyteBytes"
    using assms containerResources_Memory by (metis Inr_inject)+
  moreover from n(1) ParseInt64_range [OF assms(2)]
  have "sint (Memory r) = n * 2 ^ 20 \<longleftrightarrow> n < 2 ^ 43" using memory_exact_iff [of n] n by simp
  ultimately show ?thesis by (auto simp: hasContainerResourceLimits_def)
qed

text \<open>From 2^43 to 2^44 MB the product wraps to a value that is not positive: the settings are
  accepted, and without a CPU limit the container is created with no limit at all.\<close>

theorem memory_limit_dropped:
  assumes "ParseInt64 (TrimSpace (getenv envWorkerJobMemoryLimit)) = Inr n" and "2 ^ 43 \<le> n" and "n \<le> 2 ^ 44"
    and "TrimSpace (getenv envWorkerJobCPULimit) = ''''" and "TrimSpace (getenv envWorkerJobNanoCPUs) = ''''"
  shows "createContainer fl d getenv img script ws =
    dkCreate d \<lparr>ccImage = img, ccCmd = scriptToCmd script, ccAttachStdout = True, ccAttachStderr = True,
      ccWorkingDir = (if ws then ''/workspace'' else ''''), ccResources = None\<rparr>"
proof -
  let ?m = "word_of_int n * memoryMegabyteBytes :: 64 word"
  have ne: "TrimSpace (getenv envWorkerJobMemoryLimit) \<noteq> ''''"
    using assms(1) by (auto simp: ParseInt64_def parse_int_def)
  have "\<not> n \<le> 0" using assms(2) by simp
  with ne assms have r: "containerResourcesFromEnv fl getenv = Inr \<lparr>NanoCPUs = 0, Memory = ?m\<rparr>"
    by (simp add: containerResourcesFromEnv_def nano_cpus_def memory_limit_def)
  have "sint ?m \<le> 0" unfolding memory_negative [OF assms(2,3)] using assms(3) by simp
  then show ?thesis by (simp add: createContainer_def r hasContainerResourceLimits_def)
qed

section \<open>The archive is the workspace\<close>

text \<open>The reference: an entry for every node below the root, in the order of the walk, and the trees that
  can be written. The names in a directory are file names.\<close>

fun flatten :: "string list \<Rightarrow> fnode \<Rightarrow> (tar_header \<times> string) list"
  and flatten_names :: "string list \<Rightarrow> (string \<times> fnode) list \<Rightarrow> (tar_header \<times> string) list" where
  "flatten names (FBad e) = []"
| "flatten names (FLeaf k n data) =
     (case (FileInfoHeader (FLeaf k n data), data) of
        (Inr (flag, sz), Inr b) \<Rightarrow> [(\<lparr>hdName = ''workspace/'' @ Join names ''/'', hdType = flag, hdSize = sz\<rparr>, b)]
      | _ \<Rightarrow> [])"
| "flatten names (FDir err es) =
     (\<lparr>hdName = ''workspace/'' @ Join names ''/'', hdType = TypeDir, hdSize = 0\<rparr>, '''') # flatten_names names es"
| "flatten_names names [] = []"
| "flatten_names names ((n, node) # es) = flatten (names @ [n]) node @ flatten_names names es"

fun archivable :: "fnode \<Rightarrow> bool"
  and archivable_names :: "(string \<times> fnode) list \<Rightarrow> bool" where
  "archivable (FBad e) \<longleftrightarrow> False"
| "archivable (FLeaf k n data) \<longleftrightarrow>
     (case (FileInfoHeader (FLeaf k n data), data) of (Inr (flag, sz), Inr b) \<Rightarrow> length b = sz | _ \<Rightarrow> False)"
| "archivable (FDir err es) \<longleftrightarrow> err = None \<and> archivable_names es"
| "archivable_names [] \<longleftrightarrow> True"
| "archivable_names ((n, node) # es) \<longleftrightarrow> archivable node \<and> archivable_names es"

fun well_named :: "fnode \<Rightarrow> bool"
  and well_named_names :: "(string \<times> fnode) list \<Rightarrow> bool" where
  "well_named (FBad e) \<longleftrightarrow> True"
| "well_named (FLeaf k n data) \<longleftrightarrow> True"
| "well_named (FDir err es) \<longleftrightarrow> well_named_names es"
| "well_named_names [] \<longleftrightarrow> True"
| "well_named_names ((n, node) # es) \<longleftrightarrow> plain n \<and> well_named node \<and> well_named_names es"

text \<open>What is in the archive after a walk, if it can be closed then.\<close>

definition closed :: "goerr + tar \<Rightarrow> (tar_header \<times> string) list option" where
  "closed r = (case r of Inl e \<Rightarrow> None | Inr t \<Rightarrow> if tarLeft t = 0 then Some (tarEntries t) else None)"

lemma buildWorkspaceArchive_closed:
  "(\<exists>e. buildWorkspaceArchive root = Inl e) \<longleftrightarrow> closed (walk_archive [] root \<lparr>tarEntries = [], tarLeft = 0\<rparr>) = None"
  "buildWorkspaceArchive root = Inr a \<longleftrightarrow> closed (walk_archive [] root \<lparr>tarEntries = [], tarLeft = 0\<rparr>) = Some a"
  by (auto simp: buildWorkspaceArchive_def closed_def tar_Flush_def split: sum.splits)

lemma Join_plain:
  assumes "names \<noteq> []" and "\<forall>n \<in> set names. plain n"
  shows "relative_name names = Join names ''/''" and "relative_name names \<noteq> ''.''"
    and "filepath_Join ''workspace'' (relative_name names) = ''workspace/'' @ Join names ''/''"
proof -
  show rel: "relative_name names = Join names ''/''" using assms by (simp add: relative_name_def path_string_def)
  have split: "split_on slash (Join names ''/'') = names" using assms by (simp add: split_on_Join plain_def)
  show "relative_name names \<noteq> ''.''"
  proof
    assume "relative_name names = ''.''"
    then have "names = [''.'']" using split rel by simp
    then show False using assms(2) by (simp add: plain_def)
  qed
  have "split_on slash (''workspace'' @ ''/'' @ Join names ''/'') = ''workspace'' # names"
    using split_on_append [of slash "''workspace''" "Join names ''/''"] split by simp
  moreover have "plain ''workspace''" by (simp add: plain_def)
  ultimately have "elements (''workspace'' @ ''/'' @ Join names ''/'') = ''workspace'' # names"
    unfolding elements_def using assms by (simp add: foldl_clean_plain clean_elem_plain)
  moreover have "\<not> IsAbs (''workspace'' @ ''/'' @ Join names ''/'')" by (simp add: IsAbs_def HasPrefix_def)
  ultimately show "filepath_Join ''workspace'' (relative_name names) = ''workspace/'' @ Join names ''/''"
    unfolding rel filepath_Join_def filepath_Clean_def using assms(1) by (cases names) (simp_all add: path_string_def)
qed

lemma tar_Write_last:
  "tar_Write b \<lparr>tarEntries = es @ [(hdr, c)], tarLeft = n\<rparr> =
     (if n < length b then Inl (Errorf ''archive/tar: write too long'')
      else Inr \<lparr>tarEntries = es @ [(hdr, c @ b)], tarLeft = n - length b\<rparr>)"
  by (cases es) (simp_all add: tar_Write_def)

lemma closed_leaf:
  assumes "names \<noteq> []" and "\<forall>n \<in> set names. plain n"
  shows "closed (archive_entry names (FLeaf k n data) t) =
    (if tarLeft t = 0 \<and> archivable (FLeaf k n data) then Some (tarEntries t @ flatten names (FLeaf k n data)) else None)"
  using Join_plain [OF assms]
  by (cases k; cases data)
    (auto simp: archive_entry_def tar_WriteHeader_def tar_Flush_def tar_Write_last closed_def Let_def)

lemma archive_dir:
  assumes "names \<noteq> []" and "\<forall>n \<in> set names. plain n"
  shows "archive_entry names (FDir err es) t =
    (if tarLeft t = 0 then
       Inr \<lparr>tarEntries = tarEntries t @ [(\<lparr>hdName = ''workspace/'' @ Join names ''/'', hdType = TypeDir, hdSize = 0\<rparr>, '''')],
         tarLeft = 0\<rparr>
     else Inl (Errorf (''archive/tar: missed writing '' @ decimal (tarLeft t) @ '' bytes'')))"
  using Join_plain [OF assms] by (simp add: archive_entry_def tar_WriteHeader_def tar_Flush_def)

lemma closed_walk:
  "names \<noteq> [] \<Longrightarrow> \<forall>n \<in> set names. plain n \<Longrightarrow> well_named node \<Longrightarrow>
     closed (walk_archive names node t) =
       (if tarLeft t = 0 \<and> archivable node then Some (tarEntries t @ flatten names node) else None)"
  "\<forall>n \<in> set names. plain n \<Longrightarrow> well_named_names es \<Longrightarrow>
     closed (walk_names names es t) =
       (if tarLeft t = 0 \<and> archivable_names es then Some (tarEntries t @ flatten_names names es) else None)"
proof (induction names node t and names es t rule: walk_archive_walk_names.induct)
  case (1 names e t)
  then show ?case by (simp add: closed_def)
next
  case (2 names k n data t)
  then show ?case using closed_leaf by simp
next
  case (3 names err es t)
  show ?case
  proof (cases "err = None \<and> tarLeft t = 0")
    case True
    then show ?thesis using 3 by (simp add: archive_dir)
  next
    case False
    then show ?thesis using 3 by (cases err) (auto simp: archive_dir closed_def)
  qed
next
  case (4 names t)
  then show ?case by (simp add: closed_def)
next
  case (5 names n node es t)
  have IH: "closed (walk_archive (names @ [n]) node t) =
      (if tarLeft t = 0 \<and> archivable node then Some (tarEntries t @ flatten (names @ [n]) node) else None)"
    using 5 by auto
  show ?case
  proof (cases "walk_archive (names @ [n]) node t")
    case (Inl e)
    with IH show ?thesis by (auto simp: closed_def split: if_splits)
  next
    case (Inr t1)
    with 5 have "closed (walk_names names es t1) =
        (if tarLeft t1 = 0 \<and> archivable_names es then Some (tarEntries t1 @ flatten_names names es) else None)" by simp
    with IH Inr show ?thesis by (auto simp: closed_def split: if_splits)
  qed
qed

lemma closed_root:
  "well_named (FDir None es) \<Longrightarrow> closed (walk_archive [] (FDir None es) \<lparr>tarEntries = [], tarLeft = 0\<rparr>) =
     (if archivable_names es then Some (flatten_names [] es) else None)"
  using closed_walk(2) [of "[]" es] by (simp add: archive_entry_def relative_name_def path_string_def)

text \<open>C32. The archive copied into the container is the workspace: for a readable directory it is built
  exactly when every entry below can be written, and then it has one entry for each of them, in
  the order of the walk, under \<open>workspace/\<close> and with its contents.\<close>

theorem archive_is_workspace:
  assumes "well_named (FDir None es)"
  shows "buildWorkspaceArchive (FDir None es) = Inr a \<longleftrightarrow> archivable (FDir None es) \<and> a = flatten_names [] es"
  unfolding buildWorkspaceArchive_closed(2) closed_root [OF assms] by auto

text \<open>A symbolic link to a file that is not empty makes the archive fail: its header has size 0, and the
  contents behind the link are written.\<close>

lemma symlink_breaks_workspace:
  assumes "plain name" and "b \<noteq> ''''"
  shows "\<exists>e. buildWorkspaceArchive (FDir None [(name, FLeaf KSymlink n (Inr b))]) = Inl e"
  unfolding buildWorkspaceArchive_closed(1) using assms by (subst closed_root) simp_all

section \<open>Nothing is left behind\<close>

text \<open>
  The contract of the engine and the host: \<open>live\<close> are the containers and temporary directories there are,
  \<open>stuck\<close> the list of those whose removal was tried and failed. Only a successful create or \<open>MkdirTemp\<close>
  makes one, and a removal takes it away or fails.
\<close>

datatype resource = Container string | TempDir string

locale job_host =
  fixes d :: "'w docker" and h :: "'w host" and live :: "'w \<Rightarrow> resource set" and stuck :: "'w \<Rightarrow> resource list"
  assumes quiet_pull: "keeps (\<lambda>w. (live w, stuck w)) (dkPull d img)"
    and quiet_pull_wait: "keeps (\<lambda>w. (live w, stuck w)) (dkPullWait d handle)"
    and quiet_pull_close: "keeps (\<lambda>w. (live w, stuck w)) (dkPullClose d handle)"
    and quiet_copy: "keeps (\<lambda>w. (live w, stuck w)) (dkCopy d cid dest archive)"
    and quiet_start: "keeps (\<lambda>w. (live w, stuck w)) (dkStart d cid)"
    and quiet_wait: "(\<lambda>w. (live w, stuck w)) (snd (dkWait d cid w)) = (\<lambda>w. (live w, stuck w)) w"
    and quiet_logs: "keeps (\<lambda>w. (live w, stuck w)) (dkLogs d cid)"
    and quiet_stdcopy: "(\<lambda>w. (live w, stuck w)) (snd (dkStdCopy d handle w)) = (\<lambda>w. (live w, stuck w)) w"
    and quiet_logs_close: "keeps (\<lambda>w. (live w, stuck w)) (dkLogsClose d handle)"
    and quiet_clone: "keeps (\<lambda>w. (live w, stuck w)) (hClone h dir url auth)"
    and quiet_worktree: "keeps (\<lambda>w. (live w, stuck w)) (hWorktree h repo)"
    and quiet_checkout: "keeps (\<lambda>w. (live w, stuck w)) (hCheckout h wt commit)"
    and create_one: "dkCreate d cfg w = (r, w1) \<Longrightarrow> stuck w1 = stuck w \<and>
      (case r of Inl e \<Rightarrow> live w1 = live w
       | Inr cid \<Rightarrow> Container cid \<notin> live w \<and> live w1 = insert (Container cid) (live w))"
    and mkdir_one: "hMkdirTemp h pattern w = (r, w1) \<Longrightarrow> stuck w1 = stuck w \<and>
      (case r of Inl e \<Rightarrow> live w1 = live w
       | Inr dir \<Rightarrow> TempDir dir \<notin> live w \<and> live w1 = insert (TempDir dir) (live w))"
    and remove_one: "dkRemove d cid w = (u, w1) \<Longrightarrow>
      (case u of Inl e \<Rightarrow> live w1 = live w \<and> stuck w1 = Container cid # stuck w
       | Inr _ \<Rightarrow> live w1 = live w - {Container cid} \<and> stuck w1 = stuck w)"
    and remove_all_one: "hRemoveAll h dir w = (u, w1) \<Longrightarrow>
      (case u of Inl e \<Rightarrow> live w1 = live w \<and> stuck w1 = TempDir dir # stuck w
       | Inr _ \<Rightarrow> live w1 = live w - {TempDir dir} \<and> stuck w1 = stuck w)"
begin

abbreviation held :: "'w \<Rightarrow> resource set \<times> resource list" where
  "held w \<equiv> (live w, stuck w)"

text \<open>A step is tidy when everything it adds is something it could not remove.\<close>

definition tidy :: "'w \<Rightarrow> 'w \<Rightarrow> bool" where
  "tidy w w1 \<longleftrightarrow> (\<exists>fs. stuck w1 = fs @ stuck w \<and> live w1 = live w \<union> set fs)"

lemma tidy_held: "held w1 = held w \<Longrightarrow> tidy w w1"
  by (auto simp: tidy_def)

lemma quiet_getLogs: "keeps held (getLogs d cid)"
  unfolding getLogs_def
proof (rule keeps_andthen [OF quiet_logs], unfold keeps_def, rule allI)
  fix rc w
  obtain out errOut err w1 where c: "dkStdCopy d rc w = ((out, errOut, err), w1)" by (metis prod.exhaust)
  then have "held w1 = held w" using quiet_stdcopy [of rc w] by simp
  then have "held (snd (dkLogsClose d rc w1)) = held w" using keeps_snd [OF quiet_logs_close] by metis
  then show "held (snd (case dkStdCopy d rc w of ((out, errOut, err), w1) \<Rightarrow>
      let w2 = snd (dkLogsClose d rc w1) in
      case err of
        None \<Rightarrow> (Inr (if errOut \<noteq> '''' then (if out \<noteq> '''' then out @ [CHR 0x0A] else out) @ errOut else out), w2)
      | Some e \<Rightarrow>
          if e \<noteq> io_EOF then (Inl e, w2)
          else (Inr (if errOut \<noteq> '''' then (if out \<noteq> '''' then out @ [CHR 0x0A] else out) @ errOut else out), w2))) = held w"
    by (simp add: c Let_def split: option.split)
qed

lemma quiet_waitContainer: "keeps held (waitContainer d cid)"
  unfolding keeps_def
proof
  fix w
  obtain ev w1 where "dkWait d cid w = (ev, w1)" by (meson surj_pair)
  then show "held (snd (waitContainer d cid w)) = held w"
    using quiet_wait [of cid w] by (cases ev) (simp_all add: waitContainer_def)
qed

lemma quiet_pullImage: "keeps held (pullImage d img)"
  unfolding pullImage_def
proof (rule keeps_andthen [OF quiet_pull], unfold keeps_def, rule allI)
  fix resp w
  obtain r w1 where c: "dkPullWait d resp w = (r, w1)" by (meson surj_pair)
  with keepsD [OF quiet_pull_wait c] keeps_snd [OF quiet_pull_close, of resp w1]
  show "held (snd (case dkPullWait d resp w of (r, w1) \<Rightarrow> (r, snd (dkPullClose d resp w1)))) = held w" by simp
qed

lemma quiet_copyWorkspace: "keeps held (copyWorkspaceToContainer d h cid path)"
  using keeps_snd [OF quiet_copy] by (simp add: copyWorkspaceToContainer_def keeps_def split: sum.split)

lemma quiet_run_container: "held (snd (run_container d h cid path w)) = held w"
proof -
  let ?c = "if path \<noteq> '''' then copyWorkspaceToContainer d h cid path w else (Inr (), w)"
  obtain r w1 where c: "?c = (r, w1)" by (meson surj_pair)
  then have w1: "held w1 = held w" using keepsD [OF quiet_copyWorkspace] by (metis Pair_inject)
  obtain r2 w2 where s: "startContainer d cid w1 = (r2, w2)" by (meson surj_pair)
  obtain r3 w3 where wt: "waitContainer d cid w2 = (r3, w3)" by (meson surj_pair)
  obtain r4 w4 where lg: "getLogs d cid w3 = (r4, w4)" by (meson surj_pair)
  have "held w2 = held w" using keepsD [OF quiet_start s [unfolded startContainer_def]] w1 by simp
  moreover have "held w4 = held w2" using keepsD [OF quiet_waitContainer wt] keepsD [OF quiet_getLogs lg] by simp
  ultimately show ?thesis
    using w1 by (cases r; cases r2) (simp_all add: run_container_def c s wt lg)
qed

lemma container_job_removed:
  "\<exists>fs. set fs \<subseteq> range Container \<and> stuck (snd (container_job fl d h getenv img script path w)) = fs @ stuck w
     \<and> live (snd (container_job fl d h getenv img script path w)) = live w \<union> set fs" (is "?removed (snd ?job)")
proof -
  obtain r w1 where c: "createContainer fl d getenv img script (path \<noteq> '''') w = (r, w1)" by (meson surj_pair)
  show ?thesis
  proof (cases r)
    case (Inl e)
    with c have "held w1 = held w"
      by (auto simp: createContainer_def fail_def dest!: create_one split: sum.splits)
    with c Inl show ?thesis by (auto simp: container_job_def)
  next
    case (Inr cid)
    with c have created: "Container cid \<notin> live w" "live w1 = insert (Container cid) (live w)" "stuck w1 = stuck w"
      by (auto simp: createContainer_def fail_def dest!: create_one split: sum.splits)
    obtain out w2 where r: "run_container d h cid path w1 = (out, w2)" by (meson surj_pair)
    have w2: "live w2 = live w1" "stuck w2 = stuck w1" using quiet_run_container [of cid path w1] r by simp_all
    obtain u w3 where rm: "dkRemove d cid w2 = (u, w3)" by (meson surj_pair)
    from c Inr r rm have "snd ?job = w3"
      by (simp add: container_job_def removeContainer_def)
    moreover from remove_one [OF rm] created w2 have "?removed w3"
      by (cases u) (auto intro: exI [of _ "[Container cid]"] exI [of _ "[]"])
    ultimately show ?thesis by simp
  qed
qed

lemma tidy_materialize:
  assumes "materializeWorkspace h getenv repoURL commit workspacePath w = (r, w1)"
  shows "case r of Inl e \<Rightarrow> tidy w w1
    | Inr (path, None) \<Rightarrow> held w1 = held w
    | Inr (path, Some dir) \<Rightarrow> TempDir dir \<notin> live w \<and> live w1 = insert (TempDir dir) (live w) \<and> stuck w1 = stuck w"
proof (cases "TrimSpace repoURL \<noteq> '''' \<and> TrimSpace commit \<noteq> ''''")
  case True
  obtain r0 w0 where mk: "hMkdirTemp h ''cicd-worker-repo-*'' w = (r0, w0)" by (meson surj_pair)
  show ?thesis
  proof (cases r0)
    case (Inl e)
    with assms True mk mkdir_one [OF mk] show ?thesis by (auto simp: materializeWorkspace_def tidy_def)
  next
    case (Inr dir)
    let ?m = "andthen (hClone h dir repoURL (cloneAuth getenv repoURL)) (\<lambda>repo. andthen (hWorktree h repo) (\<lambda>wt. hCheckout h wt commit))"
    obtain r2 w2 where m: "?m w0 = (r2, w2)" by (meson surj_pair)
    have "keeps (\<lambda>w. (live w, stuck w)) ?m"
      by (intro keeps_andthen quiet_clone quiet_worktree quiet_checkout)
    with m mkdir_one [OF mk] Inr
    have w2: "TempDir dir \<notin> live w" "live w2 = insert (TempDir dir) (live w)" "stuck w2 = stuck w"
      by (auto dest: keepsD)
    obtain u w3 where rm: "hRemoveAll h dir w2 = (u, w3)" by (meson surj_pair)
    from remove_all_one [OF rm] w2 have "tidy w w3"
      unfolding tidy_def by (cases u) (auto intro: exI [of _ "[TempDir dir]"])
    with assms True mk Inr m w2 rm show ?thesis
      by (cases r2) (auto simp: materializeWorkspace_def)
  qed
next
  case False
  with assms show ?thesis by (auto simp: materializeWorkspace_def)
qed

lemma tidy_ExecuteJob: "tidy w (snd (ExecuteJob fl (Some d) h getenv (Some j) repoURL commit path w))"
proof -
  let ?img = "if jepImage j = '''' then DefaultImage else jepImage j"
  let ?pull = "if jepImage j \<noteq> '''' then pullImage d ?img w else (Inr (), w)"
  obtain r0 w0 where pull: "?pull = (r0, w0)" by (meson surj_pair)
  then have w0: "held w0 = held w" using keepsD [OF quiet_pullImage] by (metis Pair_inject)
  obtain r1 w1 where mat: "materializeWorkspace h getenv repoURL commit path w0 = (r1, w1)" by (meson surj_pair)
  note m = tidy_materialize [OF mat]
  show ?thesis
  proof (cases r0)
    case (Inl e)
    with pull w0 show ?thesis by (simp add: ExecuteJob_def Let_def tidy_held)
  next
    case r0: (Inr u0)
    show ?thesis
    proof (cases r1)
      case (Inl e)
      with pull r0 mat m w0 show ?thesis by (simp add: ExecuteJob_def Let_def tidy_def)
    next
      case (Inr pc)
      obtain ws cleanup where pc: "pc = (ws, cleanup)" by (meson surj_pair)
      obtain out w2 where job: "container_job fl d h getenv ?img (jepScript j) ws w1 = (out, w2)" by (meson surj_pair)
      then obtain fs where fs: "set fs \<subseteq> range Container" "stuck w2 = fs @ stuck w1" "live w2 = live w1 \<union> set fs"
        using container_job_removed [of fl getenv ?img "jepScript j" ws w1] by auto
      then have t: "tidy w1 w2" by (auto simp: tidy_def)
      show ?thesis
      proof (cases cleanup)
        case None
        with pull r0 mat m w0 Inr pc job t show ?thesis by (simp add: ExecuteJob_def Let_def tidy_def)
      next
        case (Some dir)
        obtain u w3 where rm: "hRemoveAll h dir w2 = (u, w3)" by (meson surj_pair)
        from m Inr pc Some w0 have w1: "TempDir dir \<notin> live w" "live w1 = insert (TempDir dir) (live w)" "stuck w1 = stuck w"
          by simp_all
        have "tidy w w3"
        proof (cases u)
          case (Inl e)
          with remove_all_one [OF rm] fs w1 show ?thesis
            unfolding tidy_def by (intro exI [of _ "TempDir dir # fs"]) auto
        next
          case (Inr v)
          with remove_all_one [OF rm] fs w1 show ?thesis
            unfolding tidy_def by (intro exI [of _ fs]) auto
        qed
        with pull r0 mat Inr pc job Some rm show ?thesis by (simp add: ExecuteJob_def Let_def)
      qed
    qed
  qed
qed

end

text \<open>C10. A job leaves nothing behind: whatever fails while it runs, the containers and temporary
  directories afterwards are those there were before, together with exactly the ones whose removal
  was tried and failed.\<close>

theorem ExecuteJob_cleans_up:
  assumes "job_host d h live stuck"
    and "ExecuteJob fl (Some d) h getenv (Some j) repoURL commit workspacePath w = (out, w')"
  shows "\<exists>fs. stuck w' = fs @ stuck w \<and> live w' = live w \<union> set fs"
  using job_host.tidy_ExecuteJob [OF assms(1), of w fl getenv j repoURL commit workspacePath] assms(2)
  by (simp add: job_host.tidy_def [OF assms(1)])

section \<open>What success means\<close>

lemma collect_result_None: "collect_result waitRes logsRes = (logs, None) \<Longrightarrow> waitRes = Inr () \<and> logsRes = Inr logs"
  by (auto simp: collect_result_def split: sum.splits if_splits)

lemma waitContainer_ok:
  assumes "waitContainer d cid w = (Inr (), w')"
  obtains ev where "dkWait d cid w = (ev, w')" "ev \<in> {WaitResult 0, WaitError None}"
  using assms that by (auto simp: waitContainer_def split: prod.splits wait_event.splits if_splits option.splits)

lemma run_container_ok:
  assumes "run_container d h cid path w = ((logs, None), w')"
  obtains w1 w2 w3 where "if path = '''' then w1 = w else copyWorkspaceToContainer d h cid path w = (Inr (), w1)"
    "startContainer d cid w1 = (Inr (), w2)" "waitContainer d cid w2 = (Inr (), w3)" "getLogs d cid w3 = (Inr logs, w')"
proof -
  let ?c = "if path \<noteq> '''' then copyWorkspaceToContainer d h cid path w else (Inr (), w)"
  obtain r w1 where c: "?c = (r, w1)" by (meson surj_pair)
  obtain r2 w2 where s: "startContainer d cid w1 = (r2, w2)" by (meson surj_pair)
  obtain r3 w3 where wt: "waitContainer d cid w2 = (r3, w3)" by (meson surj_pair)
  obtain r4 w4 where lg: "getLogs d cid w3 = (r4, w4)" by (meson surj_pair)
  have r: "r = Inr ()" "r2 = Inr ()" "collect_result r3 r4 = (logs, None)" "w4 = w'"
    using assms by (cases r; cases r2; simp add: run_container_def c s wt lg)+
  have "if path = '''' then w1 = w else copyWorkspaceToContainer d h cid path w = (Inr (), w1)"
    using c r(1) by (simp split: if_splits)
  moreover have "r3 = Inr ()" "r4 = Inr logs" using collect_result_None [OF r(3)] by simp_all
  ultimately show ?thesis using that [of w1 w2 w3] s wt lg r by simp
qed

lemma createContainer_ok:
  assumes "createContainer fl d getenv img script ws w = (Inr cid, w1)"
  obtains cfg where "dkCreate d cfg w = (Inr cid, w1)" "ccImage cfg = img" "ccCmd cfg = scriptToCmd script"
  using assms that by (auto simp: createContainer_def fail_def split: sum.splits)

text \<open>C31. A job succeeds only by running: when \<open>ExecuteJob\<close> returns no error, the image was pulled (unless it is
  the default), the workspace was prepared, a container of the image was created with the job's script
  as its command, the workspace (when there is one) was copied into it, it was started, the engine then reported that it
  ended with status 0 or answered the wait with a nil error, and the logs are those read after that, all in this order.\<close>

theorem ExecuteJob_success:
  assumes "ExecuteJob fl (Some d) h getenv (Some j) repoURL commit workspacePath w = ((logs, None), w')"
  shows "\<exists>w0 path cleanup w1 cfg cid w2 w3 w4 ev w5 w6.
      (if jepImage j = '''' then w0 = w else pullImage d (jepImage j) w = (Inr (), w0))
    \<and> materializeWorkspace h getenv repoURL commit workspacePath w0 = (Inr (path, cleanup), w1)
    \<and> dkCreate d cfg w1 = (Inr cid, w2)
    \<and> ccImage cfg = (if jepImage j = '''' then DefaultImage else jepImage j) \<and> ccCmd cfg = scriptToCmd (jepScript j)
    \<and> (if path = '''' then w3 = w2 else copyWorkspaceToContainer d h cid path w2 = (Inr (), w3))
    \<and> dkStart d cid w3 = (Inr (), w4) \<and> dkWait d cid w4 = (ev, w5) \<and> ev \<in> {WaitResult 0, WaitError None}
    \<and> getLogs d cid w5 = (Inr logs, w6)"
proof -
  let ?img = "if jepImage j = '''' then DefaultImage else jepImage j"
  let ?pull = "if jepImage j \<noteq> '''' then pullImage d ?img w else (Inr (), w)"
  obtain r0 w0 where pull: "?pull = (r0, w0)" by (meson surj_pair)
  obtain r1 w1 where mat: "materializeWorkspace h getenv repoURL commit workspacePath w0 = (r1, w1)" by (meson surj_pair)
  from assms pull mat obtain path cleanup w2 where r: "r0 = Inr ()" "r1 = Inr (path, cleanup)"
    and job: "container_job fl d h getenv ?img (jepScript j) path w1 = ((logs, None), w2)"
    by (cases r0; cases r1) (auto simp: ExecuteJob_def Let_def split: prod.splits)
  obtain rc w3 where c: "createContainer fl d getenv ?img (jepScript j) (path \<noteq> '''') w1 = (rc, w3)" by (meson surj_pair)
  from job c obtain cid w4 where rc: "rc = Inr cid" and run: "run_container d h cid path w3 = ((logs, None), w4)"
    by (cases rc) (auto simp: container_job_def split: prod.splits)
  obtain cfg where cfg: "dkCreate d cfg w1 = (Inr cid, w3)" "ccImage cfg = ?img" "ccCmd cfg = scriptToCmd (jepScript j)"
    by (rule createContainer_ok [OF c [unfolded rc]])
  obtain v1 v2 v3 where v: "if path = '''' then v1 = w3 else copyWorkspaceToContainer d h cid path w3 = (Inr (), v1)"
    "startContainer d cid v1 = (Inr (), v2)" "waitContainer d cid v2 = (Inr (), v3)" "getLogs d cid v3 = (Inr logs, w4)"
    by (rule run_container_ok [OF run])
  obtain ev where ev: "dkWait d cid v2 = (ev, v3)" "ev \<in> {WaitResult 0, WaitError None}" by (rule waitContainer_ok [OF v(3)])
  have "if jepImage j = '''' then w0 = w else pullImage d (jepImage j) w = (Inr (), w0)"
    using pull r(1) by (simp split: if_splits)
  moreover have "dkStart d cid v1 = (Inr (), v2)" using v(2) by (simp add: startContainer_def)
  ultimately show ?thesis using mat [unfolded r(2)] cfg v(1,4) ev by blast
qed

section \<open>An engine in memory\<close>

text \<open>A host with documented behaviour: names are fresh, \<open>lwScript\<close> decides which calls fail, and \<open>lwExit\<close> is
  the status containers end with.\<close>

record labworld =
  lwLive :: "resource list"
  lwStuck :: "resource list"
  lwScript :: "bool list"
  lwExit :: int
  lwTree :: fnode

fun resource_name :: "resource \<Rightarrow> string" where
  "resource_name (Container x) = x"
| "resource_name (TempDir x) = x"

definition fresh_name :: "labworld \<Rightarrow> string" where
  "fresh_name w = replicate (Suc (sum_list (map (length \<circ> resource_name) (lwLive w)))) (CHR ''x'')"

definition lab_call :: "(labworld, 'a) op \<Rightarrow> (labworld, 'a) op \<Rightarrow> (labworld, 'a) op" where
  "lab_call good bad w =
     (case lwScript w of
        [] \<Rightarrow> good w
      | ok # rest \<Rightarrow> if ok then good (w\<lparr>lwScript := rest\<rparr>) else bad (w\<lparr>lwScript := rest\<rparr>))"

definition lab_step :: "'a \<Rightarrow> (labworld, 'a) op" where
  "lab_step x = lab_call (ret x) (fail (Errorf ''refused''))"

definition lab_new :: "(string \<Rightarrow> resource) \<Rightarrow> (labworld, string) op" where
  "lab_new mk = lab_call (\<lambda>w. (Inr (fresh_name w), w\<lparr>lwLive := mk (fresh_name w) # lwLive w\<rparr>)) (fail (Errorf ''refused''))"

definition lab_remove :: "resource \<Rightarrow> (labworld, unit) op" where
  "lab_remove x = lab_call (\<lambda>w. (Inr (), w\<lparr>lwLive := filter (\<lambda>y. y \<noteq> x) (lwLive w)\<rparr>))
     (\<lambda>w. (Inl (Errorf ''refused''), w\<lparr>lwStuck := x # lwStuck w\<rparr>))"

definition lab_docker :: "labworld docker" where
  "lab_docker = \<lparr>dkPull = (\<lambda>img. lab_step 0), dkPullWait = (\<lambda>p. lab_step ()), dkPullClose = (\<lambda>p. lab_step ()),
     dkCreate = (\<lambda>cfg. lab_new Container), dkCopy = (\<lambda>cid dest archive. lab_step ()), dkStart = (\<lambda>cid. lab_step ()),
     dkWait = (\<lambda>cid w. (WaitResult (lwExit w), w)), dkLogs = (\<lambda>cid. lab_step 0),
     dkStdCopy = (\<lambda>rc w. ((''out'', '''', None), w)), dkLogsClose = (\<lambda>rc. lab_step ()),
     dkRemove = (\<lambda>cid. lab_remove (Container cid))\<rparr>"

definition lab_host :: "labworld host" where
  "lab_host = \<lparr>hMkdirTemp = (\<lambda>p. lab_new TempDir), hClone = (\<lambda>dir url auth. lab_step 0), hWorktree = (\<lambda>repo. lab_step 0),
     hCheckout = (\<lambda>wt commit. lab_step ()), hRemoveAll = (\<lambda>dir. lab_remove (TempDir dir)),
     hExists = (\<lambda>p w. False), hTree = (\<lambda>p w. lwTree w)\<rparr>"

lemma resource_name_short: "x \<in> set (lwLive w) \<Longrightarrow> length (resource_name x) \<le> sum_list (map (length \<circ> resource_name) (lwLive w))"
  by (rule member_le_sum_list) simp_all

lemma fresh_name_fresh: "mk \<in> {Container, TempDir} \<Longrightarrow> mk (fresh_name w) \<notin> set (lwLive w)"
  using resource_name_short [of "mk (fresh_name w)" w] by (auto simp: fresh_name_def)

lemma fresh_name_script [simp]: "fresh_name (w\<lparr>lwScript := xs\<rparr>) = fresh_name w"
  by (simp add: fresh_name_def)

lemmas lab_defs = lab_docker_def lab_host_def lab_step_def lab_call_def lab_new_def lab_remove_def ret_def fail_def

interpretation lab: job_host lab_docker lab_host "\<lambda>w. set (lwLive w)" lwStuck
  using fresh_name_fresh
  by unfold_locales (auto simp: keeps_def lab_defs split: list.splits if_splits)

section \<open>Concrete runs\<close>

definition unit_floats :: "unit floats" where
  "unit_floats = \<lparr>flParse = (\<lambda>s. Inl (Errorf ''invalid syntax'')), flNotPositive = (\<lambda>_. True), flNanos = (\<lambda>_. 0)\<rparr>"

definition env_memory :: "string \<Rightarrow> string \<Rightarrow> string" where
  "env_memory mb key = (if key = envWorkerJobMemoryLimit then mb else '''')"

definition demo_tree :: fnode where
  "demo_tree = FDir None [(''README'', FLeaf KReg 2 (Inr ''hi'')), (''src'', FDir None [(''main.go'', FLeaf KReg 3 (Inr ''abc''))])]"

definition demo_job :: JobExecutionPlan where
  "demo_job = \<lparr>jepName = ''compile'', jepImage = ''golang'', jepScript = [''go build'', ''go test'']\<rparr>"

definition demo_lab :: labworld where
  "demo_lab = \<lparr>lwLive = [], lwStuck = [], lwScript = [], lwExit = 0, lwTree = demo_tree\<rparr>"

lemma memory_limit_in_bytes_witness:
  "\<exists>r. containerResourcesFromEnv unit_floats (env_memory ''512'') = Inr r \<and> sint (Memory r) = 512 * 2 ^ 20 \<and> hasContainerResourceLimits r"
proof -
  have e: "TrimSpace (env_memory ''512'' envWorkerJobMemoryLimit) = ''512''"
    "TrimSpace (env_memory ''512'' envWorkerJobCPULimit) = ''''" "TrimSpace (env_memory ''512'' envWorkerJobNanoCPUs) = ''''"
    by code_simp+
  have p: "ParseInt64 (TrimSpace (env_memory ''512'' envWorkerJobMemoryLimit)) = Inr 512" unfolding e by (simp add: parse_defs)
  then obtain r where "containerResourcesFromEnv unit_floats (env_memory ''512'') = Inr r"
    using e by (simp add: containerResourcesFromEnv_def nano_cpus_def memory_limit_def)
  with memory_limit_in_bytes [OF this p] show ?thesis by simp
qed

lemma memory_limit_dropped_witness:
  "createContainer unit_floats lab_docker (env_memory ''8796093022208'') ''alpine'' [] False =
    dkCreate lab_docker \<lparr>ccImage = ''alpine'', ccCmd = [''sh'', ''-c'', ''true''], ccAttachStdout = True, ccAttachStderr = True,
      ccWorkingDir = '''', ccResources = None\<rparr>"
proof -
  have "TrimSpace (env_memory ''8796093022208'' envWorkerJobMemoryLimit) = ''8796093022208''" by code_simp
  then have p: "ParseInt64 (TrimSpace (env_memory ''8796093022208'' envWorkerJobMemoryLimit)) = Inr 8796093022208"
    by (simp add: parse_defs)
  have e: "TrimSpace (env_memory ''8796093022208'' envWorkerJobCPULimit) = ''''"
    "TrimSpace (env_memory ''8796093022208'' envWorkerJobNanoCPUs) = ''''" by code_simp+
  show ?thesis
    using memory_limit_dropped [OF p _ _ e, of unit_floats lab_docker "''alpine''" "[]" False] by (simp add: scriptToCmd_def)
qed

lemma archive_is_workspace_witness:
  "buildWorkspaceArchive demo_tree = Inr
     [(\<lparr>hdName = ''workspace/README'', hdType = TypeReg, hdSize = 2\<rparr>, ''hi''),
      (\<lparr>hdName = ''workspace/src'', hdType = TypeDir, hdSize = 0\<rparr>, ''''),
      (\<lparr>hdName = ''workspace/src/main.go'', hdType = TypeReg, hdSize = 3\<rparr>, ''abc'')]"
  unfolding demo_tree_def by (subst archive_is_workspace) (simp_all add: plain_def)

text \<open>The clone is made, the container is created, copying fails, and the removal of the container fails too:
  the container is stuck, and the clone is removed.\<close>

lemma ExecuteJob_cleans_up_witness:
  "\<exists>fs. lwStuck (snd (ExecuteJob unit_floats (Some lab_docker) lab_host (\<lambda>_. '''') (Some demo_job) ''git'' ''abc'' ''''
        (demo_lab\<lparr>lwScript := [True, True, True, True, True, True, True, True, False, False]\<rparr>))) = fs
    \<and> set (lwLive (snd (ExecuteJob unit_floats (Some lab_docker) lab_host (\<lambda>_. '''') (Some demo_job) ''git'' ''abc'' ''''
        (demo_lab\<lparr>lwScript := [True, True, True, True, True, True, True, True, False, False]\<rparr>)))) = set fs
    \<and> length fs = 1"
proof -
  let ?w = "demo_lab\<lparr>lwScript := [True, True, True, True, True, True, True, True, False, False]\<rparr>"
  let ?e = "ExecuteJob unit_floats (Some lab_docker) lab_host (\<lambda>_. '''') (Some demo_job) ''git'' ''abc'' '''' ?w"
  have "length (lwStuck (snd ?e)) = 1" by code_simp
  moreover obtain out w' where e: "?e = (out, w')" by (meson surj_pair)
  ultimately show ?thesis
    using ExecuteJob_cleans_up [OF lab.job_host_axioms e] by (simp add: demo_lab_def)
qed

lemma ExecuteJob_success_witness:
  "\<exists>cfg cid w1 w2. dkCreate lab_docker cfg w1 = (Inr cid, w2) \<and> ccImage cfg = ''golang''
     \<and> ccCmd cfg = [''sh'', ''-c'', ''go build && go test'']"
proof -
  let ?e = "ExecuteJob unit_floats (Some lab_docker) lab_host (\<lambda>_. '''') (Some demo_job) ''git'' ''abc'' '''' demo_lab"
  have "fst ?e = (''out'', None)" by code_simp
  then obtain w' where e: "?e = ((''out'', None), w')" by (metis prod.collapse)
  have "scriptToCmd (jepScript demo_job) = [''sh'', ''-c'', ''go build && go test'']" "jepImage demo_job = ''golang''" by code_simp+
  then show ?thesis using ExecuteJob_success [OF e] by auto
qed

end
