(* ===== verification/Worker.thy ===== *)
theory Worker
  imports Execute Mq Http Store
begin

text \<open>
  \<open>internal/services/worker\<close>: the service around \<open>ExecuteJob\<close>. Modelled are its dependencies (Docker
  client, broker connection and consumers) with the retry loop that sets them up, the handling of one
  job message, the callbacks to the orchestrator with their retry loop, the group of concurrent
  consumers as a step relation, \<open>Start\<close>, \<open>Close\<close> and the HTTP endpoints. Shown: a message counts as
  handled only after the orchestrator accepted the result, when the retry loops return and with what,
  and that no consumer is left running.
\<close>

section \<open>The service\<close>

definition seconds :: "int \<Rightarrow> int" where "seconds n = n * 1000000000"

definition defaultJobTimeout :: int where "defaultJobTimeout = seconds 600"
definition defaultFinishedCallbackRetryDelay :: int where "defaultFinishedCallbackRetryDelay = seconds 1"
definition maxFinishedCallbackRetryDelay :: int where "maxFinishedCallbackRetryDelay = seconds 30"
definition finishedCallbackRetryDelay :: int where "finishedCallbackRetryDelay = defaultFinishedCallbackRetryDelay"
definition defaultWorkerConcurrent :: int where "defaultWorkerConcurrent = 1"
definition dependencyRetryDelay :: int where "dependencyRetryDelay = seconds 2"

text \<open>A job consumer is its client with its queue; the Docker client is a handle, and its calls are those of
  the engine.\<close>

type_synonym JobConsumer = "RabbitClient \<times> string"

record workerService =
  wkDocker :: "nat option"
  wkJobTimeout :: int
  wkConsumers :: "JobConsumer list"
  wkMqConn :: "nat option"
  wkOrchestratorURL :: string
  wkHttpClient :: bool
  wkMqConfig :: mqConfig

text \<open>The world of a worker: making, pinging and closing a Docker client, building a request, sending it
  (the answer is its status and what reading its body gives), the error of the context, and the
  \<open>select\<close> over the context and a timer.\<close>

record 'w outside =
  ouDockerNew :: "('w, nat) op"
  ouDockerPing :: "nat \<Rightarrow> ('w, unit) op"
  ouDockerClose :: "nat \<Rightarrow> ('w, unit) op"
  ouNewRequest :: "string \<Rightarrow> goerr option"
  ouPost :: "string \<Rightarrow> string \<Rightarrow> ('w, int \<times> (goerr + string)) op"
  ouCtxErr :: "'w \<Rightarrow> goerr option"
  ouSleep :: "int \<Rightarrow> ('w, unit) op"

definition NewService :: "(string \<Rightarrow> string) \<Rightarrow> int \<Rightarrow> workerService" where
  "NewService getenv jobTimeout =
     \<lparr>wkDocker = None, wkJobTimeout = (if jobTimeout = 0 then defaultJobTimeout else jobTimeout), wkConsumers = [],
      wkMqConn = None, wkOrchestratorURL = GetEnvOrDefaultURL getenv ''ORCHESTRATOR_URL'' DefaultOrchestratorURL,
      wkHttpClient = True, wkMqConfig = mq_LoadConfig getenv\<rparr>"

definition NewDockerClient :: "'w outside \<Rightarrow> ('w, nat) op" where
  "NewDockerClient ou w =
     (case ouDockerNew ou w of
        (Inl e, w1) \<Rightarrow> (Inl e, w1)
      | (Inr cli, w1) \<Rightarrow>
          (case ouDockerPing ou cli w1 of
             (Inl e, w2) \<Rightarrow> (Inl e, snd (ouDockerClose ou cli w2))
           | (Inr _, w2) \<Rightarrow> (Inr cli, w2)))"

definition PingDocker :: "'w outside \<Rightarrow> nat option \<Rightarrow> ('w, unit) op" where
  "PingDocker ou cli =
     (case cli of None \<Rightarrow> fail (Errorf ''docker client not available'') | Some c \<Rightarrow> ouDockerPing ou c)"

definition close_consumer :: "'w amqp \<Rightarrow> JobConsumer \<Rightarrow> 'w \<Rightarrow> 'w" where
  "close_consumer am c w = snd (snd (RabbitClient_Close am (fst c, w)))"

definition close_consumers :: "'w amqp \<Rightarrow> JobConsumer list \<Rightarrow> 'w \<Rightarrow> 'w" where
  "close_consumers am cs w = fold (close_consumer am) cs w"

definition close_conn :: "'w amqp \<Rightarrow> nat option \<Rightarrow> 'w \<Rightarrow> 'w" where
  "close_conn am conn w = (case conn of None \<Rightarrow> w | Some c \<Rightarrow> snd (amConnClose am c w))"

definition Service_Close :: "'w outside \<Rightarrow> 'w amqp \<Rightarrow> workerService \<times> 'w \<Rightarrow> workerService \<times> 'w" where
  "Service_Close ou am sw =
     (let (s, w) = sw; w1 = close_conn am (wkMqConn s) (close_consumers am (wkConsumers s) w)
      in (s\<lparr>wkConsumers := [], wkMqConn := None, wkDocker := None\<rparr>,
          case wkDocker s of None \<Rightarrow> w1 | Some c \<Rightarrow> snd (ouDockerClose ou c w1)))"

definition Service_Ready :: "'w outside \<Rightarrow> 'w amqp \<Rightarrow> workerService \<Rightarrow> ('w, unit) op" where
  "Service_Ready ou am s =
     andthen (wrap_err (wrapf ''docker not ready: '') (PingDocker ou (wkDocker s))) (\<lambda>_.
     wrap_err (wrapf ''rabbitmq not ready: '') (PingMQ am (wkMqConfig s)))"

section \<open>Callbacks\<close>

definition doJobCallbackRequest ::
  "'w outside \<Rightarrow> (JobStatusCallbackRequest \<Rightarrow> goerr + string) \<Rightarrow> workerService \<Rightarrow> string \<Rightarrow> JobStatusCallbackRequest \<Rightarrow>
     ('w, string) op" where
  "doJobCallbackRequest ou marshal s path payload w =
     (if \<not> wkHttpClient s then (Inl (Errorf ''http client is not initialized''), w)
      else
        (case marshal payload of
           Inl e \<Rightarrow> (Inl (wrapf ''marshal callback payload: '' e), w)
         | Inr body \<Rightarrow>
             (let url = wkOrchestratorURL s @ path in
              case ouNewRequest ou url of
                Some e \<Rightarrow> (Inl (wrapf ''create callback request: '' e), w)
              | None \<Rightarrow>
                  (case ouPost ou url body w of
                     (Inl e, w1) \<Rightarrow> (Inl (wrapf ''send callback request: '' e), w1)
                   | (Inr (status, respBody), w1) \<Rightarrow>
                       (case respBody of
                          Inl e \<Rightarrow> (Inl (wrapf ''read callback response: '' e), w1)
                        | Inr b \<Rightarrow>
                            if status \<noteq> 200 then (Inl (Errorf (''callback returned status '' @ Itoa status)), w1)
                            else (Inr b, w1))))))"

definition postJobCallback ::
  "'w outside \<Rightarrow> (JobStatusCallbackRequest \<Rightarrow> goerr + string) \<Rightarrow> workerService \<Rightarrow> string \<Rightarrow> JobStatusCallbackRequest \<Rightarrow>
     ('w, unit) op" where
  "postJobCallback ou marshal s path payload = andthen (doJobCallbackRequest ou marshal s path payload) (\<lambda>_. ret ())"

definition callbackJobStarted ::
  "'w outside \<Rightarrow> (JobStatusCallbackRequest \<Rightarrow> goerr + string) \<Rightarrow> workerService \<Rightarrow> JobExecutionMessage \<Rightarrow> ('w, unit) op" where
  "callbackJobStarted ou marshal s msg =
     postJobCallback ou marshal s ''/callbacks/job-started''
       \<lparr>cbPipeline = jmPipelineName msg, cbRunNo = jmRunNo msg, cbStage = jmStage msg, cbJob = jepName (jmJob msg),
        cbStatus = ''started'', cbLogs = '''', cbError = ''''\<rparr>"

definition finished_payload :: "JobExecutionMessage \<Rightarrow> string \<Rightarrow> string \<Rightarrow> string \<Rightarrow> JobStatusCallbackRequest" where
  "finished_payload msg status logs errMsg =
     \<lparr>cbPipeline = jmPipelineName msg, cbRunNo = jmRunNo msg, cbStage = jmStage msg, cbJob = jepName (jmJob msg),
      cbStatus = status, cbLogs = logs, cbError = errMsg\<rparr>"

definition callbackJobFinished ::
  "'w outside \<Rightarrow> (JobStatusCallbackRequest \<Rightarrow> goerr + string) \<Rightarrow> workerService \<Rightarrow> JobExecutionMessage \<Rightarrow>
     string \<Rightarrow> string \<Rightarrow> string \<Rightarrow> ('w, unit) op" where
  "callbackJobFinished ou marshal s msg status logs errMsg =
     postJobCallback ou marshal s ''/callbacks/job-finished'' (finished_payload msg status logs errMsg)"

definition waitForRetry :: "'w outside \<Rightarrow> int \<Rightarrow> ('w, unit) op" where
  "waitForRetry ou delay = ouSleep ou delay"

definition next_delay :: "int \<Rightarrow> int" where
  "next_delay retryDelay =
     (if retryDelay < maxFinishedCallbackRetryDelay then
        (let d = retryDelay * 2 in
         if maxFinishedCallbackRetryDelay < d then maxFinishedCallbackRetryDelay else d)
      else retryDelay)"

text \<open>The loop of \<open>reportJobFinishedUntilSuccess\<close> over one callback \<open>cb\<close>.\<close>

partial_function (option) report_loop ::
  "'w outside \<Rightarrow> ('w, unit) op \<Rightarrow> int \<Rightarrow> 'w \<Rightarrow> ((goerr + unit) \<times> 'w) option" where
  "report_loop ou cb retryDelay w =
     (case cb w of
        (Inr _, w1) \<Rightarrow> Some (Inr (), w1)
      | (Inl e, w1) \<Rightarrow>
          (case waitForRetry ou retryDelay w1 of
             (Inl _, w2) \<Rightarrow> Some (Inl (wrapf ''retry callback job finished: '' e), w2)
           | (Inr _, w2) \<Rightarrow> report_loop ou cb (next_delay retryDelay) w2))"

declare report_loop.simps [code]

definition start_delay :: int where
  "start_delay = (if finishedCallbackRetryDelay \<le> 0 then defaultFinishedCallbackRetryDelay else finishedCallbackRetryDelay)"

definition reportJobFinishedUntilSuccess ::
  "'w outside \<Rightarrow> (JobStatusCallbackRequest \<Rightarrow> goerr + string) \<Rightarrow> workerService \<Rightarrow> JobExecutionMessage \<Rightarrow>
     string \<Rightarrow> string \<Rightarrow> string \<Rightarrow> 'w \<Rightarrow> ((goerr + unit) \<times> 'w) option" where
  "reportJobFinishedUntilSuccess ou marshal s msg status logs errMsg =
     report_loop ou (callbackJobFinished ou marshal s msg status logs errMsg) start_delay"

section \<open>One job message\<close>

definition wrap_result :: "string \<Rightarrow> ((goerr + unit) \<times> 'w) option \<Rightarrow> ((goerr + unit) \<times> 'w) option" where
  "wrap_result m r = map_option (\<lambda>(u, w). (map_sum (wrapf m) id u, w)) r"

definition handleJobMessage ::
  "'w outside \<Rightarrow> 'f floats \<Rightarrow> 'w docker \<Rightarrow> 'w host \<Rightarrow> (string \<Rightarrow> string) \<Rightarrow> (JobStatusCallbackRequest \<Rightarrow> goerr + string) \<Rightarrow>
     workerService \<Rightarrow> JobExecutionMessage \<Rightarrow> 'w \<Rightarrow> ((goerr + unit) \<times> 'w) option" where
  "handleJobMessage ou fl d h getenv marshal s msg w =
     (case callbackJobStarted ou marshal s msg w of
        (Inl e, w1) \<Rightarrow> Some (Inl (wrapf ''callback job started: '' e), w1)
      | (Inr _, w1) \<Rightarrow>
          if wkDocker s = None then Some (Inl (Errorf ''docker client not available''), w1)
          else
            (case ExecuteJob fl (Some d) h getenv (Some (jmJob msg)) (jmRepoURL msg) (jmCommit msg) (jmWorkspacePath msg) w1 of
               ((logs, execErr), w2) \<Rightarrow>
                 (case execErr of
                    Some e \<Rightarrow>
                      wrap_result ''callback job finished (failed): ''
                        (reportJobFinishedUntilSuccess ou marshal s msg StatusFailed '''' (Error e) w2)
                  | None \<Rightarrow>
                      wrap_result ''callback job finished: ''
                        (reportJobFinishedUntilSuccess ou marshal s msg StatusSuccess logs '''' w2))))"

section \<open>Dependencies\<close>

definition newJobConsumer :: "'w amqp \<Rightarrow> mqConfig \<Rightarrow> nat \<Rightarrow> ('w, JobConsumer) op" where
  "newJobConsumer am cfg conn w =
     (case NewRabbitClientWithConn am cfg (Some conn) w of
        (Inl e, w1) \<Rightarrow> (Inl e, w1)
      | (Inr client, w1) \<Rightarrow>
          (case NewJobConsumer (Some client) cfg of
             Inl e \<Rightarrow> (Inl e, snd (snd (RabbitClient_Close am (client, w1))))
           | Inr c \<Rightarrow> (Inr c, w1)))"

definition loadWorkerConcurrency :: "(string \<Rightarrow> string) \<Rightarrow> int" where
  "loadWorkerConcurrency getenv =
     (let raw = TrimSpace (getenv ''WORKER_CONCURRENCY'') in
      if raw = '''' then defaultWorkerConcurrent
      else
        (case Atoi raw of
           Inl _ \<Rightarrow> defaultWorkerConcurrent
         | Inr v \<Rightarrow> if v < 1 then defaultWorkerConcurrent else v))"

text \<open>The loop of \<open>createJobConsumers\<close>, with \<open>k\<close> of the \<open>n\<close> consumers still to be made.\<close>

primrec create_consumers ::
  "'w amqp \<Rightarrow> mqConfig \<Rightarrow> nat \<Rightarrow> nat \<Rightarrow> nat \<Rightarrow> JobConsumer list \<Rightarrow> ('w, JobConsumer list) op" where
  "create_consumers am cfg conn n 0 consumers w = (Inr consumers, w)"
| "create_consumers am cfg conn n (Suc k) consumers w =
     (case newJobConsumer am cfg conn w of
        (Inl e, w1) \<Rightarrow>
          (Inl (wrapf (''initialize worker '' @ decimal (n - k) @ ''/'' @ decimal n @ '': '') e),
           close_consumers am consumers w1)
      | (Inr c, w1) \<Rightarrow> create_consumers am cfg conn n k (consumers @ [c]) w1)"

definition createJobConsumers :: "'w amqp \<Rightarrow> (string \<Rightarrow> string) \<Rightarrow> mqConfig \<Rightarrow> nat \<Rightarrow> ('w, JobConsumer list) op" where
  "createJobConsumers am getenv cfg conn =
     (let consumerNumber = loadWorkerConcurrency getenv in
      if consumerNumber < 1 then fail (Errorf ''worker concurrency must be >= 1'')
      else create_consumers am cfg conn (nat consumerNumber) (nat consumerNumber) [])"

text \<open>Where a round of \<open>ensureDependencies\<close> goes: it returns, starts the next round, or goes on.\<close>

datatype flow = Return "goerr option" | Continue | GoOn

definition retry_later :: "'w outside \<Rightarrow> workerService \<times> 'w \<Rightarrow> flow \<times> workerService \<times> 'w" where
  "retry_later ou sw =
     (case waitForRetry ou dependencyRetryDelay (snd sw) of
        (Inl e, w1) \<Rightarrow> (Return (Some e), fst sw, w1)
      | (Inr _, w1) \<Rightarrow> (Continue, fst sw, w1))"

definition ensure_docker :: "'w outside \<Rightarrow> workerService \<times> 'w \<Rightarrow> flow \<times> workerService \<times> 'w" where
  "ensure_docker ou sw =
     (if wkDocker (fst sw) \<noteq> None then (GoOn, sw)
      else
        (case NewDockerClient ou (snd sw) of
           (Inl _, w1) \<Rightarrow> retry_later ou (fst sw, w1)
         | (Inr cli, w1) \<Rightarrow> (GoOn, (fst sw)\<lparr>wkDocker := Some cli\<rparr>, w1)))"

definition ensure_consumers ::
  "'w outside \<Rightarrow> 'w amqp \<Rightarrow> (string \<Rightarrow> string) \<Rightarrow> workerService \<times> 'w \<Rightarrow> flow \<times> workerService \<times> 'w" where
  "ensure_consumers ou am getenv sw =
     (if wkConsumers (fst sw) \<noteq> [] then (GoOn, sw)
      else
        (let s = (fst sw)\<lparr>wkMqConn := None\<rparr>; w0 = close_conn am (wkMqConn (fst sw)) (snd sw) in
         case amDial am (mqURL (wkMqConfig s)) w0 of
           (Inl _, w1) \<Rightarrow> retry_later ou (s, w1)
         | (Inr conn, w1) \<Rightarrow>
             (case createJobConsumers am getenv (wkMqConfig s) conn w1 of
                (Inl e, w2) \<Rightarrow>
                  (let w3 = snd (amConnClose am conn w2) in
                   if errors_Is e ErrFatal then (Return (Some e), s, w3) else retry_later ou (s, w3))
              | (Inr consumers, w2) \<Rightarrow> (GoOn, s\<lparr>wkMqConn := Some conn, wkConsumers := consumers\<rparr>, w2))))"

definition ensure_round ::
  "'w outside \<Rightarrow> 'w amqp \<Rightarrow> (string \<Rightarrow> string) \<Rightarrow> workerService \<times> 'w \<Rightarrow> flow \<times> workerService \<times> 'w" where
  "ensure_round ou am getenv sw =
     (case ouCtxErr ou (snd sw) of
        Some e \<Rightarrow> (Return (Some e), sw)
      | None \<Rightarrow>
          (case ensure_docker ou sw of
             (GoOn, sw1) \<Rightarrow>
               (case ensure_consumers ou am getenv sw1 of
                  (GoOn, sw2) \<Rightarrow>
                    (if wkDocker (fst sw2) \<noteq> None \<and> wkConsumers (fst sw2) \<noteq> [] then Return None else Continue, sw2)
                | r \<Rightarrow> r)
           | r \<Rightarrow> r))"

partial_function (option) ensure_loop ::
  "'w outside \<Rightarrow> 'w amqp \<Rightarrow> (string \<Rightarrow> string) \<Rightarrow> workerService \<times> 'w \<Rightarrow> (goerr option \<times> workerService \<times> 'w) option" where
  "ensure_loop ou am getenv sw =
     (case ensure_round ou am getenv sw of
        (Return e, sw1) \<Rightarrow> Some (e, sw1)
      | (Continue, sw1) \<Rightarrow> ensure_loop ou am getenv sw1
      | (GoOn, sw1) \<Rightarrow> ensure_loop ou am getenv sw1)"

declare ensure_loop.simps [code]

definition ensureDependencies ::
  "'w outside \<Rightarrow> 'w amqp \<Rightarrow> (string \<Rightarrow> string) \<Rightarrow> workerService \<times> 'w \<Rightarrow> (goerr option \<times> workerService \<times> 'w) option" where
  "ensureDependencies ou am getenv sw =
     (case mqConfig_Validate (wkMqConfig (fst sw)) of
        Some e \<Rightarrow> Some (Some \<lparr>Error = ''rabbit fatal error: '' @ Error e, chain = [ErrFatal]\<rparr>, sw)
      | None \<Rightarrow> ensure_loop ou am getenv sw)"

section \<open>The group of consumers\<close>

text \<open>
  \<open>consumeWorkers\<close> as a step relation. A consumer ends with the error of \<open>ConsumeJob\<close> (which never returns
  nil) and sends it unless the consumers' context is done; the caller selects over the error channel,
  its context and \<open>done\<close>, which is closed when all consumers have ended. With several cases ready the
  choice is free. After an error or the end of the context it cancels the consumers and waits.
\<close>

datatype group_phase = Selecting | Awaiting "goerr option" | Returned "goerr option"

record group =
  gRunning :: "nat set"
  gErrs :: "goerr list"
  gCtx :: "goerr option"
  gCancelled :: bool
  gPhase :: group_phase

definition consumer_failed :: "nat \<Rightarrow> goerr \<Rightarrow> goerr" where
  "consumer_failed i e = wrapf (''job consumer '' @ decimal (i + 1) @ '' failed: '') e"

definition consumer_exit :: "nat \<Rightarrow> goerr \<Rightarrow> group \<Rightarrow> group" where
  "consumer_exit i e g =
     g\<lparr>gRunning := gRunning g - {i},
       gErrs := (if gCancelled g \<or> gCtx g \<noteq> None then gErrs g else gErrs g @ [consumer_failed i e])\<rparr>"

definition start_group :: "nat \<Rightarrow> group" where
  "start_group n = \<lparr>gRunning = {0..<n}, gErrs = [], gCtx = None, gCancelled = False, gPhase = Selecting\<rparr>"

text \<open>The end of a consumer is one step: its test of the context, its send and its \<open>wg.Done\<close> (the channel has room for
  every consumer, so the send does not wait).\<close>

inductive group_step :: "group \<Rightarrow> group \<Rightarrow> bool" where
  exits: "i \<in> gRunning g \<Longrightarrow> group_step g (consumer_exit i e g)"
| ctx_done: "gCtx g = None \<Longrightarrow> group_step g (g\<lparr>gCtx := Some e\<rparr>)"
| select_err: "gPhase g = Selecting \<Longrightarrow> gErrs g = e # es \<Longrightarrow>
    group_step g (g\<lparr>gErrs := es, gCancelled := True, gPhase := Awaiting (Some e)\<rparr>)"
| select_ctx: "gPhase g = Selecting \<Longrightarrow> gCtx g = Some e \<Longrightarrow>
    group_step g (g\<lparr>gCancelled := True, gPhase := Awaiting (Some e)\<rparr>)"
| select_done: "gPhase g = Selecting \<Longrightarrow> gRunning g = {} \<Longrightarrow>
    group_step g (g\<lparr>gCancelled := True, gPhase := Returned None\<rparr>)"
| awaited: "gPhase g = Awaiting r \<Longrightarrow> gRunning g = {} \<Longrightarrow> group_step g (g\<lparr>gPhase := Returned r\<rparr>)"

inductive_cases group_stepE: "group_step g g'"

inductive group_reachable :: "nat \<Rightarrow> group \<Rightarrow> bool" for n where
  start: "group_reachable n (start_group n)"
| step: "group_reachable n g \<Longrightarrow> group_step g g' \<Longrightarrow> group_reachable n g'"

definition group_result :: "nat \<Rightarrow> goerr option \<Rightarrow> bool" where
  "group_result n r \<longleftrightarrow> (\<exists>g. group_reachable n g \<and> gPhase g = Returned r)"

section \<open>Running the worker\<close>

text \<open>\<open>consume\<close> is one execution of \<open>consumeWorkers\<close> on the consumers of the service.\<close>

definition consumeJobs ::
  "(JobConsumer list \<Rightarrow> 'w \<Rightarrow> goerr option \<times> 'w) \<Rightarrow> workerService \<times> 'w \<Rightarrow> goerr option \<times> 'w" where
  "consumeJobs consume sw =
     (if wkDocker (fst sw) = None then (Some (Errorf ''docker client not available''), snd sw)
      else if wkConsumers (fst sw) = [] then (Some (Errorf ''job consumer not available''), snd sw)
      else consume (wkConsumers (fst sw)) (snd sw))"

partial_function (option) start_loop ::
  "'w outside \<Rightarrow> 'w amqp \<Rightarrow> (string \<Rightarrow> string) \<Rightarrow> (JobConsumer list \<Rightarrow> 'w \<Rightarrow> goerr option \<times> 'w) \<Rightarrow>
     workerService \<times> 'w \<Rightarrow> (goerr option \<times> workerService \<times> 'w) option" where
  "start_loop ou am getenv consume sw =
     (case consumeJobs consume sw of
        (err, w1) \<Rightarrow>
          if err = None \<or> ouCtxErr ou w1 \<noteq> None then Some (err, fst sw, w1)
          else if errors_Is (the err) ErrConnectionClosed then
            (case ensureDependencies ou am getenv (Service_Close ou am (fst sw, w1)) of
               None \<Rightarrow> None
             | Some (Some e, sw2) \<Rightarrow> Some (Some e, sw2)
             | Some (None, sw2) \<Rightarrow> start_loop ou am getenv consume sw2)
          else Some (err, fst sw, w1))"

declare start_loop.simps [code]

definition Service_Start ::
  "'w outside \<Rightarrow> 'w amqp \<Rightarrow> (string \<Rightarrow> string) \<Rightarrow> (JobConsumer list \<Rightarrow> 'w \<Rightarrow> goerr option \<times> 'w) \<Rightarrow>
     workerService \<times> 'w \<Rightarrow> (goerr option \<times> workerService \<times> 'w) option" where
  "Service_Start ou am getenv consume sw =
     (case ensureDependencies ou am getenv sw of
        None \<Rightarrow> None
      | Some (Some e, sw1) \<Rightarrow> Some (Some e, sw1)
      | Some (None, sw1) \<Rightarrow> start_loop ou am getenv consume sw1)"

section \<open>Endpoints\<close>

definition worker_handleHealth :: "encoder \<Rightarrow> http_request \<Rightarrow> http_response" where
  "worker_handleHealth enc r =
     (if hrMethod r \<noteq> ''GET'' then method_not_allowed enc else WriteJSON enc 200 (AnyStatus \<lparr>stStatus = ''healthy''\<rparr>))"

definition worker_handleReady ::
  "encoder \<Rightarrow> 'w outside \<Rightarrow> 'w amqp \<Rightarrow> workerService \<Rightarrow> http_request \<Rightarrow> 'w \<Rightarrow> http_response \<times> 'w" where
  "worker_handleReady enc ou am s r w =
     (if hrMethod r \<noteq> ''GET'' then (method_not_allowed enc, w)
      else
        (case Service_Ready ou am s w of
           (Inl e, w1) \<Rightarrow> (WriteJSONError enc 503 (''worker service not ready: '' @ Error e), w1)
         | (Inr _, w1) \<Rightarrow> (WriteJSON enc 200 (AnyStatus \<lparr>stStatus = ''ready''\<rparr>), w1)))"

definition serve_worker ::
  "encoder \<Rightarrow> 'w outside \<Rightarrow> 'w amqp \<Rightarrow> workerService \<Rightarrow> http_request \<Rightarrow> 'w \<Rightarrow> http_response \<times> 'w" where
  "serve_worker enc ou am s r w =
     (if hrPath r = ''/health'' then (worker_handleHealth enc r, w)
      else if hrPath r = ''/ready'' then worker_handleReady enc ou am s r w
      else (http_Error ''404 page not found'' 404, w))"

section \<open>Reporting the result of a job\<close>

lemma postJobCallback_ok:
  assumes "postJobCallback ou marshal s path payload w = (Inr (), w')"
  obtains body resp where "marshal payload = Inr body" "ouPost ou (wkOrchestratorURL s @ path) body w = (Inr (200, Inr resp), w')"
  using assms
  by (auto simp: postJobCallback_def andthen_def ret_def doJobCallbackRequest_def Let_def
      split: if_splits sum.splits option.splits prod.splits)

lemmas report_loop_induct = report_loop.raw_induct [rotated, consumes 1, case_names loop]

text \<open>The world after \<open>n\<close> failed attempts and the waits between them.\<close>

fun after_rounds :: "'w outside \<Rightarrow> ('w, unit) op \<Rightarrow> nat \<Rightarrow> int \<Rightarrow> 'w \<Rightarrow> 'w" where
  "after_rounds ou cb 0 delay w = w"
| "after_rounds ou cb (Suc n) delay w = after_rounds ou cb n (next_delay delay) (snd (waitForRetry ou delay (snd (cb w))))"

lemma report_loop_ok:
  "report_loop ou cb delay w = Some u \<Longrightarrow> fst u = Inr () \<Longrightarrow> \<exists>n. cb (after_rounds ou cb n delay w) = u"
proof (induction ou cb delay w u rule: report_loop_induct)
  case (loop f ou cb delay w u)
  obtain r w1 where c: "cb w = (r, w1)" by (meson surj_pair)
  obtain v w2 where s: "waitForRetry ou delay w1 = (v, w2)" by (meson surj_pair)
  show ?case
  proof (cases "isl r \<and> \<not> isl v")
    case True
    with loop(2) c s have "f ou cb (next_delay delay) w2 = Some u" by (cases r; cases v) auto
    with loop(1,3) obtain n where "cb (after_rounds ou cb n (next_delay delay) w2) = u" by blast
    then show ?thesis using c s by (intro exI [of _ "Suc n"]) simp
  next
    case False
    with loop(2,3) c s have "cb w = u" by (cases r; cases v) auto
    then show ?thesis by (intro exI [of _ 0]) simp
  qed
qed

lemma wrap_result_ok: "wrap_result m r = Some (Inr (), w) \<longleftrightarrow> r = Some (Inr (), w)"
proof -
  have "map_sum (wrapf m) id u = Inr () \<longleftrightarrow> u = Inr ()" for u :: "goerr + unit" by (cases u) simp_all
  then show ?thesis by (cases r) (auto simp: wrap_result_def)
qed

lemma handleJobMessage_ok:
  assumes "handleJobMessage ou fl d h getenv marshal s msg w = Some (Inr (), w')"
  shows "\<exists>logs execErr w1 w2. callbackJobStarted ou marshal s msg w = (Inr (), w1)
    \<and> ExecuteJob fl (Some d) h getenv (Some (jmJob msg)) (jmRepoURL msg) (jmCommit msg) (jmWorkspacePath msg) w1 = ((logs, execErr), w2)
    \<and> (let payload = (case execErr of None \<Rightarrow> finished_payload msg StatusSuccess logs ''''
           | Some e \<Rightarrow> finished_payload msg StatusFailed '''' (Error e));
           cb = postJobCallback ou marshal s ''/callbacks/job-finished'' payload
       in \<exists>n body resp. marshal payload = Inr body
         \<and> ouPost ou (wkOrchestratorURL s @ ''/callbacks/job-finished'') body (after_rounds ou cb n start_delay w2) = (Inr (200, Inr resp), w'))"
proof -
  obtain r w1 where st: "callbackJobStarted ou marshal s msg w = (r, w1)" by (meson surj_pair)
  obtain logs execErr w2 where
    ex: "ExecuteJob fl (Some d) h getenv (Some (jmJob msg)) (jmRepoURL msg) (jmCommit msg) (jmWorkspacePath msg) w1 = ((logs, execErr), w2)"
    by (metis prod.exhaust)
  let ?p = "case execErr of None \<Rightarrow> finished_payload msg StatusSuccess logs ''''
      | Some e \<Rightarrow> finished_payload msg StatusFailed '''' (Error e)"
  let ?cb = "postJobCallback ou marshal s ''/callbacks/job-finished'' ?p"
  have r: "r = Inr ()" using assms st by (cases r) (auto simp: handleJobMessage_def)
  have "report_loop ou ?cb start_delay w2 = Some (Inr (), w')"
    using assms st ex r
    by (cases execErr)
      (auto simp: handleJobMessage_def wrap_result_ok reportJobFinishedUntilSuccess_def callbackJobFinished_def split: if_splits)
  then obtain n where "?cb (after_rounds ou ?cb n start_delay w2) = (Inr (), w')"
    using report_loop_ok [of ou ?cb start_delay w2 "(Inr (), w')"] by auto
  then obtain body resp where "marshal ?p = Inr body"
    "ouPost ou (wkOrchestratorURL s @ ''/callbacks/job-finished'') body (after_rounds ou ?cb n start_delay w2) = (Inr (200, Inr resp), w')"
    by (rule postJobCallback_ok)
  then show ?thesis unfolding Let_def using st ex r by blast
qed

text \<open>A message counts as handled only after its result was accepted: when \<open>handleJobMessage\<close> returns no
  error (and the message is acknowledged), the start of the job was accepted by the orchestrator, the
  job was then executed once, and after a number of refused attempts the orchestrator answered 200 to a
  \<open>job-finished\<close> callback that carries the outcome of this execution.\<close>

theorem handled_only_when_reported:
  assumes "handleJobMessage ou fl d h getenv marshal s msg w = Some (Inr (), w')"
  shows "\<exists>logs execErr w1 w2. callbackJobStarted ou marshal s msg w = (Inr (), w1)
    \<and> ExecuteJob fl (Some d) h getenv (Some (jmJob msg)) (jmRepoURL msg) (jmCommit msg) (jmWorkspacePath msg) w1 = ((logs, execErr), w2)
    \<and> (let payload = (case execErr of None \<Rightarrow> finished_payload msg StatusSuccess logs ''''
           | Some e \<Rightarrow> finished_payload msg StatusFailed '''' (Error e));
           cb = postJobCallback ou marshal s ''/callbacks/job-finished'' payload
       in \<exists>n body resp. marshal payload = Inr body
         \<and> ouPost ou (wkOrchestratorURL s @ ''/callbacks/job-finished'') body (after_rounds ou cb n start_delay w2) = (Inr (200, Inr resp), w'))"
  using assms by (rule handleJobMessage_ok)

definition stops_at :: "'w outside \<Rightarrow> ('w, unit) op \<Rightarrow> int \<Rightarrow> 'w \<Rightarrow> bool" where
  "stops_at ou cb delay w \<longleftrightarrow> \<not> isl (fst (cb w)) \<or> isl (fst (waitForRetry ou delay (snd (cb w))))"

lemma next_delay_power: "(next_delay ^^ n) (seconds 1) = min (seconds 30) (seconds (2 ^ n))"
proof (induction n)
  case (Suc n)
  have p: "(0::int) < 2 ^ n" by simp
  have "(next_delay ^^ Suc n) (seconds 1) = next_delay (min (seconds 30) (seconds (2 ^ n)))" using Suc by simp
  also have "\<dots> = min (seconds 30) (seconds (2 ^ Suc n))"
    by (auto simp: next_delay_def maxFinishedCallbackRetryDelay_def seconds_def Let_def min_def)
  finally show ?case .
qed (simp add: seconds_def)

lemma report_loop_stops:
  "stops_at ou cb ((next_delay ^^ n) delay) (after_rounds ou cb n delay w) \<Longrightarrow> \<exists>r. report_loop ou cb delay w = Some r"
proof (induction n arbitrary: delay w)
  case 0
  then show ?case
    by (subst report_loop.simps) (auto simp: stops_at_def isl_def split: prod.splits sum.splits)
next
  case (Suc n)
  then have IH: "\<exists>r. report_loop ou cb (next_delay delay) (snd (waitForRetry ou delay (snd (cb w)))) = Some r"
    by (simp add: funpow_swap1)
  then show ?case
    by (subst report_loop.simps) (auto split: prod.splits sum.splits)
qed

lemma report_loop_stopped: "report_loop ou cb delay w = Some r \<Longrightarrow> \<exists>n. stops_at ou cb ((next_delay ^^ n) delay) (after_rounds ou cb n delay w)"
proof (induction ou cb delay w r rule: report_loop_induct)
  case (loop f ou cb delay w r)
  obtain u w1 where c: "cb w = (u, w1)" by (meson surj_pair)
  obtain v w2 where s: "waitForRetry ou delay w1 = (v, w2)" by (meson surj_pair)
  show ?case
  proof (cases "isl u \<and> \<not> isl v")
    case True
    with loop(2) c s have "f ou cb (next_delay delay) w2 = Some r" by (cases u; cases v) auto
    then obtain n where "stops_at ou cb ((next_delay ^^ n) (next_delay delay)) (after_rounds ou cb n (next_delay delay) w2)"
      using loop(1) by blast
    then show ?thesis using c s by (intro exI [of _ "Suc n"]) (simp add: funpow_swap1)
  next
    case False
    then show ?thesis using c s by (intro exI [of _ 0]) (auto simp: stops_at_def)
  qed
qed

text \<open>C15. The retry loop of the result callback ends exactly when it should: it returns if and only if some
  attempt is accepted, or the context ends in the wait after a failed one. The wait after attempt
  \<open>n + 1\<close> is \<open>2^n\<close> seconds, at most 30.\<close>

theorem report_returns_iff:
  "(\<exists>r. reportJobFinishedUntilSuccess ou marshal s msg status logs errMsg w = Some r) \<longleftrightarrow>
   (\<exists>n. let cb = callbackJobFinished ou marshal s msg status logs errMsg; w1 = after_rounds ou cb n (seconds 1) w in
        (\<exists>w2. cb w1 = (Inr (), w2))
      \<or> (\<exists>e w2 e' w3. cb w1 = (Inl e, w2) \<and> waitForRetry ou (min (seconds 30) (seconds (2 ^ n))) w2 = (Inl e', w3)))"
proof -
  let ?cb = "callbackJobFinished ou marshal s msg status logs errMsg"
  have d: "start_delay = seconds 1"
    by (simp add: start_delay_def finishedCallbackRetryDelay_def defaultFinishedCallbackRetryDelay_def seconds_def)
  have st: "stops_at ou ?cb delay w1 \<longleftrightarrow> (\<exists>w2. ?cb w1 = (Inr (), w2))
      \<or> (\<exists>e w2 e' w3. ?cb w1 = (Inl e, w2) \<and> waitForRetry ou delay w2 = (Inl e', w3))" for delay w1
  proof -
    obtain r w2 where "?cb w1 = (r, w2)" by (meson surj_pair)
    moreover obtain v w3 where "waitForRetry ou delay w2 = (v, w3)" by (meson surj_pair)
    ultimately show ?thesis by (cases r; cases v) (auto simp: stops_at_def)
  qed
  have "(\<exists>r. report_loop ou ?cb (seconds 1) w = Some r) \<longleftrightarrow>
      (\<exists>n. stops_at ou ?cb ((next_delay ^^ n) (seconds 1)) (after_rounds ou ?cb n (seconds 1) w))"
    by (auto dest: report_loop_stopped report_loop_stops)
  then show ?thesis
    unfolding reportJobFinishedUntilSuccess_def d Let_def st next_delay_power .
qed

section \<open>Setting up the dependencies\<close>

lemma loadWorkerConcurrency_positive: "1 \<le> loadWorkerConcurrency getenv"
  by (auto simp: loadWorkerConcurrency_def defaultWorkerConcurrent_def Let_def split: sum.split)

lemma conn_lib: "keeps (rcConn \<circ> fst) (lib m)"
  by (simp add: keeps_def lib_def split: prod.split)

lemma conn_set_channel: "keeps (rcConn \<circ> fst) (set_channel ch)"
  by (simp add: keeps_def set_channel_def)

lemma conn_ensureQueueLocked: "keeps (rcConn \<circ> fst) (ensureQueueLocked am queue)"
  using conn_lib by (auto simp: keeps_def ensureQueueLocked_def split: option.split) fastforce

lemma conn_close_channel: "keeps (rcConn \<circ> fst) (close_channel am)"
proof -
  have "keeps (rcConn \<circ> fst) (andthen (ignore_err (lib (amChannelClose am ch))) (\<lambda>_. set_channel None))" for ch
    using conn_lib conn_set_channel by blast
  then show ?thesis by (auto simp: keeps_def close_channel_def split: option.split)
qed

lemma conn_reopenChannelLocked: "keeps (rcConn \<circ> fst) (reopenChannelLocked am)"
proof -
  have confirm: "keeps (rcConn \<circ> fst) (\<lambda>cb. case lib (amConfirm am ch) cb of
       (Inl e, cb1) \<Rightarrow> andthen (close_channel am) (\<lambda>_. fail (wrapf ''enable publisher confirms: '' e)) cb1
     | (Inr x, cb1) \<Rightarrow> ret () cb1)" for ch
    by (intro keeps_try conn_lib keeps_andthen conn_close_channel keeps_fail keeps_ret)
  have "keeps (rcConn \<circ> fst)
     (andthen (close_channel am) (\<lambda>_. andthen (lib (amChannel am conn)) (\<lambda>ch. andthen (set_channel (Some ch)) (\<lambda>_ cb.
        case lib (amConfirm am ch) cb of
          (Inl e, cb1) \<Rightarrow> andthen (close_channel am) (\<lambda>_. fail (wrapf ''enable publisher confirms: '' e)) cb1
        | (Inr x, cb1) \<Rightarrow> (Inr (), cb1)))))" for conn
    using confirm unfolding ret_def
    by (intro keeps_andthen conn_close_channel conn_lib conn_set_channel)
  then show ?thesis by (auto simp: keeps_def reopenChannelLocked_def split: option.split)
qed

lemma NewRabbitClientWithConn_conn:
  assumes "NewRabbitClientWithConn am cfg conn w = (Inr c, w1)"
  shows "rcConn c = conn"
proof -
  let ?c = "\<lparr>rcCfg = cfg, rcConn = conn, rcChannel = None\<rparr>"
  obtain r c1 b1 where o: "reopenChannelLocked am (?c, w) = (r, (c1, b1))" by (metis prod_cases3)
  obtain r2 c2 b2 where q: "ensureQueueLocked am (mqJobQueue cfg) (c1, b1) = (r2, (c2, b2))" by (metis prod_cases3)
  have "rcConn c2 = conn"
    using keepsD [OF conn_reopenChannelLocked o] keepsD [OF conn_ensureQueueLocked q] by simp
  moreover have "c = c2"
    using assms by (cases r; cases r2) (auto simp: NewRabbitClientWithConn_def o q split: option.splits if_splits)
  ultimately show ?thesis by simp
qed

lemma newJobConsumer_conn: "newJobConsumer am cfg conn w = (Inr c, w1) \<Longrightarrow> rcConn (fst c) = Some conn"
  by (auto simp: newJobConsumer_def NewJobConsumer_def dest: NewRabbitClientWithConn_conn
      split: prod.splits sum.splits option.splits)

lemma create_consumers_ok:
  "create_consumers am cfg conn n k acc w = (Inr cs, w1) \<Longrightarrow> \<forall>c \<in> set acc. rcConn (fst c) = Some conn \<Longrightarrow>
     length cs = length acc + k \<and> (\<forall>c \<in> set cs. rcConn (fst c) = Some conn)"
proof (induction k arbitrary: acc w)
  case (Suc k)
  obtain r w2 where c: "newJobConsumer am cfg conn w = (r, w2)" by (meson surj_pair)
  then show ?case
  proof (cases r)
    case (Inl e)
    with Suc.prems c show ?thesis by simp
  next
    case (Inr x)
    with c have "rcConn (fst x) = Some conn" by (simp add: newJobConsumer_conn)
    with Suc.prems Suc.IH [of "acc @ [x]" w2] c Inr show ?thesis by simp
  qed
qed auto

text \<open>What \<open>ensureDependencies\<close> promises: a Docker client, and when there were no consumers before, as many
  as configured, all on the connection of the service.\<close>

definition equipped :: "(string \<Rightarrow> string) \<Rightarrow> workerService \<Rightarrow> bool" where
  "equipped getenv s \<longleftrightarrow> int (length (wkConsumers s)) = loadWorkerConcurrency getenv
     \<and> (\<exists>conn. wkMqConn s = Some conn \<and> (\<forall>c \<in> set (wkConsumers s). rcConn (fst c) = Some conn))"

lemma createJobConsumers_ok:
  assumes "createJobConsumers am getenv cfg conn w = (Inr cs, w1)"
  shows "int (length cs) = loadWorkerConcurrency getenv \<and> (\<forall>c \<in> set cs. rcConn (fst c) = Some conn)"
  using assms create_consumers_ok [of am cfg conn "nat (loadWorkerConcurrency getenv)" "nat (loadWorkerConcurrency getenv)" "[]" w cs w1]
    loadWorkerConcurrency_positive [of getenv]
  by (auto simp: createJobConsumers_def fail_def Let_def split: if_splits)

definition final_error :: "goerr \<Rightarrow> bool" where
  "final_error e \<longleftrightarrow> errors_Is e CtxCanceled \<or> errors_Is e CtxDeadlineExceeded \<or> errors_Is e ErrFatal"

text \<open>The context: its errors are cancellation and deadline, and a wait fails with the error of the context.\<close>

lemmas ensure_loop_induct = ensure_loop.raw_induct [rotated, consumes 1, case_names loop]

locale worker_clock =
  fixes ou :: "'w outside"
  assumes ctx_error: "ouCtxErr ou w = Some e \<Longrightarrow> errors_Is e CtxCanceled \<or> errors_Is e CtxDeadlineExceeded"
    and sleep_error: "ouSleep ou d w = (Inl e, w1) \<Longrightarrow> errors_Is e CtxCanceled \<or> errors_Is e CtxDeadlineExceeded"
begin

definition good_round :: "(string \<Rightarrow> string) \<Rightarrow> flow \<Rightarrow> workerService \<Rightarrow> bool" where
  "good_round getenv f s \<longleftrightarrow>
     (case f of
        Return None \<Rightarrow> wkDocker s \<noteq> None \<and> equipped getenv s
      | Return (Some e) \<Rightarrow> final_error e
      | Continue \<Rightarrow> wkConsumers s = [] \<or> equipped getenv s
      | GoOn \<Rightarrow> equipped getenv s)"

lemma retry_later_good:
  assumes "retry_later ou (s, w) = (f, s', w')" and "wkConsumers s = [] \<or> equipped getenv s"
  shows "f \<noteq> GoOn \<and> good_round getenv f s'"
proof -
  obtain r w1 where "waitForRetry ou dependencyRetryDelay w = (r, w1)" by (meson surj_pair)
  then show ?thesis
    using assms sleep_error [of dependencyRetryDelay w _ w1]
    by (cases r) (auto simp: retry_later_def waitForRetry_def good_round_def final_error_def)
qed

lemma ensure_docker_good:
  assumes "ensure_docker ou (s, w) = (f, s', w')" and "wkConsumers s = [] \<or> equipped getenv s"
  shows "if f = GoOn then wkDocker s' \<noteq> None \<and> (wkConsumers s' = [] \<or> equipped getenv s') else good_round getenv f s'"
proof -
  obtain r w1 where "NewDockerClient ou w = (r, w1)" by (meson surj_pair)
  then show ?thesis
    using assms retry_later_good [of s w1 f s' w' getenv]
    by (cases r) (auto simp: ensure_docker_def equipped_def split: if_splits)
qed

lemma ensure_consumers_good:
  assumes "ensure_consumers ou am getenv (s, w) = (f, s', w')" and "wkConsumers s = [] \<or> equipped getenv s"
  shows "good_round getenv f s' \<and> (f = GoOn \<longrightarrow> wkDocker s' = wkDocker s)"
proof (cases "wkConsumers s = []")
  case True
  let ?s = "s\<lparr>wkMqConn := None\<rparr>" and ?w = "close_conn am (wkMqConn s) w"
  obtain r w1 where dial: "amDial am (mqURL (wkMqConfig s)) ?w = (r, w1)" by (meson surj_pair)
  show ?thesis
  proof (cases r)
    case (Inl e)
    with assms True dial retry_later_good [of ?s w1 f s' w' getenv] show ?thesis
      by (simp add: ensure_consumers_def Let_def)
  next
    case (Inr conn)
    obtain r2 w2 where c: "createJobConsumers am getenv (wkMqConfig s) conn w1 = (r2, w2)" by (meson surj_pair)
    show ?thesis
    proof (cases r2)
      case (Inl e)
      with assms True dial Inr c retry_later_good [of ?s "snd (amConnClose am conn w2)" f s' w' getenv] show ?thesis
        by (auto simp: ensure_consumers_def Let_def good_round_def final_error_def split: if_splits)
    next
      case r2: (Inr cs)
      with assms True dial Inr c createJobConsumers_ok [of am getenv "wkMqConfig s" conn w1 cs w2] show ?thesis
        by (auto simp: ensure_consumers_def Let_def good_round_def equipped_def)
    qed
  qed
next
  case False
  with assms show ?thesis by (auto simp: ensure_consumers_def good_round_def)
qed

lemma ensure_round_good:
  assumes "ensure_round ou am getenv (s, w) = (f, s', w')" and "wkConsumers s = [] \<or> equipped getenv s"
  shows "f \<noteq> GoOn \<and> good_round getenv f s'"
proof (cases "ouCtxErr ou w")
  case (Some e)
  with assms(1) ctx_error [OF Some] show ?thesis by (auto simp: ensure_round_def good_round_def final_error_def)
next
  case None
  obtain f1 s1 w1 where d: "ensure_docker ou (s, w) = (f1, s1, w1)" by (metis prod_cases3)
  obtain f2 s2 w2 where c: "ensure_consumers ou am getenv (s1, w1) = (f2, s2, w2)" by (metis prod_cases3)
  have equipped_ne: "equipped getenv s2 \<Longrightarrow> wkConsumers s2 \<noteq> []"
    using loadWorkerConcurrency_positive [of getenv] by (auto simp: equipped_def)
  show ?thesis
    using assms(1) None d c ensure_docker_good [OF d assms(2)] ensure_consumers_good [OF c] equipped_ne
    by (cases f1; cases f2) (auto simp: ensure_round_def good_round_def split: if_splits)
qed

lemma ensure_loop_good:
  "ensure_loop ou' am getenv sw = Some res \<Longrightarrow> ou' = ou \<Longrightarrow> wkConsumers (fst sw) = [] \<or> equipped getenv (fst sw) \<Longrightarrow>
     good_round getenv (Return (fst res)) (fst (snd res))"
proof (induction ou' am getenv sw res rule: ensure_loop_induct)
  case (loop f ou' am getenv sw res)
  obtain s w where sw: "sw = (s, w)" by (meson surj_pair)
  obtain fl s1 w1 where r: "ensure_round ou am getenv (s, w) = (fl, s1, w1)" by (metis prod_cases3)
  from loop(4) sw have "fl \<noteq> GoOn \<and> good_round getenv fl s1" using ensure_round_good [OF r] by simp
  with loop(2,3) loop(1) [of ou' am getenv "(s1, w1)" res] sw r show ?case
    by (cases fl) (auto simp: good_round_def split: option.splits)
qed

end

text \<open>C33. The worker starts consuming only when it is equipped: if \<open>ensureDependencies\<close> returns without error
  there is a Docker client, and there are exactly as many consumers as configured (at least one),
  all on the connection that the service holds. It gives up only when the context is done or the
  broker refuses for good.\<close>

theorem ensureDependencies_outcome:
  assumes "worker_clock ou" and "wkConsumers s = []"
    and "ensureDependencies ou am getenv (s, w) = Some (r, s', w')"
  shows "case r of
      None \<Rightarrow> wkDocker s' \<noteq> None \<and> 1 \<le> length (wkConsumers s')
        \<and> int (length (wkConsumers s')) = loadWorkerConcurrency getenv
        \<and> (\<exists>conn. wkMqConn s' = Some conn \<and> (\<forall>c \<in> set (wkConsumers s'). rcConn (fst c) = Some conn))
    | Some e \<Rightarrow> final_error e"
proof (cases "mqConfig_Validate (wkMqConfig s)")
  case None
  with assms(3) have "ensure_loop ou am getenv (s, w) = Some (r, s', w')" by (simp add: ensureDependencies_def)
  from worker_clock.ensure_loop_good [OF assms(1) this] assms(2) loadWorkerConcurrency_positive [of getenv]
  show ?thesis
    by (auto simp: worker_clock.good_round_def [OF assms(1)] equipped_def split: option.splits)
next
  case (Some e)
  with assms(3) show ?thesis by (auto simp: ensureDependencies_def final_error_def errors_Is_def)
qed

section \<open>The group of consumers comes to an end\<close>

definition group_inv :: "nat \<Rightarrow> group \<Rightarrow> bool" where
  "group_inv n g \<longleftrightarrow> gRunning g \<subseteq> {0..<n}
     \<and> (\<forall>e \<in> set (gErrs g). \<exists>i e0. i < n \<and> e = consumer_failed i e0)
     \<and> (case gPhase g of
          Selecting \<Rightarrow> True
        | Awaiting r \<Rightarrow> \<exists>e. r = Some e \<and> (gCtx g = Some e \<or> (\<exists>i e0. i < n \<and> e = consumer_failed i e0))
        | Returned r \<Rightarrow> gRunning g = {}
            \<and> (\<forall>e. r = Some e \<longrightarrow> gCtx g = Some e \<or> (\<exists>i e0. i < n \<and> e = consumer_failed i e0)))"

lemma group_inv_step: "group_step g g' \<Longrightarrow> group_inv n g \<Longrightarrow> group_inv n g'"
proof (induction rule: group_step.induct)
  case (exits i g e)
  then have "i < n" by (auto simp: group_inv_def)
  with exits show ?case
    by (cases "gPhase g") (auto simp: group_inv_def consumer_exit_def)
qed (auto simp: group_inv_def split: group_phase.splits)

lemma group_reachable_inv: "group_reachable n g \<Longrightarrow> group_inv n g"
proof (induction rule: group_reachable.induct)
  case start
  then show ?case by (simp add: group_inv_def start_group_def)
next
  case (step g g')
  then show ?case using group_inv_step by blast
qed

lemma group_drains: "finite (gRunning g) \<Longrightarrow> \<exists>g'. group_step\<^sup>*\<^sup>* g g' \<and> gRunning g' = {} \<and> gPhase g' = gPhase g"
proof (induction "card (gRunning g)" arbitrary: g)
  case 0
  then show ?case by auto
next
  case (Suc k)
  then obtain i where i: "i \<in> gRunning g" by (metis card.empty equals0I nat.distinct(1))
  let ?g = "consumer_exit i (Errorf ''closed'') g"
  have "k = card (gRunning ?g)" "finite (gRunning ?g)" using Suc(2,3) i by (simp_all add: consumer_exit_def)
  from Suc(1) [OF this] obtain g' where g': "group_step\<^sup>*\<^sup>* ?g g'" "gRunning g' = {}" "gPhase g' = gPhase ?g" by auto
  have "group_step g ?g" using i by (rule exits)
  with g' show ?case by (auto simp: consumer_exit_def intro: converse_rtranclp_into_rtranclp)
qed

text \<open>C34. The consumers are joined: \<open>consumeWorkers\<close> returns only when no consumer is running any more, an error
  it returns is that of its context or of one of its consumers, and from every state it can reach
  it can still return.\<close>

theorem consumers_joined:
  assumes "group_reachable n g"
  shows "(\<forall>r. gPhase g = Returned r \<longrightarrow> gRunning g = {}
      \<and> (\<forall>e. r = Some e \<longrightarrow> gCtx g = Some e \<or> (\<exists>i e0. i < n \<and> e = consumer_failed i e0)))
    \<and> (\<exists>g' r. group_step\<^sup>*\<^sup>* g g' \<and> gPhase g' = Returned r)"
proof -
  note inv = group_reachable_inv [OF assms, unfolded group_inv_def]
  then have "finite (gRunning g)" by (meson finite_atLeastLessThan finite_subset)
  then obtain g1 where g1: "group_step\<^sup>*\<^sup>* g g1" "gRunning g1 = {}" "gPhase g1 = gPhase g" using group_drains by blast
  have "\<exists>g' r. group_step\<^sup>*\<^sup>* g g' \<and> gPhase g' = Returned r"
  proof (cases "gPhase g")
    case Selecting
    with g1 have "group_step g1 (g1\<lparr>gCancelled := True, gPhase := Returned None\<rparr>)" by (intro select_done) simp_all
    from rtranclp.rtrancl_into_rtrancl [OF g1(1) this] show ?thesis by (intro exI conjI) (assumption, simp)
  next
    case (Awaiting r)
    with g1 have "group_step g1 (g1\<lparr>gPhase := Returned r\<rparr>)" by (intro awaited) simp_all
    from rtranclp.rtrancl_into_rtrancl [OF g1(1) this] show ?thesis by (intro exI conjI) (assumption, simp)
  next
    case (Returned r)
    then show ?thesis by blast
  qed
  with inv show ?thesis by (auto split: group_phase.splits)
qed

lemma all_exit:
  "k \<le> n \<Longrightarrow> group_reachable n
     \<lparr>gRunning = {k..<n}, gErrs = map (\<lambda>i. consumer_failed i e) [0..<k], gCtx = None, gCancelled = False, gPhase = Selecting\<rparr>"
proof (induction k)
  case 0
  then show ?case using group_reachable.start [of n] by (simp add: start_group_def)
next
  case (Suc k)
  let ?g = "\<lambda>k. \<lparr>gRunning = {k..<n}, gErrs = map (\<lambda>i. consumer_failed i e) [0..<k], gCtx = None, gCancelled = False, gPhase = Selecting\<rparr>"
  have "group_step (?g k) (consumer_exit k e (?g k))" using Suc.prems by (intro exits) simp
  moreover have "consumer_exit k e (?g k) = ?g (Suc k)"
    using Suc.prems by (auto simp: consumer_exit_def)
  ultimately have step: "group_step (?g k) (?g (Suc k))" by simp
  from Suc have "group_reachable n (?g k)" by simp
  from group_reachable.step [OF this step] show ?case .
qed

text \<open>The failure of all consumers can go unnoticed: when every consumer has failed before the caller
  selects, \<open>done\<close> is closed as well, and choosing it makes \<open>consumeWorkers\<close> return nil with all the
  errors still in the channel, so that the worker stops without an error.\<close>

theorem consumer_failures_swallowed:
  "\<exists>g. group_reachable n g \<and> gPhase g = Returned None \<and> gCtx g = None
     \<and> gErrs g = map (\<lambda>i. consumer_failed i connection_closed) [0..<n]"
proof -
  let ?g = "\<lparr>gRunning = {n..<n}, gErrs = map (\<lambda>i. consumer_failed i connection_closed) [0..<n], gCtx = None,
    gCancelled = False, gPhase = Selecting\<rparr>"
  have "group_step ?g (?g\<lparr>gCancelled := True, gPhase := Returned None\<rparr>)" by (intro select_done) simp_all
  from group_reachable.step [OF all_exit [OF order_refl, of n connection_closed] this]
  show ?thesis by (intro exI conjI) (assumption, simp_all)
qed

lemma nil_stops_worker:
  "wkDocker s \<noteq> None \<Longrightarrow> wkConsumers s \<noteq> [] \<Longrightarrow> consume (wkConsumers s) w = (None, w1) \<Longrightarrow>
     start_loop ou am getenv consume (s, w) = Some (None, s, w1)"
  by (subst start_loop.simps) (auto simp: consumeJobs_def)

section \<open>Concrete runs\<close>

definition demo_ctx :: goerr where
  "demo_ctx = \<lparr>Error = ''context canceled'', chain = [CtxCanceled]\<rparr>"

text \<open>An orchestrator that accepts callbacks when the script says so, beside the engine and the broker in
  memory.\<close>

definition lab_outside :: "labworld outside" where
  "lab_outside = \<lparr>ouDockerNew = lab_step 0, ouDockerPing = (\<lambda>c. lab_step ()), ouDockerClose = (\<lambda>c. lab_step ()),
     ouNewRequest = (\<lambda>url. None), ouPost = (\<lambda>url body. lab_call (ret (200, Inr ''{}'')) (ret (500, Inr ''''))),
     ouCtxErr = (\<lambda>w. None), ouSleep = (\<lambda>d. lab_call (ret ()) (fail demo_ctx))\<rparr>"

definition mem_outside :: "membroker outside" where
  "mem_outside = \<lparr>ouDockerNew = ret 0, ouDockerPing = (\<lambda>c. mb_call (ret ())), ouDockerClose = (\<lambda>c. ret ()),
     ouNewRequest = (\<lambda>url. None), ouPost = (\<lambda>url body. ret (200, Inr '''')), ouCtxErr = (\<lambda>w. None), ouSleep = (\<lambda>d. ret ())\<rparr>"

interpretation lab_clock: worker_clock lab_outside
  by unfold_locales (auto simp: lab_outside_def lab_call_def ret_def fail_def demo_ctx_def errors_Is_def split: list.splits if_splits)

interpretation mem_clock: worker_clock mem_outside
  by unfold_locales (auto simp: mem_outside_def ret_def)

definition demo_worker :: workerService where
  "demo_worker = (NewService (\<lambda>_. '''') 0)\<lparr>wkDocker := Some 0\<rparr>"

definition demo_marshal :: "JobStatusCallbackRequest \<Rightarrow> goerr + string" where
  "demo_marshal r = Inr (cbJob r @ '' '' @ cbStatus r)"

text \<open>The image cannot be pulled, so the job fails, and the first callback with its result is refused.\<close>

definition demo_handling :: labworld where
  "demo_handling = demo_lab\<lparr>lwScript := [True, False, False, True, True]\<rparr>"

lemma handled_only_when_reported_witness:
  "\<exists>w' logs execErr w1 w2. handleJobMessage lab_outside unit_floats lab_docker lab_host (\<lambda>_. '''') demo_marshal demo_worker demo_message demo_handling
      = Some (Inr (), w')
    \<and> callbackJobStarted lab_outside demo_marshal demo_worker demo_message demo_handling = (Inr (), w1)
    \<and> ExecuteJob unit_floats (Some lab_docker) lab_host (\<lambda>_. '''') (Some (jmJob demo_message)) (jmRepoURL demo_message)
        (jmCommit demo_message) (jmWorkspacePath demo_message) w1 = ((logs, execErr), w2)"
proof -
  let ?h = "handleJobMessage lab_outside unit_floats lab_docker lab_host (\<lambda>_. '''') demo_marshal demo_worker demo_message demo_handling"
  have "map_option fst ?h = Some (Inr ())" by code_simp
  then obtain w' where h: "?h = Some (Inr (), w')" by auto
  from handled_only_when_reported [OF h] h show ?thesis by blast
qed

lemma ensureDependencies_outcome_witness:
  "\<exists>s' w'. ensureDependencies mem_outside memory_amqp (\<lambda>_. '''') (NewService (\<lambda>_. '''') 0, demo_mb\<lparr>mbScript := [False, True, True, False]\<rparr>)
      = Some (None, s', w') \<and> wkDocker s' \<noteq> None \<and> length (wkConsumers s') = 1"
proof -
  let ?e = "ensureDependencies mem_outside memory_amqp (\<lambda>_. '''') (NewService (\<lambda>_. '''') 0, demo_mb\<lparr>mbScript := [False, True, True, False]\<rparr>)"
  have "map_option fst ?e = Some None" by code_simp
  then obtain s' w' where e: "?e = Some (None, s', w')" by auto
  have "wkConsumers (NewService (\<lambda>_. '''') 0) = []" by (simp add: NewService_def)
  moreover have "loadWorkerConcurrency (\<lambda>_. '''') = 1" by code_simp
  ultimately show ?thesis using ensureDependencies_outcome [OF mem_clock.worker_clock_axioms _ e] e by simp
qed

lemma consumers_joined_witness:
  "\<exists>g' r. group_step\<^sup>*\<^sup>* (consumer_exit 0 connection_closed (start_group 2)) g' \<and> gPhase g' = Returned r"
proof -
  have "group_step (start_group 2) (consumer_exit 0 connection_closed (start_group 2))"
    by (rule exits) (simp add: start_group_def)
  from consumers_joined [OF group_reachable.step [OF group_reachable.start this]] show ?thesis by blast
qed

end
