(* ===== verification/Stage_State.thy ===== *)
theory Stage_State
  imports Planner
begin

text \<open>
  \<open>stageState\<close> of \<open>internal/services/orchestrator/service.go\<close>: which jobs of a running stage are
  queued and completed, and how a finished job releases its dependents. The theory follows a stage
  from its start through the success callbacks of published jobs, in any order and with repetitions,
  and shows that a job is published once and only after everything it needs has completed, that
  some published job is always outstanding until the stage is complete, and that the counter
  comparison of \<open>isStageComplete\<close> means that every job has completed.
\<close>

section \<open>Operations\<close>

record jobConfig =
  allowFailures :: bool
  cfgNeeds :: "string list"

record stageState =
  plan :: StagePlan
  remainingNeeds :: "int gomap"
  queued :: "bool gomap"
  completed :: "bool gomap"
  jobConfigs :: "jobConfig gomap"
  startedAt :: int

definition newStageState :: "StagePlan \<Rightarrow> stageState" where
  "newStageState stagePlan =
     \<lparr>plan = stagePlan, remainingNeeds = spInDegree stagePlan, queued = [], completed = [],
      jobConfigs = [], startedAt = 0\<rparr>"

definition markQueued :: "string \<Rightarrow> stageState \<Rightarrow> stageState" where
  "markQueued name st = st\<lparr>queued := map_set name True (queued st)\<rparr>"

definition markJobTerminal :: "string \<Rightarrow> stageState \<Rightarrow> stageState" where
  "markJobTerminal name st = st\<lparr>completed := map_set name True (completed st)\<rparr>"

text \<open>The condition under which a job is handed out.\<close>

definition is_ready :: "string \<Rightarrow> stageState \<Rightarrow> bool" where
  "is_ready name st \<longleftrightarrow>
     map_get 0 (remainingNeeds st) name = 0 \<and> \<not> map_get False (queued st) name
     \<and> \<not> map_get False (completed st) name"

fun ready_loop :: "JobExecutionPlan list \<Rightarrow> stageState \<Rightarrow> JobExecutionPlan list \<times> stageState" where
  "ready_loop [] st = ([], st)"
| "ready_loop (job # jobs) st =
     (if is_ready (jepName job) st then
        (let (ready, st1) = ready_loop jobs (markQueued (jepName job) st) in (job # ready, st1))
      else ready_loop jobs st)"

definition getReadyJobs :: "stageState \<Rightarrow> JobExecutionPlan list \<times> stageState" where
  "getReadyJobs st = ready_loop (spJobs (plan st)) st"

definition zero_plan :: JobExecutionPlan where
  "zero_plan = \<lparr>jepName = '''', jepImage = '''', jepScript = []\<rparr>"

definition decrement_need :: "string \<Rightarrow> stageState \<Rightarrow> stageState" where
  "decrement_need d st =
     (if 0 < map_get 0 (remainingNeeds st) d
      then st\<lparr>remainingNeeds := map_set d (map_get 0 (remainingNeeds st) d - 1) (remainingNeeds st)\<rparr>
      else st)"

fun release_dependents :: "string list \<Rightarrow> stageState \<Rightarrow> JobExecutionPlan list \<times> stageState" where
  "release_dependents [] st = ([], st)"
| "release_dependents (d # ds) st =
     (let st1 = decrement_need d st in
      if is_ready d st1 then
        (let (newlyReady, st2) = release_dependents ds (markQueued d st1)
         in (map_get zero_plan (spJobByName (plan st1)) d # newlyReady, st2))
      else release_dependents ds st1)"

definition markJobSucceeded :: "string \<Rightarrow> stageState \<Rightarrow> JobExecutionPlan list \<times> stageState" where
  "markJobSucceeded name st =
     (if map_get False (completed st) name then ([], st)
      else
        let st1 = markJobTerminal name st
        in release_dependents (map_get [] (spDependents (plan st1)) name) st1)"

definition isStageComplete :: "stageState \<Rightarrow> bool" where
  "isStageComplete st \<longleftrightarrow> length (completed st) = length (spJobByName (plan st))"

section \<open>The two loops\<close>

definition marked :: "bool gomap \<Rightarrow> bool" where
  "marked m \<longleftrightarrow> (\<forall>(k, v) \<in> set m. v) \<and> distinct (keys m)"

lemma marked_get: "marked m \<Longrightarrow> map_get False m k \<longleftrightarrow> k \<in> set (keys m)"
proof (cases "map_of m k")
  case (Some v)
  assume "marked m"
  with map_of_SomeD [OF Some] Some show ?thesis by (force simp: marked_def map_get_def keys_def)
next
  case None
  then have "k \<notin> set (keys m)" by (simp add: keys_def map_of_eq_None_iff)
  with None show ?thesis by (simp add: map_get_def)
qed

lemma set_map_set: "set (map_set k v m) \<subseteq> insert (k, v) (set m)"
  by (induction k v m rule: map_set.induct) auto

lemma marked_set: "marked m \<Longrightarrow> marked (map_set k True m)"
  using set_map_set [of k True m] by (auto simp: marked_def distinct_keys_map_set)

lemma marked_Nil [simp]: "marked []"
  by (simp add: marked_def)

lemma remaining_decrement:
  "0 < map_get 0 (remainingNeeds st) d \<Longrightarrow>
   map_get 0 (remainingNeeds (decrement_need d st)) m = map_get 0 (remainingNeeds st) m - (if m = d then 1 else 0)"
  by (simp add: decrement_need_def map_get_map_set)

lemma decrement_need_simps [simp]:
  "plan (decrement_need d st) = plan st" "queued (decrement_need d st) = queued st"
  "completed (decrement_need d st) = completed st" "jobConfigs (decrement_need d st) = jobConfigs st"
  "startedAt (decrement_need d st) = startedAt st"
  by (simp_all add: decrement_need_def)

lemma markQueued_simps [simp]:
  "plan (markQueued d st) = plan st" "remainingNeeds (markQueued d st) = remainingNeeds st"
  "completed (markQueued d st) = completed st" "queued (markQueued d st) = map_set d True (queued st)"
  by (simp_all add: markQueued_def)

lemma markJobTerminal_simps [simp]:
  "plan (markJobTerminal d st) = plan st" "remainingNeeds (markJobTerminal d st) = remainingNeeds st"
  "queued (markJobTerminal d st) = queued st" "completed (markJobTerminal d st) = map_set d True (completed st)"
  by (simp_all add: markJobTerminal_def)

text \<open>What both loops leave alone, and how they record what they hand out.\<close>

definition handed_out :: "string list \<Rightarrow> stageState \<Rightarrow> stageState \<Rightarrow> bool" where
  "handed_out names st st' \<longleftrightarrow>
     plan st' = plan st \<and> completed st' = completed st \<and> marked (queued st')
     \<and> set (keys (queued st')) = set (keys (queued st)) \<union> set names
     \<and> distinct names"

lemma ready_loop_hands_out:
  assumes "distinct (map jepName jobs)" and "marked (queued st)" and "ready_loop jobs st = (ready, st')"
  shows "ready = filter (\<lambda>job. is_ready (jepName job) st) jobs \<and> remainingNeeds st' = remainingNeeds st
    \<and> handed_out (map jepName ready) st st'"
  using assms
proof (induction jobs arbitrary: st ready)
  case (Cons job jobs)
  show ?case
  proof (cases "is_ready (jepName job) st")
    case True
    obtain rest where rest: "ready_loop jobs (markQueued (jepName job) st) = (rest, st')" "ready = job # rest"
      using Cons.prems(3) True by (auto split: prod.splits)
    have same: "is_ready (jepName k) (markQueued (jepName job) st) = is_ready (jepName k) st" if "k \<in> set jobs" for k
    proof -
      have "jepName k \<noteq> jepName job" using that Cons.prems(1) by (metis distinct.simps(2) image_eqI list.map(2) list.set_map)
      then show ?thesis by (simp add: is_ready_def map_get_map_set)
    qed
    have IH: "rest = filter (\<lambda>k. is_ready (jepName k) (markQueued (jepName job) st)) jobs
        \<and> remainingNeeds st' = remainingNeeds st
        \<and> handed_out (map jepName rest) (markQueued (jepName job) st) st'"
      using Cons.IH [OF _ _ rest(1)] Cons.prems(1,2) marked_set [of "queued st"] by auto
    have "filter (\<lambda>k. is_ready (jepName k) (markQueued (jepName job) st)) jobs = filter (\<lambda>k. is_ready (jepName k) st) jobs"
      using same by (rule filter_cong [OF refl])
    with IH True rest(2) Cons.prems(1) show ?thesis by (auto simp: handed_out_def)
  next
    case False
    with Cons show ?thesis by simp
  qed
qed (simp add: handed_out_def)

lemma release_dependents_hands_out:
  assumes "release_dependents ds st = (newly, st')" and "marked (queued st)"
    and "\<And>m. int (count_list ds m) \<le> map_get 0 (remainingNeeds st) m"
    and "\<And>m. m \<in> set ds \<Longrightarrow> \<not> map_get False (queued st) m \<and> \<not> map_get False (completed st) m"
  shows "\<exists>names. newly = map (map_get zero_plan (spJobByName (plan st))) names
    \<and> (\<forall>m. map_get 0 (remainingNeeds st') m = map_get 0 (remainingNeeds st) m - int (count_list ds m))
    \<and> handed_out names st st'
    \<and> (\<forall>m. m \<in> set names \<longleftrightarrow> m \<in> set ds \<and> map_get 0 (remainingNeeds st) m = int (count_list ds m))"
  using assms
proof (induction ds arbitrary: st newly)
  case Nil
  then show ?case by (auto simp: handed_out_def)
next
  case (Cons d ds)
  let ?st1 = "decrement_need d st"
  let ?r = "map_get 0 (remainingNeeds st)"
  have pos: "0 < ?r d" using Cons.prems(3) [of d] by simp
  have r1: "map_get 0 (remainingNeeds ?st1) m = ?r m - (if m = d then 1 else 0)" for m
    using pos by (rule remaining_decrement)
  have bound: "int (count_list ds m) \<le> ?r m - (if m = d then 1 else 0)" for m
    using Cons.prems(3) [of m] by (simp split: if_splits)
  have ready: "is_ready d ?st1 \<longleftrightarrow> ?r d = 1"
    using Cons.prems(4) [of d] r1 [of d] by (auto simp: is_ready_def)
  show ?case
  proof (cases "?r d = 1")
    case True
    with bound [of d] have "d \<notin> set ds" by (simp add: count_list_0_iff)
    obtain rest where rest: "release_dependents ds (markQueued d ?st1) = (rest, st')"
        "newly = map_get zero_plan (spJobByName (plan st)) d # rest"
      using Cons.prems(1) True ready by (auto simp: Let_def split: prod.splits)
    have "\<exists>names. rest = map (map_get zero_plan (spJobByName (plan (markQueued d ?st1)))) names
      \<and> (\<forall>m. map_get 0 (remainingNeeds st') m = map_get 0 (remainingNeeds (markQueued d ?st1)) m - int (count_list ds m))
      \<and> handed_out names (markQueued d ?st1) st'
      \<and> (\<forall>m. m \<in> set names \<longleftrightarrow> m \<in> set ds \<and> map_get 0 (remainingNeeds (markQueued d ?st1)) m = int (count_list ds m))"
      using rest(1)
    proof (rule Cons.IH)
      show "marked (queued (markQueued d ?st1))" using Cons.prems(2) by (simp add: marked_set)
      show "int (count_list ds m) \<le> map_get 0 (remainingNeeds (markQueued d ?st1)) m" for m
        using bound [of m] r1 [of m] by simp
      show "m \<in> set ds \<Longrightarrow> \<not> map_get False (queued (markQueued d ?st1)) m
          \<and> \<not> map_get False (completed (markQueued d ?st1)) m" for m
        using Cons.prems(4) [of m] \<open>d \<notin> set ds\<close> by (auto simp: map_get_map_set)
    qed
    then obtain names where names: "rest = map (map_get zero_plan (spJobByName (plan st))) names"
        "\<And>m. map_get 0 (remainingNeeds st') m = map_get 0 (remainingNeeds ?st1) m - int (count_list ds m)"
        "handed_out names (markQueued d ?st1) st'"
        "\<And>m. m \<in> set names \<longleftrightarrow> m \<in> set ds \<and> map_get 0 (remainingNeeds ?st1) m = int (count_list ds m)"
      by auto
    have "m \<in> set (d # names) \<longleftrightarrow> m \<in> set (d # ds) \<and> ?r m = int (count_list (d # ds) m)" for m
      using names(4) [of m] r1 [of m] True \<open>d \<notin> set ds\<close> by (auto simp: count_list_0_iff)
    moreover have "map_get 0 (remainingNeeds st') m = ?r m - int (count_list (d # ds) m)" for m
      using names(2) [of m] r1 [of m] by simp
    moreover have "handed_out (d # names) st st'"
      using names(3,4) \<open>d \<notin> set ds\<close> by (auto simp: handed_out_def)
    ultimately show ?thesis using rest(2) names(1) by (intro exI [of _ "d # names"]) simp
  next
    case False
    then have rest: "release_dependents ds ?st1 = (newly, st')" using Cons.prems(1) ready by (simp add: Let_def)
    have "\<exists>names. newly = map (map_get zero_plan (spJobByName (plan ?st1))) names
      \<and> (\<forall>m. map_get 0 (remainingNeeds st') m = map_get 0 (remainingNeeds ?st1) m - int (count_list ds m))
      \<and> handed_out names ?st1 st'
      \<and> (\<forall>m. m \<in> set names \<longleftrightarrow> m \<in> set ds \<and> map_get 0 (remainingNeeds ?st1) m = int (count_list ds m))"
      using rest
    proof (rule Cons.IH)
      show "marked (queued ?st1)" using Cons.prems(2) by simp
      show "int (count_list ds m) \<le> map_get 0 (remainingNeeds ?st1) m" for m using bound [of m] r1 [of m] by simp
      show "m \<in> set ds \<Longrightarrow> \<not> map_get False (queued ?st1) m \<and> \<not> map_get False (completed ?st1) m" for m
        using Cons.prems(4) [of m] by simp
    qed
    then obtain names where names: "newly = map (map_get zero_plan (spJobByName (plan st))) names"
        "\<And>m. map_get 0 (remainingNeeds st') m = map_get 0 (remainingNeeds ?st1) m - int (count_list ds m)"
        "handed_out names ?st1 st'"
        "\<And>m. m \<in> set names \<longleftrightarrow> m \<in> set ds \<and> map_get 0 (remainingNeeds ?st1) m = int (count_list ds m)"
      by auto
    have "m \<in> set names \<longleftrightarrow> m \<in> set (d # ds) \<and> ?r m = int (count_list (d # ds) m)" for m
    proof (cases "m = d")
      case True
      have "d \<in> set ds" if "?r d = int (count_list (d # ds) d)"
      proof (rule ccontr)
        assume "d \<notin> set ds"
        with that False show False by simp
      qed
      with True names(4) [of d] r1 [of d] show ?thesis by fastforce
    qed (use names(4) [of m] r1 [of m] in auto)
    moreover have "map_get 0 (remainingNeeds st') m = ?r m - int (count_list (d # ds) m)" for m
      using names(2) [of m] r1 [of m] by simp
    ultimately show ?thesis
      using names(1,3) by (intro exI [of _ names]) (simp add: handed_out_def)
  qed
qed

section \<open>A running stage\<close>

text \<open>
  From the start of the stage, \<open>pub\<close> lists the jobs published so far. A callback reports a published
  job as succeeded (or as failed where failure is allowed); callbacks may come in any order and more
  than once, as the queue delivers at least once.
\<close>

inductive stage_run :: "StagePlan \<Rightarrow> stageState \<Rightarrow> JobExecutionPlan list \<Rightarrow> bool" for p :: StagePlan where
  start: "getReadyJobs (newStageState p) = (ready, st) \<Longrightarrow> stage_run p st ready"
| succeeded: "stage_run p st pub \<Longrightarrow> name \<in> jepName ` set pub \<Longrightarrow>
    markJobSucceeded name st = (newly, st') \<Longrightarrow> stage_run p st' (pub @ newly)"

text \<open>The jobs of a stage as the planner sees them, and the plan built from them.\<close>

definition stage_plan_of :: "Job list \<Rightarrow> StagePlan \<Rightarrow> bool" where
  "stage_plan_of jobs p \<longleftrightarrow>
     distinct (map jobName jobs)
     \<and> snd ` needs_rel jobs \<subseteq> jobName ` set jobs \<and> acyclic (needs_rel jobs)
     \<and> distinct (map jepName (spJobs p)) \<and> set (spJobs p) = job_plan ` set jobs
     \<and> spDependents p = dependents_by jobName jobs \<and> spInDegree p = in_degrees jobs
     \<and> length (spJobByName p) = length jobs
     \<and> (\<forall>j \<in> set jobs. map_get zero_plan (spJobByName p) (jobName j) = job_plan j)"

definition stage_inv :: "Job list \<Rightarrow> StagePlan \<Rightarrow> stageState \<Rightarrow> JobExecutionPlan list \<Rightarrow> bool" where
  "stage_inv jobs p st pub \<longleftrightarrow>
     plan st = p \<and> marked (queued st) \<and> marked (completed st)
     \<and> distinct (map jepName pub) \<and> set pub \<subseteq> job_plan ` set jobs
     \<and> set (keys (queued st)) = jepName ` set pub \<and> set (keys (completed st)) \<subseteq> jepName ` set pub
     \<and> (\<forall>m. 0 \<le> map_get 0 (remainingNeeds st) m)
     \<and> (\<forall>j \<in> set jobs. map_get 0 (remainingNeeds st) (jobName j) = int (open_needs (set (keys (completed st))) j)
          \<and> (jobName j \<in> jepName ` set pub \<longleftrightarrow> open_needs (set (keys (completed st))) j = 0))"

lemma jepName_job_plan [simp]: "jepName (job_plan j) = jobName j"
  by (simp add: job_plan_def)

lemma stage_inv_start:
  assumes p: "stage_plan_of jobs p" and start: "getReadyJobs (newStageState p) = (ready, st)"
  shows "stage_inv jobs p st ready"
proof -
  have loop: "ready_loop (spJobs p) (newStageState p) = (ready, st)"
    using start by (simp add: getReadyJobs_def newStageState_def)
  have out: "ready = filter (\<lambda>job. is_ready (jepName job) (newStageState p)) (spJobs p)"
      "remainingNeeds st = in_degrees jobs" "handed_out (map jepName ready) (newStageState p) st"
  proof -
    have f: "distinct (map jepName (spJobs p))" "marked (queued (newStageState p))"
        "remainingNeeds (newStageState p) = in_degrees jobs"
      using p by (simp_all add: stage_plan_of_def newStageState_def)
    show "ready = filter (\<lambda>job. is_ready (jepName job) (newStageState p)) (spJobs p)"
        "remainingNeeds st = in_degrees jobs" "handed_out (map jepName ready) (newStageState p) st"
      using ready_loop_hands_out [OF f(1,2) loop] unfolding f(3) by blast+
  qed
  have deg: "map_get 0 (in_degrees jobs) (jobName j) = int (open_needs {} j)" if "j \<in> set jobs" for j
    using p that by (simp add: stage_plan_of_def map_get_in_degrees open_needs_def)
  have ready: "is_ready (jobName j) (newStageState p) \<longleftrightarrow> open_needs {} j = 0" if "j \<in> set jobs" for j
    using deg [OF that] p by (simp add: is_ready_def newStageState_def stage_plan_of_def)
  have pub: "jobName j \<in> jepName ` set ready \<longleftrightarrow> open_needs {} j = 0" if "j \<in> set jobs" for j
  proof
    assume "jobName j \<in> jepName ` set ready"
    then obtain k where "k \<in> set ready" "jepName k = jobName j" by force
    then show "open_needs {} j = 0" using ready [OF that] unfolding out(1) by simp
  next
    assume "open_needs {} j = 0"
    then have "job_plan j \<in> set ready" using ready [OF that] p that unfolding out(1) by (simp add: stage_plan_of_def)
    then show "jobName j \<in> jepName ` set ready" by force
  qed
  have "set ready \<subseteq> job_plan ` set jobs" using p unfolding out(1) by (auto simp: stage_plan_of_def)
  moreover have "completed st = []" "plan st = p" "set (keys (queued st)) = jepName ` set ready"
      "marked (queued st)" "distinct (map jepName ready)"
    using out(3) by (simp_all add: handed_out_def newStageState_def)
  moreover have "0 \<le> map_get 0 (in_degrees jobs) m" for m
    using deg map_get_notin [of m "in_degrees jobs" 0] by (cases "m \<in> jobName ` set jobs") auto
  ultimately show ?thesis using pub deg out(2) by (simp add: stage_inv_def)
qed

lemma count_dependents_other:
  "m \<notin> jobName ` set jobs \<Longrightarrow> count_list (map_get [] (dependents_by jobName jobs) n) m = 0"
  by (auto simp: map_get_dependents_by count_list_0_iff)

text \<open>One released name at a time: what a first success of \<open>name\<close> does to the state.\<close>

lemma released_by:
  assumes p: "stage_plan_of jobs p" and inv: "stage_inv jobs p st pub" and name: "name \<in> jepName ` set pub"
    and first: "name \<notin> set (keys (completed st))" and mark: "markJobSucceeded name st = (newly, st')"
  obtains names where "newly = map (map_get zero_plan (spJobByName p)) names"
    and "\<And>m. 0 \<le> map_get 0 (remainingNeeds st') m"
    and "\<And>j. j \<in> set jobs \<Longrightarrow>
      map_get 0 (remainingNeeds st') (jobName j) = int (open_needs (insert name (set (keys (completed st)))) j)"
    and "handed_out names (markJobTerminal name st) st'" and "set names \<subseteq> jobName ` set jobs"
    and "\<And>j. j \<in> set jobs \<Longrightarrow> jobName j \<in> set names \<longleftrightarrow>
      open_needs (set (keys (completed st))) j \<noteq> 0 \<and> open_needs (insert name (set (keys (completed st)))) j = 0"
proof -
  let ?D = "set (keys (completed st))" and ?rem = "map_get 0 (remainingNeeds st)"
  let ?ds = "map_get [] (dependents_by jobName jobs) name" and ?st1 = "markJobTerminal name st"
  have marks: "marked (queued st)" "marked (completed st)" and plan: "plan st = p"
    using inv by (simp_all add: stage_inv_def)
  have dist: "distinct (map jobName jobs)" using p by (simp add: stage_plan_of_def)
  have job: "?rem (jobName j) = int (open_needs ?D j)" "jobName j \<in> jepName ` set pub \<longleftrightarrow> open_needs ?D j = 0"
    if "j \<in> set jobs" for j using inv that by (simp_all add: stage_inv_def)
  have count: "count_list ?ds (jobName j) = count_list (jobNeeds j) name" if "j \<in> set jobs" for j
    using count_dependents [OF dist that] by (simp add: map_get_dependents_by)
  have less: "open_needs (insert name ?D) j + count_list (jobNeeds j) name = open_needs ?D j" for j
    using first by (rule open_needs_insert)
  have dependent: "\<exists>j \<in> set jobs. m = jobName j \<and> count_list (jobNeeds j) name \<noteq> 0" if "m \<in> set ?ds" for m
  proof -
    have pos: "count_list ?ds m \<noteq> 0" using that by (simp add: count_list_0_iff)
    then obtain j where j: "j \<in> set jobs" "m = jobName j"
      using count_dependents_other [of m jobs name] by (metis imageE)
    with pos count [OF j(1)] show ?thesis by auto
  qed
  have bound: "int (count_list ?ds m) \<le> map_get 0 (remainingNeeds ?st1) m" for m
  proof (cases "m \<in> jobName ` set jobs")
    case True
    then obtain j where j: "j \<in> set jobs" "m = jobName j" by blast
    show ?thesis using job(1) [OF j(1)] count [OF j(1)] less [of j] j(2) by simp
  next
    case False
    with inv show ?thesis by (simp add: count_dependents_other stage_inv_def)
  qed
  have waiting: "\<not> map_get False (queued ?st1) m \<and> \<not> map_get False (completed ?st1) m" if "m \<in> set ?ds" for m
  proof -
    from dependent [OF that] obtain j where j: "j \<in> set jobs" "m = jobName j" "count_list (jobNeeds j) name \<noteq> 0"
      by blast
    with less [of j] job(2) [OF j(1)] have "m \<notin> jepName ` set pub" by simp
    with inv name show ?thesis
      using marks marked_set [OF marks(2)] by (auto simp: marked_get stage_inv_def)
  qed
  have rel: "release_dependents ?ds ?st1 = (newly, st')"
    using mark first p plan by (simp add: markJobSucceeded_def marked_get [OF marks(2)] stage_plan_of_def)
  have "marked (queued ?st1)" using marks by simp
  from release_dependents_hands_out [OF rel this bound waiting] obtain names where
      newly: "newly = map (map_get zero_plan (spJobByName p)) names"
      and rem': "\<And>m. map_get 0 (remainingNeeds st') m = ?rem m - int (count_list ?ds m)"
      and out: "handed_out names ?st1 st'"
      and names: "\<And>m. m \<in> set names \<longleftrightarrow> m \<in> set ?ds \<and> ?rem m = int (count_list ?ds m)"
    using plan by auto
  show ?thesis
  proof (rule that [OF newly _ _ out])
    show "0 \<le> map_get 0 (remainingNeeds st') m" for m using rem' [of m] bound [of m] by simp
    show "map_get 0 (remainingNeeds st') (jobName j) = int (open_needs (insert name ?D) j)" if "j \<in> set jobs" for j
      using rem' [of "jobName j"] job(1) [OF that] count [OF that] less [of j] by simp
    show "set names \<subseteq> jobName ` set jobs" using names dependent by blast
    show "jobName j \<in> set names \<longleftrightarrow> open_needs ?D j \<noteq> 0 \<and> open_needs (insert name ?D) j = 0"
      if "j \<in> set jobs" for j
    proof -
      have "jobName j \<in> set ?ds \<longleftrightarrow> count_list (jobNeeds j) name \<noteq> 0"
        using count [OF that] by (metis count_list_0_iff)
      then show ?thesis using names [of "jobName j"] job(1) [OF that] count [OF that] less [of j] by auto
    qed
  qed
qed

lemma stage_inv_step:
  assumes p: "stage_plan_of jobs p" and inv: "stage_inv jobs p st pub" and name: "name \<in> jepName ` set pub"
    and mark: "markJobSucceeded name st = (newly, st')"
  shows "stage_inv jobs p st' (pub @ newly)"
proof (cases "name \<in> set (keys (completed st))")
  case True
  with inv mark have "newly = []" "st' = st" by (auto simp: markJobSucceeded_def stage_inv_def marked_get)
  with inv show ?thesis by simp
next
  case False
  let ?D = "set (keys (completed st))" and ?pub = "jepName ` set pub"
  from released_by [OF p inv name False mark] obtain names where
      newly: "newly = map (map_get zero_plan (spJobByName p)) names"
      and nonneg: "\<And>m. 0 \<le> map_get 0 (remainingNeeds st') m"
      and rem': "\<And>j. j \<in> set jobs \<Longrightarrow> map_get 0 (remainingNeeds st') (jobName j) = int (open_needs (insert name ?D) j)"
      and out: "handed_out names (markJobTerminal name st) st'" and known: "set names \<subseteq> jobName ` set jobs"
      and released: "\<And>j. j \<in> set jobs \<Longrightarrow> jobName j \<in> set names \<longleftrightarrow>
        open_needs ?D j \<noteq> 0 \<and> open_needs (insert name ?D) j = 0" by metis
  have by_name: "map_get zero_plan (spJobByName p) (jobName j) = job_plan j" if "j \<in> set jobs" for j
    using p that by (simp add: stage_plan_of_def)
  have newly_names: "map jepName newly = names" and newly_jobs: "set newly \<subseteq> job_plan ` set jobs"
  proof -
    have "\<exists>j \<in> set jobs. m = jobName j \<and> map_get zero_plan (spJobByName p) m = job_plan j" if "m \<in> set names" for m
      using that known by_name by blast
    then have "jepName (map_get zero_plan (spJobByName p) m) = m \<and> map_get zero_plan (spJobByName p) m \<in> job_plan ` set jobs"
      if "m \<in> set names" for m using that by fastforce
    then show "map jepName newly = names" "set newly \<subseteq> job_plan ` set jobs" unfolding newly by (auto simp: map_idI)
  qed
  have new_set: "jepName ` set newly = set names" using newly_names by (metis list.set_map)
  have status: "jobName j \<in> ?pub \<longleftrightarrow> open_needs ?D j = 0" if "j \<in> set jobs" for j
    using inv that by (simp add: stage_inv_def)
  have disjoint: "set names \<inter> ?pub = {}"
  proof -
    have "m \<notin> ?pub" if m: "m \<in> set names" for m
    proof -
      from known m obtain j where "j \<in> set jobs" "m = jobName j" by blast
      with m released [of j] status [of j] show ?thesis by simp
    qed
    then show ?thesis by blast
  qed
  have mono: "open_needs (insert name ?D) j \<le> open_needs ?D j" for j
    using open_needs_insert [OF False, of j] by simp
  have "jobName j \<in> ?pub \<union> set names \<longleftrightarrow> open_needs (insert name ?D) j = 0" if "j \<in> set jobs" for j
    using status [OF that] released [OF that] mono [of j] by auto
  moreover have "plan st' = p" "set (keys (completed st')) = insert name ?D" "marked (completed st')"
      "marked (queued st')" "set (keys (queued st')) = ?pub \<union> set names" "distinct names"
    using out inv marked_set by (auto simp: handed_out_def stage_inv_def)
  moreover have "distinct (map jepName (pub @ newly))"
    using inv disjoint newly_names \<open>distinct names\<close> by (simp add: stage_inv_def Int_commute)
  moreover have "set (pub @ newly) \<subseteq> job_plan ` set jobs" "insert name ?D \<subseteq> ?pub \<union> set names"
    using inv newly_jobs name by (simp_all add: stage_inv_def le_supI1)
  moreover have "jepName ` set (pub @ newly) = ?pub \<union> set names"
    using new_set by (simp add: image_Un)
  ultimately show ?thesis
    using nonneg rem' unfolding stage_inv_def by simp
qed

lemma stage_run_inv: "stage_run p st pub \<Longrightarrow> stage_plan_of jobs p \<Longrightarrow> stage_inv jobs p st pub"
  by (induction rule: stage_run.induct) (auto intro: stage_inv_start stage_inv_step)

section \<open>Progress and completion\<close>

text \<open>Some published job is outstanding as long as a job of the stage is: take an uncompleted job none of
  whose needs is uncompleted.\<close>

lemma stage_inv_progress:
  assumes p: "stage_plan_of jobs p" and inv: "stage_inv jobs p st pub"
    and open_job: "\<not> jobName ` set jobs \<subseteq> set (keys (completed st))"
  shows "\<exists>job \<in> set pub. jepName job \<notin> set (keys (completed st))"
proof -
  let ?D = "set (keys (completed st))"
  let ?left = "jobName ` set jobs - ?D"
  obtain x where "x \<in> ?left" using open_job by blast
  have "finite (needs_rel jobs)"
  proof -
    have "needs_rel jobs = (\<Union>j \<in> set jobs. (\<lambda>n. (jobName j, n)) ` set (jobNeeds j))" by (auto simp: needs_rel_def)
    then show ?thesis by simp
  qed
  with p have "wf ((needs_rel jobs)\<inverse>)" by (simp add: stage_plan_of_def finite_acyclic_wf_converse)
  with \<open>x \<in> ?left\<close> obtain a where a: "a \<in> ?left" "\<And>b. (a, b) \<in> needs_rel jobs \<Longrightarrow> b \<notin> ?left"
    by (metis wfE_min converse_iff)
  then obtain j where j: "j \<in> set jobs" "a = jobName j" by auto
  have "set (jobNeeds j) \<subseteq> ?D"
  proof
    fix b assume "b \<in> set (jobNeeds j)"
    with j have ab: "(a, b) \<in> needs_rel jobs" by (auto simp: needs_rel_def)
    then have "b \<in> jobName ` set jobs" using p by (force simp: stage_plan_of_def)
    with a(2) [OF ab] show "b \<in> ?D" by blast
  qed
  then have "a \<in> jepName ` set pub" using inv j by (simp add: stage_inv_def open_needs_0)
  with a(1) show ?thesis by auto
qed

lemma stage_inv_complete:
  assumes p: "stage_plan_of jobs p" and inv: "stage_inv jobs p st pub"
  shows "isStageComplete st \<longleftrightarrow> set (keys (completed st)) = jobName ` set jobs"
proof -
  let ?D = "set (keys (completed st))"
  have sub: "?D \<subseteq> jobName ` set jobs" using inv by (force simp: stage_inv_def)
  have "length (completed st) = card ?D"
    using inv distinct_card [of "keys (completed st)"] by (simp add: stage_inv_def marked_def)
  moreover have "length (spJobByName p) = card (jobName ` set jobs)"
    using p distinct_card [of "map jobName jobs"] by (simp add: stage_plan_of_def)
  moreover have "plan st = p" using inv by (simp add: stage_inv_def)
  ultimately show ?thesis
    using card_subset_eq [OF _ sub] by (auto simp: isStageComplete_def)
qed

text \<open>The planner provides such plans.\<close>

lemma stage_plan_of_BuildStagePlan:
  assumes "range_order ord" and "jobs = jobsForStage s p" and "distinct (map jobName jobs)"
    and "snd ` needs_rel jobs \<subseteq> jobName ` set jobs" and "acyclic (needs_rel jobs)"
  shows "stage_plan_of jobs (BuildStagePlan ord s p)"
proof -
  let ?order = "scheduleJobsInStage ord jobs"
  have perm: "mset ?order = mset jobs" using assms(1,3-5) by (rule kahn.permutation)
  then have eq: "set ?order = set jobs" "length ?order = length jobs"
    by (metis set_mset_mset, metis size_mset)
  have dist: "distinct (map jobName ?order)" using kahn.schedule_sound [OF assms(1,3)] by simp
  let ?by_name = "fold (\<lambda>job m. map_set (jobName job) (job_plan job) m) ?order []"
  have "map_get zero_plan ?by_name (jobName j) = job_plan j" if "j \<in> set jobs" for j
    by (rule map_get_fold_set) (use dist eq that in simp_all)
  moreover have "length ?by_name = length jobs"
  proof -
    have "set (keys ?by_name) = jobName ` set jobs" "distinct (keys ?by_name)"
      using eq by (simp_all add: set_keys_fold_set distinct_keys_fold_set)
    then have "length (keys ?by_name) = card (jobName ` set jobs)" by (metis distinct_card)
    also have "\<dots> = length jobs" using assms(3) distinct_card [of "map jobName jobs"] by simp
    finally show ?thesis by simp
  qed
  ultimately show ?thesis
    using assms(3-5) dist eq unfolding assms(2)
    by (simp add: stage_plan_of_def BuildStagePlan_def Let_def comp_def)
qed

text \<open>The jobs a stage of a pipeline may hold for the claims below.\<close>

definition schedulable :: "Job list \<Rightarrow> bool" where
  "schedulable jobs \<longleftrightarrow>
     distinct (map jobName jobs) \<and> snd ` needs_rel jobs \<subseteq> jobName ` set jobs \<and> acyclic (needs_rel jobs)"

text \<open>C5. Jobs are dispatched once and in order: while a stage of a verified pipeline runs, under every
  order and repetition of success callbacks of published jobs, no job is published twice, only jobs
  of the stage are published, and a job has been published exactly when all the jobs it needs have
  completed.\<close>

theorem stage_dispatch_order:
  assumes "stage_run (BuildStagePlan ord s p) st pub" and "range_order ord" and "schedulable (jobsForStage s p)"
  shows "distinct (map jepName pub) \<and> set pub \<subseteq> job_plan ` set (jobsForStage s p)
    \<and> (\<forall>j \<in> set (jobsForStage s p). jobName j \<in> jepName ` set pub \<longleftrightarrow>
         (\<forall>need \<in> set (jobNeeds j). map_get False (completed st) need))"
proof -
  have "stage_plan_of (jobsForStage s p) (BuildStagePlan ord s p)"
    using assms(2,3) by (intro stage_plan_of_BuildStagePlan) (simp_all add: schedulable_def)
  with assms(1) have inv: "stage_inv (jobsForStage s p) (BuildStagePlan ord s p) st pub" by (rule stage_run_inv)
  then have "map_get False (completed st) n \<longleftrightarrow> n \<in> set (keys (completed st))" for n
    by (intro marked_get) (simp add: stage_inv_def)
  with inv show ?thesis by (simp add: stage_inv_def open_needs_0 subset_eq)
qed

text \<open>C22. A stage never gets stuck and completes exactly when it should: \<open>isStageComplete\<close>, which only
  compares two counts, holds exactly when every job of the stage has completed; as long as it does not
  hold, some published job is outstanding.\<close>

theorem stage_progress_and_completion:
  assumes "stage_run (BuildStagePlan ord s p) st pub" and "range_order ord" and "schedulable (jobsForStage s p)"
  shows "(isStageComplete st \<longleftrightarrow> (\<forall>j \<in> set (jobsForStage s p). map_get False (completed st) (jobName j)))
    \<and> (isStageComplete st \<or> (\<exists>job \<in> set pub. \<not> map_get False (completed st) (jepName job)))"
proof -
  let ?jobs = "jobsForStage s p"
  have plan: "stage_plan_of ?jobs (BuildStagePlan ord s p)"
    using assms(2,3) by (intro stage_plan_of_BuildStagePlan) (simp_all add: schedulable_def)
  with assms(1) have inv: "stage_inv ?jobs (BuildStagePlan ord s p) st pub" by (rule stage_run_inv)
  then have get: "map_get False (completed st) n \<longleftrightarrow> n \<in> set (keys (completed st))" for n
    by (intro marked_get) (simp add: stage_inv_def)
  have sub: "set (keys (completed st)) \<subseteq> jobName ` set ?jobs" using inv by (force simp: stage_inv_def)
  show ?thesis
    unfolding stage_inv_complete [OF plan inv] get
    using stage_inv_progress [OF plan inv] sub by (auto simp: subset_antisym)
qed

lemma completed_markJobSucceeded:
  assumes "stage_plan_of jobs p" and "stage_inv jobs p st pub" and "name \<in> jepName ` set pub"
    and "name \<notin> set (keys (completed st))" and "markJobSucceeded name st = (newly, st')"
  shows "set (keys (completed st')) = insert name (set (keys (completed st)))"
  by (rule released_by [OF assms]) (simp add: handed_out_def)

text \<open>Every stage can be finished: from any state of a running stage of a verified pipeline, success
  callbacks of published jobs lead to a state where the stage is complete.\<close>

theorem stage_can_complete:
  assumes "stage_run (BuildStagePlan ord s p) st pub" and "range_order ord" and "schedulable (jobsForStage s p)"
  shows "\<exists>st' more. stage_run (BuildStagePlan ord s p) st' (pub @ more) \<and> isStageComplete st'"
  using assms(1)
proof (induction "card (jobName ` set (jobsForStage s p) - set (keys (completed st)))" arbitrary: st pub rule: less_induct)
  case less
  let ?jobs = "jobsForStage s p" and ?plan = "BuildStagePlan ord s p"
  have plan: "stage_plan_of ?jobs ?plan"
    using assms(2,3) by (intro stage_plan_of_BuildStagePlan) (simp_all add: schedulable_def)
  with less.prems have inv: "stage_inv ?jobs ?plan st pub" by (rule stage_run_inv)
  have sub: "set (keys (completed st)) \<subseteq> jobName ` set ?jobs" using inv by (force simp: stage_inv_def)
  show ?case
  proof (cases "isStageComplete st")
    case True
    with less.prems show ?thesis by (intro exI [of _ st] exI [of _ "[]"]) simp
  next
    case False
    then obtain job where job: "job \<in> set pub" "jepName job \<notin> set (keys (completed st))"
      using stage_inv_progress [OF plan inv] sub unfolding stage_inv_complete [OF plan inv] by blast
    obtain newly st' where mark: "markJobSucceeded (jepName job) st = (newly, st')" by fastforce
    have run: "stage_run ?plan st' (pub @ newly)"
      using less.prems job(1) mark by (intro stage_run.succeeded [of _ st pub "jepName job"]) simp_all
    have now: "set (keys (completed st')) = insert (jepName job) (set (keys (completed st)))"
      using completed_markJobSucceeded [OF plan inv _ job(2) mark] job(1) by simp
    have "jepName job \<in> jobName ` set ?jobs" using inv job(1) by (force simp: stage_inv_def)
    with now job(2) have "jobName ` set ?jobs - set (keys (completed st')) \<subset> jobName ` set ?jobs - set (keys (completed st))"
      by auto
    then have "card (jobName ` set ?jobs - set (keys (completed st'))) < card (jobName ` set ?jobs - set (keys (completed st)))"
      by (intro psubset_card_mono) simp_all
    from less.hyps [OF this run] show ?thesis by (metis append.assoc)
  qed
qed

definition demo_stage :: Pipeline where
  "demo_stage =
     (let job = (\<lambda>n needs. \<lparr>jobName = n, jobStage = ''build'', jobImage = ''alpine'', jobScript = [''true''],
                  jobNeeds = needs, jobFailures = False\<rparr>)
      in \<lparr>pipelineName = ''demo'', pipelineStages = [\<lparr>stageName = ''build''\<rparr>],
          pipelineJobs = [job ''link'' [''compile'', ''compile''], job ''compile'' []]\<rparr>)"

lemma demo_stage_jobs: "schedulable (jobsForStage ''build'' (Some demo_stage))"
proof -
  let ?jobs = "jobsForStage ''build'' (Some demo_stage)"
  have "set (scheduleJobsInStage rev ?jobs) = set ?jobs" and dist: "distinct (map jobName ?jobs)" by code_simp+
  with kahn.covers_iff [OF range_order_rev dist] show ?thesis by (simp add: schedulable_def)
qed

definition demo_start :: "JobExecutionPlan list \<times> stageState" where
  "demo_start = getReadyJobs (newStageState (BuildStagePlan rev ''build'' (Some demo_stage)))"

lemma demo_start_run: "stage_run (BuildStagePlan rev ''build'' (Some demo_stage)) (snd demo_start) (fst demo_start)"
  by (rule stage_run.start) (simp add: demo_start_def)

lemma stage_dispatch_order_witness: "map jepName (fst demo_start) = [''compile''] \<and> distinct (map jepName (fst demo_start))"
proof -
  have "map jepName (fst demo_start) = [''compile'']" by code_simp
  with stage_dispatch_order [OF demo_start_run range_order_rev demo_stage_jobs] show ?thesis by simp
qed

lemma stage_progress_and_completion_witness:
  "\<not> isStageComplete (snd demo_start)
   \<and> (\<exists>job \<in> set (fst demo_start). \<not> map_get False (completed (snd demo_start)) (jepName job))"
proof -
  have "\<not> isStageComplete (snd demo_start)" by code_simp
  with stage_progress_and_completion [OF demo_start_run range_order_rev demo_stage_jobs] show ?thesis by blast
qed

lemma stage_can_complete_witness:
  "\<exists>st' more. stage_run (BuildStagePlan rev ''build'' (Some demo_stage)) st' (fst demo_start @ more) \<and> isStageComplete st'"
  by (rule stage_can_complete [OF demo_start_run range_order_rev demo_stage_jobs])

text \<open>The count is only right for callbacks of jobs of the stage: two reports of names that are not jobs
  make this two-job stage complete although nothing ran.\<close>

lemma unknown_callbacks_complete_a_stage:
  "isStageComplete (snd (markJobSucceeded ''ghost'' (snd (markJobSucceeded ''phantom'' (snd demo_start)))))"
  by code_simp

end
