(* ===== verification/Publisher.thy ===== *)
theory Publisher
  imports Prelude "HOL-Library.Word" "HOL-Library.Multiset"
begin

text \<open>
  \<open>internal/services/orchestrator/publisher.go\<close>: the pool of queue publishers. A set of publishers is
  shared by concurrent requests, replaced when its connection is lost and closed by the last holder.
  Pointers to sets are indices into a heap; the interface \<open>mq.Publisher\<close> is the type variable, and
  dialling and opening publishers are parameters. The atomic operations and the critical sections of
  the manager's lock are the steps of an interleaving semantics with the references each request
  holds; the theory shows that no set is closed while somebody holds it and that no retired set is
  forgotten, and that publishers are used in turn.
\<close>

section \<open>Publisher sets\<close>

record 'p publisherSet =
  gen :: int
  pubs :: "'p list"
  idx :: "64 word"
  retired :: bool
  refs :: int
  closed :: bool

text \<open>\<open>atomic.Int64.Add\<close> wraps; \<open>%\<close> truncates towards zero. Indexing out of range panics (\<open>None\<close> of
  the inner option); the outer option is the nil publisher.\<close>

definition nextPublisher :: "'p publisherSet \<Rightarrow> 'p option option \<times> 'p publisherSet" where
  "nextPublisher s =
     (if pubs s = [] then (Some None, s)
      else
        let idx1 = idx s + 1; n = int (length (pubs s));
            i = sint (idx1 - 1);
            k = (if i < 0 then - ((- i) mod n) else i mod n)
        in (if 0 \<le> k then Some (Some (pubs s ! nat k)) else None, s\<lparr>idx := idx1\<rparr>))"

definition publisherSet_Close :: "'p publisherSet \<Rightarrow> 'p publisherSet" where
  "publisherSet_Close s = s\<lparr>closed := True\<rparr>"

record 'p publisherManager =
  sets :: "'p publisherSet list"
  current :: "nat option"
  stale :: "(int \<times> nat) list"
  concurrency :: int
  dials :: nat

text \<open>The outside world: the result of the \<open>n\<close>-th dial, and of opening a publisher on it. A publisher that fails to open
  makes \<open>createJobPublishers\<close> close those before it and \<open>newPublisherSet\<close> its connection, ignoring errors; these never become part of a
  set and are not in the state. Closing a set is the flag \<open>closed\<close>.\<close>

record 'p broker =
  dialResult :: "nat \<Rightarrow> goerr option"
  openResult :: "nat \<Rightarrow> nat \<Rightarrow> goerr + 'p"

fun open_publishers :: "(nat \<Rightarrow> goerr + 'p) \<Rightarrow> nat \<Rightarrow> nat list \<Rightarrow> 'p list \<Rightarrow> goerr + 'p list" where
  "open_publishers openPub howmany [] publishers = Inr publishers"
| "open_publishers openPub howmany (i # is) publishers =
     (case openPub i of
        Inl e \<Rightarrow> Inl (wrapf (''initialize job publisher '' @ Itoa (int i + 1) @ ''/'' @ Itoa (int howmany) @ '': '') e)
      | Inr p \<Rightarrow> open_publishers openPub howmany is (publishers @ [p]))"

definition createJobPublishers :: "(nat \<Rightarrow> goerr + 'p) \<Rightarrow> int \<Rightarrow> goerr + 'p list" where
  "createJobPublishers openPub howmany =
     (if howmany < 1 then Inl (Errorf ''publisher concurrency must be >= 1'')
      else open_publishers openPub (nat howmany) [0..<nat howmany] [])"

definition newPublisherSet :: "'p broker \<Rightarrow> nat \<Rightarrow> int \<Rightarrow> int \<Rightarrow> goerr + 'p publisherSet" where
  "newPublisherSet net attempt howmany g =
     (case dialResult net attempt of
        Some e \<Rightarrow> Inl (wrapf ''fail to connect RabbitMQ: '' e)
      | None \<Rightarrow>
          (case createJobPublishers (openResult net attempt) howmany of
             Inl e \<Rightarrow> Inl (wrapf ''fail to create publishers: '' e)
           | Inr publishers \<Rightarrow>
               Inr \<lparr>gen = g, pubs = publishers, idx = 0, retired = False, refs = 0, closed = False\<rparr>))"

definition newPublisherManager :: "'p broker \<Rightarrow> int \<Rightarrow> goerr + 'p publisherManager" where
  "newPublisherManager net howmany =
     (case newPublisherSet net 0 howmany 0 of
        Inl e \<Rightarrow> Inl (wrapf ''create publisher set failed: '' e)
      | Inr s \<Rightarrow> Inr \<lparr>sets = [s], current = Some 0, stale = [], concurrency = howmany, dials = 1\<rparr>)"

section \<open>The manager\<close>

definition update_set :: "nat \<Rightarrow> ('p publisherSet \<Rightarrow> 'p publisherSet) \<Rightarrow> 'p publisherManager \<Rightarrow> 'p publisherManager" where
  "update_set p f m = m\<lparr>sets := (sets m)[p := f (sets m ! p)]\<rparr>"

definition acquireCurrentSet :: "'p publisherManager \<Rightarrow> nat option \<times> 'p publisherManager" where
  "acquireCurrentSet m =
     (case current m of
        None \<Rightarrow> (None, m)
      | Some p \<Rightarrow> (Some p, update_set p (\<lambda>s. s\<lparr>refs := refs s + 1\<rparr>) m))"

text \<open>\<open>releaseSet\<close> in its two atomic parts: the decrement, and the section under the lock, which is
  entered when the count was zero and the set retired.\<close>

definition release_decrement :: "nat \<Rightarrow> 'p publisherManager \<Rightarrow> int \<times> 'p publisherManager" where
  "release_decrement p m =
     (let m1 = update_set p (\<lambda>s. s\<lparr>refs := refs s - 1\<rparr>) m in (refs (sets m1 ! p), m1))"

definition release_locked :: "nat \<Rightarrow> 'p publisherManager \<Rightarrow> 'p publisherManager" where
  "release_locked p m =
     (if retired (sets m ! p) \<and> refs (sets m ! p) = 0
      then update_set p publisherSet_Close (m\<lparr>stale := filter (\<lambda>(g, q). g \<noteq> gen (sets m ! p)) (stale m)\<rparr>)
      else m)"

definition releaseSet :: "nat \<Rightarrow> 'p publisherManager \<Rightarrow> 'p publisherManager" where
  "releaseSet p m =
     (let (r, m1) = release_decrement p m
      in if r = 0 \<and> retired (sets m1 ! p) then release_locked p m1 else m1)"

definition rebuildIfCurrent :: "'p broker \<Rightarrow> nat \<Rightarrow> 'p publisherManager \<Rightarrow> goerr option \<times> 'p publisherManager" where
  "rebuildIfCurrent net failed m =
     (if current m \<noteq> Some failed then (None, m)
      else
        let m1 = m\<lparr>dials := Suc (dials m)\<rparr> in
        case newPublisherSet net (dials m) (concurrency m) (gen (sets m ! failed) + 1) of
          Inl e \<Rightarrow> (Some (wrapf ''create publisher set failed: '' e), m1)
        | Inr newSet \<Rightarrow>
            (None, (update_set failed (\<lambda>s. s\<lparr>retired := True\<rparr>) m1)
               \<lparr>stale := (gen (sets m ! failed), failed) # filter (\<lambda>(g, q). g \<noteq> gen (sets m ! failed)) (stale m),
                sets := sets (update_set failed (\<lambda>s. s\<lparr>retired := True\<rparr>) m1) @ [newSet],
                current := Some (length (sets m))\<rparr>))"

text \<open>The section of \<open>Close\<close> under the lock: the current set is retired, and the stale sets nobody
  holds are taken out to be closed after the lock is released.\<close>

definition retire_current :: "'p publisherManager \<Rightarrow> 'p publisherManager" where
  "retire_current m =
     (case current m of
        None \<Rightarrow> m
      | Some p \<Rightarrow>
          (update_set p (\<lambda>s. s\<lparr>retired := True\<rparr>) m)
            \<lparr>stale := (gen (sets m ! p), p) # filter (\<lambda>(g, q). g \<noteq> gen (sets m ! p)) (stale m), current := None\<rparr>)"

definition close_locked :: "'p publisherManager \<Rightarrow> nat list \<times> 'p publisherManager" where
  "close_locked m =
     (let m1 = retire_current m; idle = (\<lambda>(g, p). refs (sets m1 ! p) = 0)
      in (map snd (filter idle (stale m1)), m1\<lparr>stale := filter (\<lambda>e. \<not> idle e) (stale m1)\<rparr>))"

definition manager_Close :: "'p publisherManager \<Rightarrow> 'p publisherManager" where
  "manager_Close m = (let (ps, m1) = close_locked m in fold (\<lambda>p. update_set p publisherSet_Close) ps m1)"

definition loadPublisherConcurrency :: "(string \<Rightarrow> goerr + int) \<Rightarrow> string \<Rightarrow> int" where
  "loadPublisherConcurrency Atoi env =
     (let raw = TrimSpace env in
      if raw = '''' then 1
      else (case Atoi raw of Inl _ \<Rightarrow> 1 | Inr v \<Rightarrow> if v < 1 then 1 else v))"

section \<open>Taking turns\<close>

lemma length_open_publishers:
  "open_publishers openPub howmany is acc = Inr ps \<Longrightarrow> length ps = length acc + length is"
  by (induction "is" arbitrary: acc) (fastforce split: sum.splits)+

text \<open>C25. Publishers take turns: on a set with at least one publisher, the call with counter value \<open>k\<close>
  uses publisher \<open>k mod n\<close>, as long as the 64-bit counter has not passed its maximum; after that the
  index is negative and the call panics unless \<open>n\<close> divides it.\<close>

theorem nextPublisher_round_robin:
  assumes "pubs s \<noteq> []"
  shows "fst (nextPublisher s) =
    (if 0 \<le> sint (idx s) then Some (Some (pubs s ! (unat (idx s) mod length (pubs s))))
     else if int (length (pubs s)) dvd sint (idx s) then Some (Some (pubs s ! 0)) else None)
    \<and> idx (snd (nextPublisher s)) = idx s + 1"
proof -
  let ?i = "sint (idx s)" and ?n = "int (length (pubs s))"
  have n: "0 < ?n" using assms by simp
  have "nat (?i mod ?n) = unat (idx s) mod length (pubs s)" if "0 \<le> ?i"
  proof -
    have "?i < 2 ^ 64" using sint_lt [of "idx s"] by simp
    with that have "uint (idx s) = ?i" by (simp add: uint_sint take_bit_int_eq_self)
    then have "?i = int (unat (idx s))" by simp
    then show ?thesis by (simp add: nat_mod_distrib)
  qed
  moreover have "0 \<le> - ((- ?i) mod ?n) \<longleftrightarrow> ?n dvd ?i"
    using pos_mod_sign [OF n, of "- ?i"] by (auto simp: mod_eq_0_iff_dvd order_antisym_conv dest: antisym)
  ultimately show ?thesis using assms n by (auto simp: nextPublisher_def Let_def)
qed

lemma nextPublisher_round_robin_witness:
  "fst (nextPublisher \<lparr>gen = 0, pubs = [''p0'', ''p1'', ''p2''], idx = 7, retired = False, refs = 1, closed = False\<rparr>)
     = Some (Some ''p1'')
   \<and> fst (nextPublisher \<lparr>gen = 0, pubs = [''p0'', ''p1'', ''p2''], idx = 0x8000000000000000, retired = False, refs = 1,
        closed = False\<rparr>) = None"
  using nextPublisher_round_robin [of "\<lparr>gen = 0, pubs = [''p0'', ''p1'', ''p2''], idx = 7, retired = False, refs = 1, closed = False\<rparr>"]
    nextPublisher_round_robin [of "\<lparr>gen = 0, pubs = [''p0'', ''p1'', ''p2''], idx = 0x8000000000000000, retired = False,
      refs = 1, closed = False\<rparr>"]
  by simp

section \<open>Interleavings\<close>

text \<open>
  Besides the manager: the references requests hold, the requests between their decrement to zero and
  the locked section of \<open>releaseSet\<close>, and the sets \<open>Close\<close> has taken out and not closed yet. A request
  calls \<open>rebuildIfCurrent\<close> only on a set it holds (\<open>enqueueJob\<close>).
\<close>

record 'p pm_system =
  mgr :: "'p publisherManager"
  held :: "nat multiset"
  leaving :: "nat multiset"
  closing :: "nat multiset"

inductive pm_step :: "'p broker \<Rightarrow> 'p pm_system \<Rightarrow> 'p pm_system \<Rightarrow> bool" for net :: "'p broker" where
  acquire: "acquireCurrentSet (mgr s) = (Some p, m) \<Longrightarrow>
    pm_step net s (s\<lparr>mgr := m, held := add_mset p (held s)\<rparr>)"
| decrement: "p \<in># held s \<Longrightarrow> release_decrement p (mgr s) = (r, m) \<Longrightarrow>
    pm_step net s (s\<lparr>mgr := m, held := held s - {#p#},
      leaving := (if r = 0 then add_mset p (leaving s) else leaving s)\<rparr>)"
| leave: "p \<in># leaving s \<Longrightarrow> \<not> retired (sets (mgr s) ! p) \<Longrightarrow>
    pm_step net s (s\<lparr>leaving := leaving s - {#p#}\<rparr>)"
| locked: "p \<in># leaving s \<Longrightarrow> retired (sets (mgr s) ! p) \<Longrightarrow>
    pm_step net s (s\<lparr>mgr := release_locked p (mgr s), leaving := leaving s - {#p#}\<rparr>)"
| rebuild: "p \<in># held s \<Longrightarrow> rebuildIfCurrent net p (mgr s) = (r, m) \<Longrightarrow> pm_step net s (s\<lparr>mgr := m\<rparr>)"
| shutdown: "close_locked (mgr s) = (ps, m) \<Longrightarrow> pm_step net s (s\<lparr>mgr := m, closing := closing s + mset ps\<rparr>)"
| close_one: "p \<in># closing s \<Longrightarrow>
    pm_step net s (s\<lparr>mgr := update_set p publisherSet_Close (mgr s), closing := closing s - {#p#}\<rparr>)"

inductive pm_reachable :: "'p broker \<Rightarrow> int \<Rightarrow> 'p pm_system \<Rightarrow> bool" for net :: "'p broker" and n :: int where
  init: "newPublisherManager net n = Inr m \<Longrightarrow>
    pm_reachable net n \<lparr>mgr = m, held = {#}, leaving = {#}, closing = {#}\<rparr>"
| step: "pm_reachable net n s \<Longrightarrow> pm_step net s s' \<Longrightarrow> pm_reachable net n s'"

text \<open>What holds of one set, given whether it is current, how often it is held, and whether a request is
  leaving it or \<open>Close\<close> is about to close it.\<close>

definition set_ok :: "'p publisherSet \<Rightarrow> bool \<Rightarrow> nat \<Rightarrow> bool \<Rightarrow> bool \<Rightarrow> bool" where
  "set_ok x is_current holders is_left is_closing \<longleftrightarrow>
     refs x = int holders \<and> (retired x \<longleftrightarrow> \<not> is_current) \<and> (closed x \<longrightarrow> retired x \<and> holders = 0)
     \<and> (retired x \<and> \<not> closed x \<longrightarrow> 0 < holders \<or> is_left \<or> is_closing) \<and> (is_closing \<longrightarrow> retired x \<and> holders = 0)"

definition pm_inv :: "'p pm_system \<Rightarrow> bool" where
  "pm_inv s \<longleftrightarrow>
     (\<forall>p. p \<in># held s \<or> p \<in># leaving s \<or> p \<in># closing s \<longrightarrow> p < length (sets (mgr s)))
     \<and> (\<forall>p \<in> snd ` set (stale (mgr s)). p < length (sets (mgr s)) \<and> retired (sets (mgr s) ! p))
     \<and> (\<forall>p. current (mgr s) = Some p \<longrightarrow> p < length (sets (mgr s)))
     \<and> (\<forall>p < length (sets (mgr s)). set_ok (sets (mgr s) ! p) (current (mgr s) = Some p) (count (held s) p)
          (p \<in># leaving s) (p \<in># closing s))"

lemma pm_invD:
  assumes "pm_inv s"
  shows "p \<in># held s \<Longrightarrow> p < length (sets (mgr s))" "p \<in># leaving s \<Longrightarrow> p < length (sets (mgr s))"
    "p \<in># closing s \<Longrightarrow> p < length (sets (mgr s))" "current (mgr s) = Some p \<Longrightarrow> p < length (sets (mgr s))"
    "p \<in> snd ` set (stale (mgr s)) \<Longrightarrow> p < length (sets (mgr s)) \<and> retired (sets (mgr s) ! p)"
    "p < length (sets (mgr s)) \<Longrightarrow>
      set_ok (sets (mgr s) ! p) (current (mgr s) = Some p) (count (held s) p) (p \<in># leaving s) (p \<in># closing s)"
  using assms unfolding pm_inv_def by blast+

lemma nth_update_set:
  "p < length (sets m) \<Longrightarrow> q < length (sets m) \<Longrightarrow>
   sets (update_set p f m) ! q = (if q = p then f (sets m ! p) else sets m ! q)"
  by (simp add: update_set_def nth_list_update)

lemma length_update_set [simp]: "length (sets (update_set p f m)) = length (sets m)"
  and update_set_simps [simp]: "current (update_set p f m) = current m" "stale (update_set p f m) = stale m"
  by (simp_all add: update_set_def)

lemma pm_inv_init:
  assumes "newPublisherManager net n = Inr m"
  shows "pm_inv \<lparr>mgr = m, held = {#}, leaving = {#}, closing = {#}\<rparr>"
proof -
  obtain s where "newPublisherSet net 0 n 0 = Inr s" "m = \<lparr>sets = [s], current = Some 0, stale = [], concurrency = n, dials = 1\<rparr>"
    using assms by (auto simp: newPublisherManager_def split: sum.splits)
  moreover from this(1) have "refs s = 0" "\<not> retired s" "\<not> closed s"
    by (auto simp: newPublisherSet_def split: option.splits sum.splits)
  ultimately show ?thesis by (simp add: pm_inv_def set_ok_def)
qed

text \<open>To keep the invariant, a step keeps pointers valid and every set in order.\<close>

lemma pm_invI:
  assumes "\<And>p. p \<in># held s \<Longrightarrow> p < length (sets (mgr s))" "\<And>p. p \<in># leaving s \<Longrightarrow> p < length (sets (mgr s))"
    "\<And>p. p \<in># closing s \<Longrightarrow> p < length (sets (mgr s))" "\<And>p. current (mgr s) = Some p \<Longrightarrow> p < length (sets (mgr s))"
    "\<And>p. p \<in> snd ` set (stale (mgr s)) \<Longrightarrow> p < length (sets (mgr s)) \<and> retired (sets (mgr s) ! p)"
    "\<And>p. p < length (sets (mgr s)) \<Longrightarrow>
      set_ok (sets (mgr s) ! p) (current (mgr s) = Some p) (count (held s) p) (p \<in># leaving s) (p \<in># closing s)"
  shows "pm_inv s"
  using assms unfolding pm_inv_def by blast

abbreviation (input) ok_at :: "'p pm_system \<Rightarrow> nat \<Rightarrow> bool" where
  "ok_at s p \<equiv> set_ok (sets (mgr s) ! p) (current (mgr s) = Some p) (count (held s) p) (p \<in># leaving s) (p \<in># closing s)"

lemma pm_inv_acquire:
  assumes inv: "pm_inv s" and acq: "acquireCurrentSet (mgr s) = (Some p, m)"
  shows "pm_inv (s\<lparr>mgr := m, held := add_mset p (held s)\<rparr>)" (is "pm_inv ?t")
proof -
  have cur: "current (mgr s) = Some p" and m: "m = update_set p (\<lambda>x. x\<lparr>refs := refs x + 1\<rparr>) (mgr s)"
    using acq by (auto simp: acquireCurrentSet_def split: option.splits)
  have p: "p < length (sets (mgr s))" using pm_invD(4) [OF inv cur] .
  show ?thesis
  proof (rule pm_invI)
    show "ok_at ?t q" if "q < length (sets (mgr ?t))" for q
      using that pm_invD(6) [OF inv, of q] p cur by (auto simp: m nth_update_set set_ok_def)
    show "q < length (sets (mgr ?t)) \<and> retired (sets (mgr ?t) ! q)" if "q \<in> snd ` set (stale (mgr ?t))" for q
      using that pm_invD(5) [OF inv, of q] p by (auto simp: m nth_update_set)
  qed (use pm_invD [OF inv] p in \<open>auto simp: m\<close>)
qed

lemma pm_inv_decrement:
  assumes inv: "pm_inv s" and held: "p \<in># held s" and dec: "release_decrement p (mgr s) = (r, m)"
  shows "pm_inv (s\<lparr>mgr := m, held := held s - {#p#},
      leaving := (if r = 0 then add_mset p (leaving s) else leaving s)\<rparr>)" (is "pm_inv ?t")
proof -
  have p: "p < length (sets (mgr s))" using pm_invD(1) [OF inv held] .
  have m: "m = update_set p (\<lambda>x. x\<lparr>refs := refs x - 1\<rparr>) (mgr s)" and r: "r = refs (sets (mgr s) ! p) - 1"
    using dec p by (auto simp: release_decrement_def Let_def nth_update_set)
  have pos: "0 < count (held s) p" using held by simp
  show ?thesis
  proof (rule pm_invI)
    show "ok_at ?t q" if "q < length (sets (mgr ?t))" for q
      using that pm_invD(6) [OF inv, of q] pm_invD(6) [OF inv p] p pos r
      by (cases "q = p") (auto simp: m nth_update_set set_ok_def simp del: count_greater_zero_iff)
    show "q < length (sets (mgr ?t)) \<and> retired (sets (mgr ?t) ! q)" if "q \<in> snd ` set (stale (mgr ?t))" for q
      using that pm_invD(5) [OF inv, of q] p by (auto simp: m nth_update_set)
  qed (use pm_invD [OF inv] p in \<open>auto simp: m dest: in_diffD split: if_splits\<close>)
qed

lemma in_remove_other: "q \<noteq> p \<Longrightarrow> q \<in># M - {#p#} \<longleftrightarrow> q \<in># M"
  by (simp add: in_diff_count)

lemma pm_inv_leave:
  assumes inv: "pm_inv s" and "\<not> retired (sets (mgr s) ! p)"
  shows "pm_inv (s\<lparr>leaving := leaving s - {#p#}\<rparr>)" (is "pm_inv ?t")
proof (rule pm_invI)
  show "ok_at ?t q" if "q < length (sets (mgr ?t))" for q
    using that pm_invD(6) [OF inv, of q] assms(2) in_remove_other [of q p] by (cases "q = p") (auto simp: set_ok_def)
qed (use pm_invD [OF inv] in \<open>auto dest: in_diffD\<close>)

lemma pm_inv_locked:
  assumes inv: "pm_inv s" and left: "p \<in># leaving s" and ret: "retired (sets (mgr s) ! p)"
  shows "pm_inv (s\<lparr>mgr := release_locked p (mgr s), leaving := leaving s - {#p#}\<rparr>)" (is "pm_inv ?t")
proof -
  have p: "p < length (sets (mgr s))" using pm_invD(2) [OF inv left] .
  have same: "length (sets (release_locked p (mgr s))) = length (sets (mgr s))"
      "current (release_locked p (mgr s)) = current (mgr s)"
      "set (stale (release_locked p (mgr s))) \<subseteq> set (stale (mgr s))"
    by (auto simp: release_locked_def update_set_def)
  have at: "sets (release_locked p (mgr s)) ! q =
      (if q = p \<and> refs (sets (mgr s) ! p) = 0 then publisherSet_Close (sets (mgr s) ! p) else sets (mgr s) ! q)"
    if "q < length (sets (mgr s))" for q
    using that p ret by (auto simp: release_locked_def update_set_def nth_list_update)
  show ?thesis
  proof (rule pm_invI)
    show "ok_at ?t q" if "q < length (sets (mgr ?t))" for q
      using that pm_invD(6) [OF inv, of q] ret in_remove_other [of q p]
      by (cases "q = p") (auto simp: same at set_ok_def publisherSet_Close_def)
    show "q < length (sets (mgr ?t)) \<and> retired (sets (mgr ?t) ! q)" if "q \<in> snd ` set (stale (mgr ?t))" for q
    proof -
      have "q \<in> snd ` set (stale (mgr s))" using that same(3) by auto
      with pm_invD(5) [OF inv this] show ?thesis by (auto simp: same at publisherSet_Close_def)
    qed
  qed (use pm_invD [OF inv] in \<open>auto simp: same dest: in_diffD\<close>)
qed

lemma pm_inv_close_one:
  assumes inv: "pm_inv s" and c: "p \<in># closing s"
  shows "pm_inv (s\<lparr>mgr := update_set p publisherSet_Close (mgr s), closing := closing s - {#p#}\<rparr>)" (is "pm_inv ?t")
proof -
  have p: "p < length (sets (mgr s))" using pm_invD(3) [OF inv c] .
  show ?thesis
  proof (rule pm_invI)
    show "ok_at ?t q" if "q < length (sets (mgr ?t))" for q
      using that pm_invD(6) [OF inv, of q] p c in_remove_other [of q p]
      by (cases "q = p") (auto simp: nth_update_set set_ok_def publisherSet_Close_def)
    show "q < length (sets (mgr ?t)) \<and> retired (sets (mgr ?t) ! q)" if "q \<in> snd ` set (stale (mgr ?t))" for q
      using that pm_invD(5) [OF inv, of q] p by (auto simp: nth_update_set publisherSet_Close_def)
  qed (use pm_invD [OF inv] in \<open>auto dest: in_diffD\<close>)
qed

lemma newPublisherSet_fresh:
  "newPublisherSet net k n g = Inr x \<Longrightarrow> refs x = 0 \<and> \<not> retired x \<and> \<not> closed x"
  by (auto simp: newPublisherSet_def split: option.splits sum.splits)

lemma pm_inv_rebuild:
  assumes inv: "pm_inv s" and held: "p \<in># held s" and reb: "rebuildIfCurrent net p (mgr s) = (r, m)"
  shows "pm_inv (s\<lparr>mgr := m\<rparr>)" (is "pm_inv ?t")
proof (cases "current (mgr s) = Some p \<and> sets m \<noteq> sets (mgr s)")
  case True
  let ?ss = "sets (mgr s)"
  obtain x where x: "newPublisherSet net (dials (mgr s)) (concurrency (mgr s)) (gen (?ss ! p) + 1) = Inr x"
      and m: "sets m = ?ss[p := (?ss ! p)\<lparr>retired := True\<rparr>] @ [x]" "current m = Some (length ?ss)"
        "stale m = (gen (?ss ! p), p) # filter (\<lambda>(g, q). g \<noteq> gen (?ss ! p)) (stale (mgr s))"
    using reb True by (auto simp: rebuildIfCurrent_def update_set_def Let_def split: sum.splits)
  have p: "p < length ?ss" using pm_invD(1) [OF inv held] .
  have pos: "0 < count (held s) p" using held by simp
  have new: "length ?ss \<notin># held s" "length ?ss \<notin># leaving s" "length ?ss \<notin># closing s"
    using pm_invD(1-3) [OF inv, of "length ?ss"] by auto
  have at: "sets m ! q = (if q = length ?ss then x else if q = p then (?ss ! p)\<lparr>retired := True\<rparr> else ?ss ! q)"
    if "q < Suc (length ?ss)" for q
    using that p by (auto simp: m nth_append nth_list_update less_Suc_eq)
  show ?thesis
  proof (rule pm_invI)
    show "ok_at ?t q" if q: "q < length (sets (mgr ?t))" for q
    proof (cases "q = length ?ss")
      case True
      have "count (held s) (length ?ss) = 0" using new(1) by (simp add: not_in_iff)
      with True newPublisherSet_fresh [OF x] new show ?thesis by (simp add: at m(2) set_ok_def)
    next
      case False
      then have q': "q < length ?ss" using q by (simp add: m(1))
      have cur: "current (mgr s) = Some p" using True by simp
      show ?thesis
        using pm_invD(6) [OF inv q'] q' cur pos False
        by (cases "q = p") (auto simp: at m(2) set_ok_def simp del: count_greater_zero_iff)
    qed
    show "q < length (sets (mgr ?t)) \<and> retired (sets (mgr ?t) ! q)" if "q \<in> snd ` set (stale (mgr ?t))" for q
    proof -
      have "q = p \<or> q \<in> snd ` set (stale (mgr s))" using that by (auto simp: m(3))
      then have "q < length ?ss \<and> (q = p \<or> retired (?ss ! q))" using pm_invD(5) [OF inv, of q] p by blast
      then show ?thesis by (cases "q = p") (auto simp: m(1) nth_append)
    qed
  qed (use pm_invD [OF inv] in \<open>auto simp: m less_SucI\<close>)
next
  case False
  then have "sets m = sets (mgr s) \<and> current m = current (mgr s) \<and> stale m = stale (mgr s)"
    using reb by (auto simp: rebuildIfCurrent_def update_set_def Let_def split: if_splits sum.splits dest: arg_cong [of _ _ length])
  with inv show ?thesis by (simp add: pm_inv_def)
qed

lemma pm_inv_shutdown:
  assumes inv: "pm_inv s" and close: "close_locked (mgr s) = (ps, m)"
  shows "pm_inv (s\<lparr>mgr := m, closing := closing s + mset ps\<rparr>)" (is "pm_inv ?t")
proof -
  let ?m1 = "retire_current (mgr s)"
  have ps: "set ps = {p \<in> snd ` set (stale ?m1). refs (sets ?m1 ! p) = 0}"
      and m: "sets m = sets ?m1" "current m = None" "set (stale m) \<subseteq> set (stale ?m1)"
  proof -
    have none: "current ?m1 = None" by (simp add: retire_current_def split: option.split)
    have eqs: "ps = map snd (filter (\<lambda>(g, p). refs (sets ?m1 ! p) = 0) (stale ?m1))"
        "m = ?m1\<lparr>stale := filter (\<lambda>e. \<not> (case e of (g, p) \<Rightarrow> refs (sets ?m1 ! p) = 0)) (stale ?m1)\<rparr>"
      using close by (simp_all add: close_locked_def Let_def)
    show "set ps = {p \<in> snd ` set (stale ?m1). refs (sets ?m1 ! p) = 0}" unfolding eqs by force
    show "sets m = sets ?m1" "current m = None" "set (stale m) \<subseteq> set (stale ?m1)" unfolding eqs using none by auto
  qed
  have len: "length (sets ?m1) = length (sets (mgr s))"
    by (simp add: retire_current_def split: option.split)
  have at: "sets ?m1 ! q = (if current (mgr s) = Some q then (sets (mgr s) ! q)\<lparr>retired := True\<rparr> else sets (mgr s) ! q)"
    if "q < length (sets (mgr s))" for q
    using that by (auto simp: retire_current_def update_set_def nth_list_update split: option.split)
  have stale: "q < length (sets (mgr s)) \<and> retired (sets ?m1 ! q)" if "q \<in> snd ` set (stale ?m1)" for q
  proof -
    have "current (mgr s) = Some q \<or> q \<in> snd ` set (stale (mgr s))"
      using that by (auto simp: retire_current_def split: option.splits)
    then have "q < length (sets (mgr s)) \<and> (current (mgr s) = Some q \<or> retired (sets (mgr s) ! q))"
      using pm_invD(4) [OF inv, of q] pm_invD(5) [OF inv, of q] by blast
    then show ?thesis by (auto simp: at)
  qed
  have cur_stale: "q \<in> snd ` set (stale ?m1)" if "current (mgr s) = Some q" for q
    using that by (force simp: retire_current_def)
  show ?thesis
  proof (rule pm_invI)
    show "ok_at ?t q" if q: "q < length (sets (mgr ?t))" for q
    proof -
      have q': "q < length (sets (mgr s))" using q by (simp add: m len)
      have ok: "ok_at s q" by (rule pm_invD(6) [OF inv q'])
      have in_ps: "q \<in> set ps \<longleftrightarrow> q \<in> snd ` set (stale ?m1) \<and> refs (sets (mgr s) ! q) = 0"
        using ps q' by (auto simp: at)
      show ?thesis
      proof (cases "current (mgr s) = Some q")
        case True
        then have "q \<in> set ps \<longleftrightarrow> refs (sets (mgr s) ! q) = 0" using in_ps cur_stale [OF True] by blast
        with True ok show ?thesis by (auto simp: m at q' set_ok_def simp del: count_greater_zero_iff)
      next
        case False
        have "retired (sets (mgr s) ! q)" using ok False by (simp add: set_ok_def)
        with False ok in_ps show ?thesis by (auto simp: m at q' set_ok_def simp del: count_greater_zero_iff)
      qed
    qed
    show "q < length (sets (mgr ?t)) \<and> retired (sets (mgr ?t) ! q)" if "q \<in> snd ` set (stale (mgr ?t))" for q
      using that m(3) stale [of q] by (auto simp: m(1) len)
    show "q < length (sets (mgr ?t))" if "q \<in># closing ?t" for q
      using that ps stale [of q] pm_invD(3) [OF inv, of q] by (auto simp: m(1) len)
  qed (use pm_invD(1,2) [OF inv] in \<open>auto simp: m len\<close>)
qed

lemma pm_inv_step: "pm_step net s s' \<Longrightarrow> pm_inv s \<Longrightarrow> pm_inv s'"
  by (induction rule: pm_step.induct)
    (blast intro: pm_inv_acquire pm_inv_decrement pm_inv_leave pm_inv_locked pm_inv_rebuild pm_inv_shutdown
      pm_inv_close_one)+

lemma pm_reachable_inv: "pm_reachable net n s \<Longrightarrow> pm_inv s"
  by (induction rule: pm_reachable.induct) (blast intro: pm_inv_init pm_inv_step)+

section \<open>Safety and cleanup\<close>

text \<open>C12. No connection is pulled away: in every interleaving of requests, reconnects and shutdown, a
  publisher set that some request still holds has not been closed, and neither has the current one.\<close>

theorem held_sets_stay_open:
  assumes "pm_reachable net n s" and "p \<in># held s \<or> current (mgr s) = Some p"
  shows "\<not> closed (sets (mgr s) ! p) \<and> p < length (sets (mgr s))"
proof -
  have inv: "pm_inv s" using assms(1) by (rule pm_reachable_inv)
  have p: "p < length (sets (mgr s))" using assms(2) pm_invD(1,4) [OF inv] by blast
  with pm_invD(6) [OF inv p] assms(2) show ?thesis
    by (auto simp: set_ok_def simp flip: count_greater_zero_iff)
qed

text \<open>C24. No connection is leaked: whenever no request holds or is leaving a set and no shutdown is half
  done, every replaced set has been closed, and after shutdown all sets have.\<close>

theorem retired_sets_get_closed:
  assumes "pm_reachable net n s" and "held s = {#}" and "leaving s = {#}" and "closing s = {#}"
    and "p < length (sets (mgr s))" and "current (mgr s) \<noteq> Some p"
  shows "closed (sets (mgr s) ! p)"
  using pm_invD(6) [OF pm_reachable_inv [OF assms(1)] assms(5)] assms(2-4,6) by (auto simp: set_ok_def)

definition demo_broker :: "string broker" where
  "demo_broker = \<lparr>dialResult = (\<lambda>_. None), openResult = (\<lambda>d i. Inr (''pub'' @ Itoa (int i)))\<rparr>"

text \<open>One request acquires the first set and its connection is lost: the set is replaced, released and
  closed.\<close>

definition demo_manager :: "string publisherManager" where
  "demo_manager = (case newPublisherManager demo_broker 2 of Inr m \<Rightarrow> m)"

definition demo_rebuilt :: "string pm_system" where
  "demo_rebuilt = \<lparr>mgr = snd (rebuildIfCurrent demo_broker 0 (snd (acquireCurrentSet demo_manager))),
     held = {#0#}, leaving = {#}, closing = {#}\<rparr>"

definition demo_released :: "string pm_system" where
  "demo_released = \<lparr>mgr = release_locked 0 (snd (release_decrement 0 (mgr demo_rebuilt))),
     held = {#}, leaving = {#}, closing = {#}\<rparr>"

lemma demo_rebuilt_reachable: "pm_reachable demo_broker 2 demo_rebuilt"
proof -
  let ?s0 = "\<lparr>mgr = demo_manager, held = {#}, leaving = {#}, closing = {#}\<rparr>"
  let ?s1 = "\<lparr>mgr = snd (acquireCurrentSet demo_manager), held = {#0#}, leaving = {#}, closing = {#}\<rparr>"
  have "newPublisherManager demo_broker 2 = Inr demo_manager"
    by (simp add: demo_manager_def newPublisherManager_def newPublisherSet_def demo_broker_def createJobPublishers_def
        numeral_2_eq_2)
  then have 0: "pm_reachable demo_broker 2 ?s0" by (rule pm_reachable.init)
  have "fst (acquireCurrentSet demo_manager) = Some 0" by code_simp
  then have "acquireCurrentSet (mgr ?s0) = (Some 0, snd (acquireCurrentSet demo_manager))"
    by (metis pm_system.select_convs(1) prod.collapse)
  from pm_step.acquire [OF this] have "pm_step demo_broker ?s0 ?s1" by simp
  with 0 have 1: "pm_reachable demo_broker 2 ?s1" by (rule pm_reachable.step)
  have "pm_step demo_broker ?s1 (?s1\<lparr>mgr := snd (rebuildIfCurrent demo_broker 0 (mgr ?s1))\<rparr>)"
    by (rule pm_step.rebuild [of 0 _ _ "fst (rebuildIfCurrent demo_broker 0 (mgr ?s1))"]) simp_all
  with 1 show ?thesis by (auto simp: demo_rebuilt_def intro: pm_reachable.step)
qed

lemma demo_released_reachable: "pm_reachable demo_broker 2 demo_released"
proof -
  let ?m = "snd (release_decrement 0 (mgr demo_rebuilt))"
  let ?s = "demo_rebuilt\<lparr>mgr := ?m, held := {#}, leaving := {#0#}\<rparr>"
  have "fst (release_decrement 0 (mgr demo_rebuilt)) = 0" by code_simp
  then have dec: "release_decrement 0 (mgr demo_rebuilt) = (0, ?m)" by (metis prod.collapse)
  have "0 \<in># held demo_rebuilt" by (simp add: demo_rebuilt_def)
  from pm_step.decrement [OF this dec] have "pm_step demo_broker demo_rebuilt ?s"
    by (simp add: demo_rebuilt_def)
  with demo_rebuilt_reachable have 1: "pm_reachable demo_broker 2 ?s" by (rule pm_reachable.step)
  have "retired (sets ?m ! 0)" by code_simp
  then have "pm_step demo_broker ?s (?s\<lparr>mgr := release_locked 0 (mgr ?s), leaving := leaving ?s - {#0#}\<rparr>)"
    by (intro pm_step.locked) simp_all
  with 1 have "pm_reachable demo_broker 2 (?s\<lparr>mgr := release_locked 0 (mgr ?s), leaving := leaving ?s - {#0#}\<rparr>)"
    by (rule pm_reachable.step)
  then show ?thesis by (simp add: demo_released_def demo_rebuilt_def)
qed

lemma held_sets_stay_open_witness: "\<not> closed (sets (mgr demo_rebuilt) ! 0) \<and> retired (sets (mgr demo_rebuilt) ! 0)"
proof -
  have "retired (sets (mgr demo_rebuilt) ! 0)" by code_simp
  with held_sets_stay_open [OF demo_rebuilt_reachable, of 0] show ?thesis by (simp add: demo_rebuilt_def)
qed

lemma retired_sets_get_closed_witness: "closed (sets (mgr demo_released) ! 0)"
proof -
  have "0 < length (sets (mgr demo_released))" "current (mgr demo_released) = Some 1" by code_simp+
  then show ?thesis
    using retired_sets_get_closed [OF demo_released_reachable, of 0] by (simp add: demo_released_def)
qed

end
