(* ===== verification/Orchestrator.thy ===== *)
theory Orchestrator
  imports Verifier Store Stage_State Publisher
begin

text \<open>
  \<open>internal/services/orchestrator\<close>: runs. A request is validated, planned and recorded, its first
  ready jobs are published to the queue, and the callbacks of workers release dependents, advance
  stages and finish the run. The state is the database, the runtimes in memory (objects with
  pointers, as the dispatching goroutine and the map share them), the publisher pool, the broker and
  the clock. The validation service, YAML and JSON decoding, SHA-256, the broker behind a publisher
  and map iteration orders are parameters. Handlers are atomic steps.
\<close>

section \<open>Runtime state\<close>

record runInfo =
  riRepoURL :: string
  riBranch :: string
  riCommit :: string
  riWorkspacePath :: string

record pipelineRuntime =
  rtPipeline :: string
  rtRunNo :: int
  stageOrder :: "string list"
  stageStates :: "stageState gomap"
  rtRunInfo :: runInfo
  pipelineStart :: int
  jobStartTimes :: "((string \<times> string) \<times> int) list"
  executionPlan :: ExecutionPlan

record PipelinePlan =
  ppPipeline :: Pipeline
  ppExecutionPlan :: ExecutionPlan

record ('p, 'n) world =
  wdb :: db
  objects :: "pipelineRuntime list"
  runtimes :: "nat gomap"
  manager :: "'p publisherManager"
  network :: 'n
  clock :: int
  goroutines :: "nat list"

text \<open>What the handlers use and do not define.\<close>

record ('p, 'n) env =
  eColl :: "string \<Rightarrow> string"
  eIsolation :: isolation
  eBetween :: "db \<Rightarrow> db"
  eBroker :: "'p broker"
  ePublishJob :: "'p \<Rightarrow> JobExecutionMessage \<Rightarrow> ('n, unit) op"
  eRangePlan :: "string list \<Rightarrow> string list"
  eRangeStage :: "string list \<Rightarrow> string list"
  eTraceID :: string
  eSha256 :: "string \<Rightarrow> string"
  eUnmarshal :: "string \<Rightarrow> goerr + yaml_node"
  eMarshalValidate :: "string \<Rightarrow> goerr + string"
  eNewValidateRequest :: "goerr option"
  ePostValidate :: "string \<Rightarrow> goerr + int \<times> (goerr + string)"
  eDecodeValidate :: "string \<Rightarrow> goerr + ValidateResponse"

type_synonym ('p, 'n, 'a) handler = "(('p, 'n) world, 'a) op"

definition with_db :: "'a stmt \<Rightarrow> ('p, 'n, 'a) handler" where
  "with_db m w = (case m (wdb w) of (r, d) \<Rightarrow> (r, w\<lparr>wdb := d\<rparr>))"

definition time_Now :: "('p, 'n, int) handler" where
  "time_Now w = (Inr (clock w), w\<lparr>clock := clock w + 1\<rparr>)"

definition newRunInfo :: "RunRequest \<Rightarrow> runInfo" where
  "newRunInfo req =
     \<lparr>riRepoURL = rqRepoURL req, riBranch = rqBranch req, riCommit = rqCommit req,
      riWorkspacePath = rqWorkspacePath req\<rparr>"

definition buildRunRequestKey :: "(string \<Rightarrow> string) \<Rightarrow> RunRequest \<Rightarrow> string \<Rightarrow> string" where
  "buildRunRequestKey sha256 req pname =
     sha256 (Join [pname, rqYAMLContent req, TrimSpace (rqBranch req), TrimSpace (rqCommit req),
       TrimSpace (rqRepoURL req)] [CHR 0x0A])"

definition runtimeKey :: "string \<Rightarrow> int \<Rightarrow> string" where
  "runtimeKey pipeline runNo = pipeline @ '':'' @ Itoa runNo"

definition putRuntime :: "nat \<Rightarrow> ('p, 'n) world \<Rightarrow> ('p, 'n) world" where
  "putRuntime ptr w =
     (let rt = objects w ! ptr
      in w\<lparr>runtimes := map_set (runtimeKey (rtPipeline rt) (rtRunNo rt)) ptr (runtimes w)\<rparr>)"

definition getPipelineRuntime :: "string \<Rightarrow> int \<Rightarrow> ('p, 'n) world \<Rightarrow> nat option" where
  "getPipelineRuntime pipeline runNo w = map_of (runtimes w) (runtimeKey pipeline runNo)"

definition deleteRuntime :: "string \<Rightarrow> int \<Rightarrow> ('p, 'n) world \<Rightarrow> ('p, 'n) world" where
  "deleteRuntime pipeline runNo w =
     w\<lparr>runtimes := filter (\<lambda>(k, p). k \<noteq> runtimeKey pipeline runNo) (runtimes w)\<rparr>"

definition update_object :: "nat \<Rightarrow> (pipelineRuntime \<Rightarrow> pipelineRuntime) \<Rightarrow> ('p, 'n) world \<Rightarrow> ('p, 'n) world" where
  "update_object ptr f w = w\<lparr>objects := (objects w)[ptr := f (objects w ! ptr)]\<rparr>"

definition noteJobStarted :: "string \<Rightarrow> int \<Rightarrow> string \<Rightarrow> string \<Rightarrow> ('p, 'n, unit) handler" where
  "noteJobStarted pipeline runNo stage job w =
     (case getPipelineRuntime pipeline runNo w of
        None \<Rightarrow> (Inr (), w)
      | Some ptr \<Rightarrow>
          andthen time_Now (\<lambda>t w. (Inr (), update_object ptr
            (\<lambda>rt. rt\<lparr>jobStartTimes := map_set (stage, job) t (jobStartTimes rt)\<rparr>) w)) w)"

text \<open>\<open>popJobStartTime\<close> (its caller is commented out in the source): 0 is the zero time.\<close>

definition popJobStartTime :: "string \<Rightarrow> int \<Rightarrow> string \<Rightarrow> string \<Rightarrow> ('p, 'n) world \<Rightarrow> int \<times> ('p, 'n) world" where
  "popJobStartTime pipeline runNo stage job w =
     (case getPipelineRuntime pipeline runNo w of
        None \<Rightarrow> (0, w)
      | Some ptr \<Rightarrow>
          (map_get 0 (jobStartTimes (objects w ! ptr)) (stage, job),
           update_object ptr (\<lambda>rt. rt\<lparr>jobStartTimes := filter (\<lambda>(k, t). k \<noteq> (stage, job)) (jobStartTimes rt)\<rparr>) w))"

fun next_after :: "string list \<Rightarrow> string \<Rightarrow> string option" where
  "next_after (x # y # xs) here = (if x = here then Some y else next_after (y # xs) here)"
| "next_after _ here = None"

definition nextStageName :: "pipelineRuntime \<Rightarrow> string \<Rightarrow> string option" where
  "nextStageName rt here = next_after (stageOrder rt) here"

definition buildJobConfigs :: "Pipeline option \<Rightarrow> ((string \<times> string) \<times> jobConfig) list" where
  "buildJobConfigs pipeline =
     (case pipeline of
        None \<Rightarrow> []
      | Some p \<Rightarrow> fold (\<lambda>job m. map_set (jobStage job, jobName job)
            \<lparr>allowFailures = jobFailures job, cfgNeeds = jobNeeds job\<rparr> m) (pipelineJobs p) [])"

section \<open>Records of runs, stages and jobs\<close>

definition run_input :: "('p, 'n) env \<Rightarrow> string \<Rightarrow> runInfo \<Rightarrow> string \<Rightarrow> int \<Rightarrow> CreateRunInput" where
  "run_input env pipeline info requestKey now =
     \<lparr>criPipeline = pipeline, criStartTime = now, criStatus = StatusQueued, criGitHash = riCommit info,
      criGitBranch = riBranch info,
      criGitRepo = (if TrimSpace (riRepoURL info) = '''' then riWorkspacePath info else riRepoURL info),
      criTraceID = eTraceID env, criRequestKey = requestKey\<rparr>"

definition startPipelineRun ::
  "('p, 'n) env \<Rightarrow> string \<Rightarrow> runInfo \<Rightarrow> string \<Rightarrow> ('p, 'n, CreateRunResult \<times> int) handler" where
  "startPipelineRun env pipeline info requestKey =
     andthen time_Now (\<lambda>now.
     andthen (with_db (CreateRunOrGetActive (eColl env) (eIsolation env) (eBetween env)
       (run_input env pipeline info requestKey now))) (\<lambda>result.
     ret (result, now)))"

definition finishPipelineRun :: "('p, 'n) env \<Rightarrow> string \<Rightarrow> int \<Rightarrow> string \<Rightarrow> ('p, 'n, unit) handler" where
  "finishPipelineRun env pipeline runNo status =
     andthen time_Now (\<lambda>now.
       with_db (UpdateRun (eColl env) pipeline runNo \<lparr>updEndTime = Some now, updStatus = status\<rparr>))"

definition startStage :: "('p, 'n) env \<Rightarrow> string \<Rightarrow> int \<Rightarrow> string \<Rightarrow> ('p, 'n, unit) handler" where
  "startStage env pipeline runNo stage =
     andthen time_Now (\<lambda>now. with_db (CreateStage (eColl env) pipeline runNo stage now StatusQueued))"

definition finishStage :: "('p, 'n) env \<Rightarrow> string \<Rightarrow> int \<Rightarrow> string \<Rightarrow> string \<Rightarrow> ('p, 'n, unit) handler" where
  "finishStage env pipeline runNo stage status =
     andthen time_Now (\<lambda>now.
       with_db (UpdateStage (eColl env) pipeline runNo stage \<lparr>updEndTime = Some now, updStatus = status\<rparr>))"

definition startJob :: "('p, 'n) env \<Rightarrow> string \<Rightarrow> int \<Rightarrow> string \<Rightarrow> string \<Rightarrow> bool \<Rightarrow> ('p, 'n, unit) handler" where
  "startJob env pipeline runNo stage job failures =
     andthen time_Now (\<lambda>now. with_db (CreateJob (eColl env) pipeline runNo stage job now StatusQueued failures))"

definition finishJob :: "('p, 'n) env \<Rightarrow> string \<Rightarrow> int \<Rightarrow> string \<Rightarrow> string \<Rightarrow> string \<Rightarrow> ('p, 'n, unit) handler" where
  "finishJob env pipeline runNo stage job status =
     andthen time_Now (\<lambda>now.
       with_db (UpdateJob (eColl env) pipeline runNo stage job \<lparr>updEndTime = Some now, updStatus = status\<rparr>))"

definition markJobRunning :: "('p, 'n) env \<Rightarrow> string \<Rightarrow> int \<Rightarrow> string \<Rightarrow> string \<Rightarrow> ('p, 'n, unit) handler" where
  "markJobRunning env pipeline runNo stage job =
     with_db (UpdateJob (eColl env) pipeline runNo stage job \<lparr>updEndTime = None, updStatus = StatusRunning\<rparr>)"

text \<open>The metrics calls of the two wrappers are commented out in the source.\<close>

definition finishPipelineRunWithMetrics ::
  "('p, 'n) env \<Rightarrow> string \<Rightarrow> int \<Rightarrow> string \<Rightarrow> int \<Rightarrow> ('p, 'n, unit) handler" where
  "finishPipelineRunWithMetrics env pipeline runNo status start = finishPipelineRun env pipeline runNo status"

definition finishStageWithMetrics ::
  "('p, 'n) env \<Rightarrow> string \<Rightarrow> int \<Rightarrow> string \<Rightarrow> string \<Rightarrow> int \<Rightarrow> ('p, 'n, unit) handler" where
  "finishStageWithMetrics env pipeline runNo stage status start = finishStage env pipeline runNo stage status"

section \<open>Dispatch\<close>

definition buildJobExecutionMessage ::
  "int \<Rightarrow> string \<Rightarrow> string \<Rightarrow> JobExecutionPlan \<Rightarrow> runInfo \<Rightarrow> JobExecutionMessage" where
  "buildJobExecutionMessage runNo pname stage job info =
     \<lparr>jmRunNo = runNo, jmPipelineName = pname, jmStage = stage, jmBranch = riBranch info,
      jmCommit = riCommit info, jmRepoURL = riRepoURL info, jmWorkspacePath = riWorkspacePath info, jmJob = job\<rparr>"

text \<open>Up to \<open>maxPublishAttempts\<close> times: acquire the current set, publish with its next publisher, and
  on a lost connection rebuild the set and try again. A call on a nil publisher panics; a panic is an error here, which
  the callers handle like any other (in Go it unwinds to the HTTP server, or ends the process from the goroutine of a run).\<close>

definition maxPublishAttempts :: nat where "maxPublishAttempts = 3"

definition panic :: "string \<Rightarrow> goerr" where "panic m = Errorf (''panic: '' @ m)"

fun publish_attempts ::
  "('p, 'n) env \<Rightarrow> JobExecutionMessage \<Rightarrow> nat \<Rightarrow> goerr option \<Rightarrow> ('p, 'n, unit) handler" where
  "publish_attempts env msg 0 lastErr w = (case lastErr of None \<Rightarrow> (Inr (), w) | Some e \<Rightarrow> (Inl e, w))"
| "publish_attempts env msg (Suc n) lastErr w =
     (case acquireCurrentSet (manager w) of
        (None, m) \<Rightarrow> (Inl (Errorf ''job publisher is not initialized''), w)
      | (Some ptr, m) \<Rightarrow>
          let (pub, set1) = nextPublisher (sets m ! ptr); m1 = update_set ptr (\<lambda>_. set1) m in
          (case pub of
             None \<Rightarrow> (Inl (panic ''index out of range''), w\<lparr>manager := m1\<rparr>)
           | Some None \<Rightarrow> (Inl (panic ''nil publisher''), w\<lparr>manager := m1\<rparr>)
           | Some (Some p) \<Rightarrow>
               (case ePublishJob env p msg (network w) of
                  (Inr _, net) \<Rightarrow> (Inr (), w\<lparr>manager := releaseSet ptr m1, network := net\<rparr>)
                | (Inl err, net) \<Rightarrow>
                    if errors_Is err ErrConnectionClosed then
                      (case rebuildIfCurrent (eBroker env) ptr m1 of
                         (None, m2) \<Rightarrow>
                           publish_attempts env msg n (Some err) (w\<lparr>manager := releaseSet ptr m2, network := net\<rparr>)
                       | (Some e, m2) \<Rightarrow> (Inl e, w\<lparr>manager := releaseSet ptr m2, network := net\<rparr>))
                    else (Inl err, w\<lparr>manager := releaseSet ptr m1, network := net\<rparr>))))"

definition enqueueJob :: "('p, 'n) env \<Rightarrow> JobExecutionMessage \<Rightarrow> ('p, 'n, unit) handler" where
  "enqueueJob env msg = publish_attempts env msg maxPublishAttempts None"

definition enqueueReadyJobs ::
  "('p, 'n) env \<Rightarrow> string \<Rightarrow> string \<Rightarrow> int \<Rightarrow> JobExecutionPlan list \<Rightarrow> runInfo \<Rightarrow> ('p, 'n, unit) handler" where
  "enqueueReadyJobs env pname sname runNo jobs info =
     each (\<lambda>job. enqueueJob env (buildJobExecutionMessage runNo pname sname job info)) jobs"

definition set_stage :: "nat \<Rightarrow> string \<Rightarrow> stageState \<Rightarrow> ('p, 'n) world \<Rightarrow> ('p, 'n) world" where
  "set_stage ptr stage st = update_object ptr (\<lambda>rt. rt\<lparr>stageStates := map_set stage st (stageStates rt)\<rparr>)"

definition get_stage :: "nat \<Rightarrow> string \<Rightarrow> ('p, 'n) world \<Rightarrow> stageState option" where
  "get_stage ptr stage w = map_of (stageStates (objects w ! ptr)) stage"

fun enqueueFirstReadyStageJobs ::
  "('p, 'n) env \<Rightarrow> string \<Rightarrow> int \<Rightarrow> StageExecutionPlan list \<Rightarrow> nat \<Rightarrow> runInfo \<Rightarrow> ('p, 'n, unit) handler" where
  "enqueueFirstReadyStageJobs env pname runNo [] ptr info w = (Inr (), w)"
| "enqueueFirstReadyStageJobs env pname runNo (stage # stages) ptr info w =
     (case get_stage ptr (sepName stage) w of
        None \<Rightarrow> enqueueFirstReadyStageJobs env pname runNo stages ptr info w
      | Some state \<Rightarrow>
          let (readyJobs, state1) = getReadyJobs state; w1 = set_stage ptr (sepName stage) state1 w in
          if readyJobs = [] then
            (if sepJobs stage = [] then
               andthen (wrap_err (wrapf (''finish empty stage '' @ quoted (sepName stage) @ '': ''))
                   (finishStageWithMetrics env pname runNo (sepName stage) StatusSuccess (startedAt state1)))
                 (\<lambda>_. enqueueFirstReadyStageJobs env pname runNo stages ptr info) w1
             else enqueueFirstReadyStageJobs env pname runNo stages ptr info w1)
          else
            wrap_err (wrapf (''enqueue ready jobs for stage '' @ quoted (sepName stage) @ '': ''))
              (enqueueReadyJobs env pname (sepName stage) runNo readyJobs info) w1)"

text \<open>A failed dispatch fails the run (the error of that update is dropped) and forgets the runtime.\<close>

definition dispatchPipelineStartJobs :: "('p, 'n) env \<Rightarrow> nat \<Rightarrow> ('p, 'n, unit) handler" where
  "dispatchPipelineStartJobs env ptr w =
     (let rt = objects w ! ptr in
      case enqueueFirstReadyStageJobs env (rtPipeline rt) (rtRunNo rt) (epStages (executionPlan rt)) ptr
             (rtRunInfo rt) w of
        (Inr _, w1) \<Rightarrow> (Inr (), w1)
      | (Inl e, w1) \<Rightarrow>
          (Inl e, deleteRuntime (rtPipeline rt) (rtRunNo rt)
             (snd (finishPipelineRunWithMetrics env (rtPipeline rt) (rtRunNo rt) StatusFailed (pipelineStart rt) w1))))"

section \<open>Starting a run\<close>

definition zero_config :: jobConfig where
  "zero_config = \<lparr>allowFailures = False, cfgNeeds = []\<rparr>"

text \<open>The inner loop over the jobs of a stage: its record, and its entry in the stage's \<open>jobConfigs\<close>.\<close>

fun init_jobs ::
  "('p, 'n) env \<Rightarrow> string \<Rightarrow> int \<Rightarrow> int \<Rightarrow> string \<Rightarrow> ((string \<times> string) \<times> jobConfig) list \<Rightarrow> JobExecutionPlan list \<Rightarrow>
     stageState \<Rightarrow> ('p, 'n, stageState) handler" where
  "init_jobs env pname runNo runStart stage cfgs [] st w = (Inr st, w)"
| "init_jobs env pname runNo runStart stage cfgs (job # jobs) st w =
     (let cfg = map_get zero_config cfgs (stage, jepName job);
          st1 = st\<lparr>jobConfigs := map_set (jepName job) cfg (jobConfigs st)\<rparr> in
      case startJob env pname runNo stage (jepName job) (allowFailures cfg) w of
        (Inl e, w1) \<Rightarrow>
          andthen (ignore_err (finishStageWithMetrics env pname runNo stage StatusFailed (startedAt st1))) (\<lambda>_.
          andthen (ignore_err (finishPipelineRunWithMetrics env pname runNo StatusFailed runStart)) (\<lambda>_.
          fail (wrapf ''create job record failed: '' e))) w1
      | (Inr _, w1) \<Rightarrow> init_jobs env pname runNo runStart stage cfgs jobs st1 w1)"

fun init_stages ::
  "('p, 'n) env \<Rightarrow> Pipeline \<Rightarrow> int \<Rightarrow> int \<Rightarrow> ((string \<times> string) \<times> jobConfig) list \<Rightarrow> StageExecutionPlan list \<Rightarrow>
     stageState gomap \<Rightarrow> string list \<Rightarrow> ('p, 'n, stageState gomap \<times> string list) handler" where
  "init_stages env p runNo runStart cfgs [] states order w = (Inr (states, order), w)"
| "init_stages env p runNo runStart cfgs (stage # stages) states order w =
     (case startStage env (pipelineName p) runNo (sepName stage) w of
        (Inl e, w1) \<Rightarrow>
          andthen (ignore_err (finishPipelineRunWithMetrics env (pipelineName p) runNo StatusFailed runStart)) (\<lambda>_.
          fail (wrapf ''create stage record failed: '' e)) w1
      | (Inr _, w1) \<Rightarrow>
          andthen time_Now (\<lambda>now.
          andthen (init_jobs env (pipelineName p) runNo runStart (sepName stage) cfgs (sepJobs stage)
              ((newStageState (BuildStagePlan (eRangeStage env) (sepName stage) (Some p)))\<lparr>startedAt := now\<rparr>)) (\<lambda>st.
          init_stages env p runNo runStart cfgs stages (map_set (sepName stage) st states) (order @ [sepName stage]))) w1)"

text \<open>The result is the run number of a deduplicated request with its status, or a new runtime.\<close>

definition initializePipelineRuntime ::
  "('p, 'n) env \<Rightarrow> PipelinePlan \<Rightarrow> ((string \<times> string) \<times> jobConfig) list \<Rightarrow> runInfo \<Rightarrow> string \<Rightarrow>
     ('p, 'n, int \<times> string + pipelineRuntime) handler" where
  "initializePipelineRuntime env pp cfgs info requestKey =
     (let p = ppPipeline pp; ep = ppExecutionPlan pp in
      andthen (wrap_err (wrapf ''create pipeline run record failed: '')
          (startPipelineRun env (pipelineName p) info requestKey)) (\<lambda>(result, runStart).
      if crrDeduped result then ret (Inl (crrRunNo result, crrExistingStatus result))
      else
        andthen (init_stages env p (crrRunNo result) runStart cfgs (epStages ep) [] []) (\<lambda>(states, order).
        let rt = \<lparr>rtPipeline = pipelineName p, rtRunNo = crrRunNo result, stageOrder = order, stageStates = states,
                  rtRunInfo = info, pipelineStart = runStart, jobStartTimes = [], executionPlan = ep\<rparr> in
        if epStages ep = [] then
          andthen (wrap_err (wrapf ''finish empty pipeline run: '')
              (finishPipelineRunWithMetrics env (pipelineName p) (crrRunNo result) StatusSuccess runStart))
            (\<lambda>_. ret (Inr rt))
        else ret (Inr rt))))"

text \<open>\<open>validatePipeline\<close>: the joined messages of \<open>errors.Join\<close> are separated by newlines. The code tests the length of the
  request body, where it may mean that of the answer, before it decodes the answer.\<close>

definition validatePipeline :: "('p, 'n) env \<Rightarrow> string \<Rightarrow> goerr option" where
  "validatePipeline env yamlContent =
     (case eMarshalValidate env yamlContent of
        Inl e \<Rightarrow> Some (wrapf ''fail to marshal request body '' e)
      | Inr body \<Rightarrow>
          (case eNewValidateRequest env of
             Some e \<Rightarrow> Some (wrapf ''fail to construct request '' e)
           | None \<Rightarrow>
               (case ePostValidate env body of
                  Inl e \<Rightarrow> Some (wrapf ''failed to call validation service: '' e)
                | Inr (status, Inl e) \<Rightarrow> Some (wrapf ''failed to read validation response body: '' e)
                | Inr (status, Inr respBody) \<Rightarrow>
                    (case (if body \<noteq> '''' then eDecodeValidate env respBody else Inr \<lparr>vrValid = False, vrErrors = []\<rparr>) of
                       Inl e \<Rightarrow> Some (wrapf ''failed to decode validation response: '' e)
                     | Inr resp \<Rightarrow>
                         if status \<noteq> 200 then
                           (let errs = (if vrErrors resp = []
                                        then [''validation service returned status '' @ Itoa status] else vrErrors resp)
                            in Some (Errorf (''validation service returned status '' @ Itoa status @ '': '' @
                                 Join errs [CHR 0x0A])))
                         else if \<not> vrValid resp then
                           Some (Errorf (''validation failed: '' @
                             (if vrErrors resp = [] then ''%!w(<nil>)'' else Join (vrErrors resp) [CHR 0x0A])))
                         else None))))"

definition prepareRun :: "('p, 'n) env \<Rightarrow> RunRequest \<Rightarrow> goerr + PipelinePlan" where
  "prepareRun env req =
     (if TrimSpace (rqYAMLContent req) = '''' then Inl (Errorf ''pipeline content can not be empty'')
      else
        (case validatePipeline env (rqYAMLContent req) of
           Some e \<Rightarrow> Inl (wrapf ''validate pipeline failed: '' e)
         | None \<Rightarrow>
             (case Parse (eUnmarshal env) (\<lambda>_. Inl (Errorf '''')) (NewParserFromContent (rqYAMLContent req)) of
                Inl e \<Rightarrow> Inl (wrapf ''pipeline parse failed: '' e)
              | Inr (p, root) \<Rightarrow>
                  (case GenerateExecutionPlan (eRangePlan env) p of
                     Inl e \<Rightarrow> Inl (wrapf ''generate execution plan failed: '' e)
                   | Inr ep \<Rightarrow> Inr \<lparr>ppPipeline = p, ppExecutionPlan = ep\<rparr>))))"

text \<open>\<open>Run\<close> returns before the goroutine it starts has dispatched anything.\<close>

definition Run :: "('p, 'n) env \<Rightarrow> RunRequest \<Rightarrow> ('p, 'n, RunResponse) handler" where
  "Run env req w =
     (case prepareRun env req of
        Inl e \<Rightarrow> (Inl e, w)
      | Inr pp \<Rightarrow>
          (let p = ppPipeline pp in
           case initializePipelineRuntime env pp (buildJobConfigs (Some p)) (newRunInfo req)
                  (buildRunRequestKey (eSha256 env) req (pipelineName p)) w of
             (Inl e, w1) \<Rightarrow> (Inl e, w1)
           | (Inr (Inl (runNo, status)), w1) \<Rightarrow>
               (Inr \<lparr>rrPipeline = pipelineName p, rrRunNo = runNo, rrStatus = status, rrErrors = [],
                     rrMessage = ''duplicate run request dropped; using in-flight run '' @ Itoa runNo @ ''.''\<rparr>, w1)
           | (Inr (Inr rt), w1) \<Rightarrow>
               let ptr = length (objects w1); w2 = putRuntime ptr (w1\<lparr>objects := objects w1 @ [rt]\<rparr>) in
               (Inr \<lparr>rrPipeline = pipelineName p, rrRunNo = rtRunNo rt, rrStatus = StatusQueued, rrErrors = [],
                     rrMessage = ''''\<rparr>, w2\<lparr>goroutines := goroutines w2 @ [ptr]\<rparr>)))"

text \<open>The body of a started goroutine, which logs and drops the error.\<close>

definition run_goroutine :: "('p, 'n) env \<Rightarrow> ('p, 'n) world \<Rightarrow> ('p, 'n) world" where
  "run_goroutine env w =
     (case goroutines w of
        [] \<Rightarrow> w
      | ptr # rest \<Rightarrow> snd (dispatchPipelineStartJobs env ptr (w\<lparr>goroutines := rest\<rparr>)))"

section \<open>Callbacks\<close>

definition missing_fields :: "JobStatusCallbackRequest \<Rightarrow> bool" where
  "missing_fields req \<longleftrightarrow>
     TrimSpace (cbPipeline req) = '''' \<or> TrimSpace (cbStage req) = '''' \<or> TrimSpace (cbJob req) = '''' \<or> cbRunNo req = 0"

definition HandleJobStarted :: "('p, 'n) env \<Rightarrow> JobStatusCallbackRequest \<Rightarrow> ('p, 'n, unit) handler" where
  "HandleJobStarted env req =
     (if missing_fields req then fail (Errorf ''pipeline, run_no, stage, and job are required'')
      else
        andthen (markJobRunning env (cbPipeline req) (cbRunNo req) (cbStage req) (cbJob req)) (\<lambda>_.
        noteJobStarted (cbPipeline req) (cbRunNo req) (cbStage req) (cbJob req)))"

definition forget_runtime :: "JobStatusCallbackRequest \<Rightarrow> ('p, 'n, unit) handler" where
  "forget_runtime req w = (Inr (), deleteRuntime (cbPipeline req) (cbRunNo req) w)"

text \<open>The last part of \<open>HandleJobFinished\<close>: the next stage, or the end of the run.\<close>

definition advance_stage :: "('p, 'n) env \<Rightarrow> JobStatusCallbackRequest \<Rightarrow> nat \<Rightarrow> ('p, 'n, unit) handler" where
  "advance_stage env req ptr w =
     (let rt = objects w ! ptr in
      case nextStageName rt (cbStage req) of
        None \<Rightarrow>
          andthen (finishPipelineRunWithMetrics env (cbPipeline req) (cbRunNo req) StatusSuccess (pipelineStart rt))
            (\<lambda>_. forget_runtime req) w
      | Some nextName \<Rightarrow>
          (case get_stage ptr nextName w of
             None \<Rightarrow> (Inr (), w)
           | Some nextStage \<Rightarrow>
               let (readyJobs, st1) = getReadyJobs nextStage in
               andthen (enqueueReadyJobs env (cbPipeline req) nextName (cbRunNo req) readyJobs (rtRunInfo rt)) (\<lambda>_.
               if isStageComplete st1
               then finishStageWithMetrics env (cbPipeline req) (cbRunNo req) nextName StatusSuccess (startedAt st1)
               else ret ()) (set_stage ptr nextName st1 w)))"

definition after_job :: "('p, 'n) env \<Rightarrow> JobStatusCallbackRequest \<Rightarrow> nat \<Rightarrow> stageState \<Rightarrow> ('p, 'n, unit) handler" where
  "after_job env req ptr st =
     (if \<not> isStageComplete st then ret ()
      else
        andthen (finishStageWithMetrics env (cbPipeline req) (cbRunNo req) (cbStage req) StatusSuccess (startedAt st))
          (\<lambda>_. advance_stage env req ptr))"

definition finish_in_stage ::
  "('p, 'n) env \<Rightarrow> JobStatusCallbackRequest \<Rightarrow> string \<Rightarrow> nat \<Rightarrow> stageState \<Rightarrow> ('p, 'n, unit) handler" where
  "finish_in_stage env req status ptr st w =
     (let rt = objects w ! ptr;
          allowFailure = allowFailures (map_get zero_config (jobConfigs st) (cbJob req)) in
      if status = StatusFailed \<and> \<not> allowFailure then
        andthen (finishStageWithMetrics env (cbPipeline req) (cbRunNo req) (cbStage req) StatusFailed (startedAt st)) (\<lambda>_.
        andthen (finishPipelineRunWithMetrics env (cbPipeline req) (cbRunNo req) StatusFailed (pipelineStart rt)) (\<lambda>_.
        forget_runtime req)) (set_stage ptr (cbStage req) (markJobTerminal (cbJob req) st) w)
      else
        (let (newlyReady, st1) = markJobSucceeded (cbJob req) st in
         andthen (enqueueReadyJobs env (cbPipeline req) (cbStage req) (cbRunNo req) newlyReady (rtRunInfo rt))
           (\<lambda>_. after_job env req ptr st1) (set_stage ptr (cbStage req) st1 w)))"

definition HandleJobFinished :: "('p, 'n) env \<Rightarrow> JobStatusCallbackRequest \<Rightarrow> ('p, 'n, unit) handler" where
  "HandleJobFinished env req =
     (let status = TrimSpace (cbStatus req) in
      if missing_fields req then fail (Errorf ''pipeline, run_no, stage, and job are required'')
      else if status \<noteq> StatusSuccess \<and> status \<noteq> StatusFailed
      then fail (Errorf (''invalid finished status '' @ quoted (cbStatus req)))
      else
        andthen (finishJob env (cbPipeline req) (cbRunNo req) (cbStage req) (cbJob req) status) (\<lambda>_ w.
        (case getPipelineRuntime (cbPipeline req) (cbRunNo req) w of
           None \<Rightarrow> (Inr (), w)
         | Some ptr \<Rightarrow>
             (case get_stage ptr (cbStage req) w of
                None \<Rightarrow> (Inr (), w)
              | Some st \<Rightarrow> finish_in_stage env req status ptr st w))))"

section \<open>Keys of runtimes\<close>

lemma split_last_colon:
  assumes "p @ '':'' @ a = q @ '':'' @ b" and "CHR '':'' \<notin> set a" and "CHR '':'' \<notin> set b"
  shows "p = q \<and> a = b"
proof -
  have "rev a @ CHR '':'' # rev p = rev b @ CHR '':'' # rev q" using assms(1) by (metis append_assoc append_Cons append_Nil rev_append rev_rev_ident rev.simps)
  moreover have "takeWhile (\<lambda>c. c \<noteq> CHR '':'') (rev x @ CHR '':'' # ys) = rev x" if "CHR '':'' \<notin> set x" for x ys
    using that by (subst takeWhile_append2) auto
  ultimately have "rev a = rev b" using assms(2,3) by metis
  with assms(1) show ?thesis by simp
qed

text \<open>Runs do not share state: different runs have different runtime keys, whatever characters the
  pipeline names hold.\<close>

theorem runtimeKey_injective:
  "runtimeKey p n = runtimeKey q m \<longleftrightarrow> p = q \<and> n = m"
proof
  assume "runtimeKey p n = runtimeKey q m"
  from split_last_colon [OF this [unfolded runtimeKey_def] colon_notin_Itoa colon_notin_Itoa]
  show "p = q \<and> n = m" using Itoa_inj by simp
qed simp

section \<open>Publishing on a healthy pool\<close>

text \<open>The pool can serve \<open>k\<close> more publishes, and every publish is delivered.\<close>

definition pool_ready :: "nat \<Rightarrow> 'p publisherManager \<Rightarrow> bool" where
  "pool_ready k m \<longleftrightarrow>
     (\<exists>p. current m = Some p \<and> p < length (sets m) \<and> pubs (sets m ! p) \<noteq> [] \<and> \<not> retired (sets m ! p)
        \<and> 0 \<le> sint (idx (sets m ! p)) \<and> sint (idx (sets m ! p)) + int k < 2 ^ 63)"

definition delivers :: "('p, 'n) env \<Rightarrow> (JobExecutionMessage \<Rightarrow> 'n \<Rightarrow> 'n) \<Rightarrow> bool" where
  "delivers env deliver \<longleftrightarrow> (\<forall>p msg n. ePublishJob env p msg n = (Inr (), deliver msg n))"

lemma sint_add_1:
  fixes x :: "64 word"
  assumes "0 \<le> sint x" and "sint x + 1 < 2 ^ 63"
  shows "sint (x + 1) = sint x + 1"
  using assms by (simp add: sint_word_ariths signed_take_bit_int_eq_self)

lemma nextPublisher_ready:
  assumes "pubs s \<noteq> []" and "0 \<le> sint (idx s)"
  shows "\<exists>p. nextPublisher s = (Some (Some p), s\<lparr>idx := idx s + 1\<rparr>)"
  using assms by (simp add: nextPublisher_def Let_def)

lemma enqueueJob_delivers:
  assumes env: "delivers env deliver" and ready: "pool_ready (Suc k) (manager w)"
  obtains m where "enqueueJob env msg w = (Inr (), w\<lparr>manager := m, network := deliver msg (network w)\<rparr>)"
    and "pool_ready k m"
proof -
  obtain p where p: "current (manager w) = Some p" "p < length (sets (manager w))" "pubs (sets (manager w) ! p) \<noteq> []"
      "\<not> retired (sets (manager w) ! p)" "0 \<le> sint (idx (sets (manager w) ! p))"
      "sint (idx (sets (manager w) ! p)) + int (Suc k) < 2 ^ 63"
    using ready by (auto simp: pool_ready_def)
  obtain m0 where acq: "acquireCurrentSet (manager w) = (Some p, m0)"
      and at: "sets m0 ! p = (sets (manager w) ! p)\<lparr>refs := refs (sets (manager w) ! p) + 1\<rparr>"
        "length (sets m0) = length (sets (manager w))" "current m0 = Some p"
    using p(1,2) by (simp add: acquireCurrentSet_def nth_update_set)
  obtain pub where pub: "nextPublisher (sets m0 ! p) = (Some (Some pub), (sets m0 ! p)\<lparr>idx := idx (sets m0 ! p) + 1\<rparr>)"
    using nextPublisher_ready [of "sets m0 ! p"] p at by auto
  let ?m1 = "update_set p (\<lambda>_. (sets m0 ! p)\<lparr>idx := idx (sets m0 ! p) + 1\<rparr>) m0"
  have "enqueueJob env msg w = (Inr (), w\<lparr>manager := releaseSet p ?m1, network := deliver msg (network w)\<rparr>)"
    using env acq pub by (simp add: enqueueJob_def maxPublishAttempts_def delivers_def numeral_3_eq_3)
  moreover have "pool_ready k (releaseSet p ?m1)"
    using p at sint_add_1 [of "idx (sets (manager w) ! p)"]
    by (auto simp: pool_ready_def releaseSet_def release_decrement_def Let_def nth_update_set)
  ultimately show ?thesis by (rule that)
qed

text \<open>The messages of a list of jobs, delivered in order.\<close>

definition deliver_jobs ::
  "(JobExecutionMessage \<Rightarrow> 'n \<Rightarrow> 'n) \<Rightarrow> string \<Rightarrow> string \<Rightarrow> int \<Rightarrow> JobExecutionPlan list \<Rightarrow> runInfo \<Rightarrow> 'n \<Rightarrow> 'n" where
  "deliver_jobs deliver pname sname runNo jobs info =
     fold (\<lambda>job. deliver (buildJobExecutionMessage runNo pname sname job info)) jobs"

lemma enqueueReadyJobs_delivers:
  assumes env: "delivers env deliver" and "pool_ready (length jobs + k) (manager w)"
  shows "\<exists>m. enqueueReadyJobs env pname sname runNo jobs info w
      = (Inr (), w\<lparr>manager := m, network := deliver_jobs deliver pname sname runNo jobs info (network w)\<rparr>)
    \<and> pool_ready k m"
  using assms(2)
proof (induction jobs arbitrary: w)
  case Nil
  then show ?case by (auto simp: enqueueReadyJobs_def deliver_jobs_def ret_def intro!: exI [of _ "manager w"])
next
  case (Cons job jobs)
  let ?msg = "buildJobExecutionMessage runNo pname sname job info"
  obtain m where m: "enqueueJob env ?msg w = (Inr (), w\<lparr>manager := m, network := deliver ?msg (network w)\<rparr>)"
      "pool_ready (length jobs + k) m"
    using enqueueJob_delivers [OF env, of "length jobs + k" w ?msg] Cons.prems by auto
  from Cons.IH [of "w\<lparr>manager := m, network := deliver ?msg (network w)\<rparr>"] m(2) obtain m' where
    "enqueueReadyJobs env pname sname runNo jobs info (w\<lparr>manager := m, network := deliver ?msg (network w)\<rparr>)
      = (Inr (), w\<lparr>manager := m', network := deliver_jobs deliver pname sname runNo jobs info (deliver ?msg (network w))\<rparr>)"
    "pool_ready k m'" by auto
  with m(1) show ?case by (auto simp: enqueueReadyJobs_def andthen_def deliver_jobs_def)
qed

section \<open>Callbacks on a healthy database\<close>

lemma with_db_Inr: "m (wdb w) = (Inr x, d) \<Longrightarrow> with_db m w = (Inr x, w\<lparr>wdb := d\<rparr>)"
  by (simp add: with_db_def)

lemma andthen_Inr: "m w = (Inr x, w1) \<Longrightarrow> andthen m f w = f x w1"
  by (simp add: andthen_def)

lemma time_Now_then: "andthen time_Now f w = f (clock w) (w\<lparr>clock := clock w + 1\<rparr>)"
  by (simp add: andthen_def time_Now_def)

lemma finishJob_ok:
  "faults (wdb w) = [] \<Longrightarrow> finishJob env p n s j status w = (Inr (), w\<lparr>clock := clock w + 1,
     wdb := (wdb w)\<lparr>job_runs := finish_job_rows (eColl env) p n s j (clock w) status (job_runs (wdb w))\<rparr>\<rparr>)"
  by (simp add: finishJob_def time_Now_then with_db_def update_finish)

lemma finishStage_ok:
  "faults (wdb w) = [] \<Longrightarrow> finishStageWithMetrics env p n s status t0 w = (Inr (), w\<lparr>clock := clock w + 1,
     wdb := (wdb w)\<lparr>stage_runs := finish_stage_rows (eColl env) p n s (clock w) status (stage_runs (wdb w))\<rparr>\<rparr>)"
  by (simp add: finishStageWithMetrics_def finishStage_def time_Now_then with_db_def update_finish)

lemma finishPipelineRun_ok:
  "faults (wdb w) = [] \<Longrightarrow> uq_pipeline_runs (eColl env) (pipeline_runs (wdb w)) \<Longrightarrow> inactive_status (eColl env) status \<Longrightarrow>
   finishPipelineRunWithMetrics env p n status t0 w = (Inr (), w\<lparr>clock := clock w + 1,
     wdb := (wdb w)\<lparr>pipeline_runs := finish_run_rows (eColl env) p n (clock w) status (pipeline_runs (wdb w))\<rparr>\<rparr>)"
  by (simp add: finishPipelineRunWithMetrics_def finishPipelineRun_def time_Now_then with_db_def update_finish)

lemma get_set_stage [simp]:
  "ptr < length (objects w) \<Longrightarrow> get_stage ptr s (set_stage ptr s' st w) = (if s = s' then Some st else get_stage ptr s w)"
  by (simp add: get_stage_def set_stage_def update_object_def)

lemma set_stage_simps [simp]:
  "wdb (set_stage ptr s st w) = wdb w" "runtimes (set_stage ptr s st w) = runtimes w"
  "manager (set_stage ptr s st w) = manager w" "network (set_stage ptr s st w) = network w"
  "clock (set_stage ptr s st w) = clock w" "length (objects (set_stage ptr s st w)) = length (objects w)"
  by (simp_all add: set_stage_def update_object_def)

lemma deleted_runtime [simp]: "getPipelineRuntime p n (deleteRuntime p n w) = None"
  by (auto simp: getPipelineRuntime_def deleteRuntime_def map_of_eq_None_iff)

lemma deleteRuntime_simps [simp]:
  "wdb (deleteRuntime p n w) = wdb w" "network (deleteRuntime p n w) = network w" "manager (deleteRuntime p n w) = manager w"
  "objects (deleteRuntime p n w) = objects w" "clock (deleteRuntime p n w) = clock w"
  by (simp_all add: deleteRuntime_def)

text \<open>A callback that names a run in memory and a stage of it, with a valid status.\<close>

definition known_job :: "JobStatusCallbackRequest \<Rightarrow> string \<Rightarrow> nat \<Rightarrow> stageState \<Rightarrow> ('p, 'n) world \<Rightarrow> bool" where
  "known_job req status ptr st w \<longleftrightarrow>
     \<not> missing_fields req \<and> TrimSpace (cbStatus req) = status \<and> status \<in> {StatusSuccess, StatusFailed}
     \<and> getPipelineRuntime (cbPipeline req) (cbRunNo req) w = Some ptr \<and> ptr < length (objects w)
     \<and> get_stage ptr (cbStage req) w = Some st"

text \<open>With the database up, the job row is finished first, and the rest runs in the stage.\<close>

lemma HandleJobFinished_known:
  assumes "known_job req status ptr st w" and "faults (wdb w) = []"
  shows "HandleJobFinished env req w = finish_in_stage env req status ptr st (w\<lparr>clock := clock w + 1,
     wdb := (wdb w)\<lparr>job_runs := finish_job_rows (eColl env) (cbPipeline req) (cbRunNo req) (cbStage req) (cbJob req)
       (clock w) status (job_runs (wdb w))\<rparr>\<rparr>)"
  using assms
  by (auto simp: HandleJobFinished_def known_job_def andthen_Inr [OF finishJob_ok] getPipelineRuntime_def get_stage_def)

text \<open>C21. A job failure ends the run: when a job that may not fail is reported as failed, the job, its
  stage and the run are recorded as failed with end times, in this order, nothing more is published,
  the job counts as completed and the run leaves the memory, so later callbacks of it change only
  their own job's row.\<close>

theorem HandleJobFinished_failure:
  assumes "known_job req StatusFailed ptr st w" and "faults (wdb w) = []" and "store_inv (eColl env) (wdb w)"
    and "\<not> allowFailures (map_get zero_config (jobConfigs st) (cbJob req))" and "inactive_status (eColl env) StatusFailed"
  shows "\<exists>w'. HandleJobFinished env req w = (Inr (), w')
    \<and> job_runs (wdb w') = finish_job_rows (eColl env) (cbPipeline req) (cbRunNo req) (cbStage req) (cbJob req)
        (clock w) StatusFailed (job_runs (wdb w))
    \<and> stage_runs (wdb w') = finish_stage_rows (eColl env) (cbPipeline req) (cbRunNo req) (cbStage req)
        (clock w + 1) StatusFailed (stage_runs (wdb w))
    \<and> pipeline_runs (wdb w') = finish_run_rows (eColl env) (cbPipeline req) (cbRunNo req)
        (clock w + 2) StatusFailed (pipeline_runs (wdb w))
    \<and> network w' = network w \<and> manager w' = manager w
    \<and> getPipelineRuntime (cbPipeline req) (cbRunNo req) w' = None"
proof -
  have uq: "uq_pipeline_runs (eColl env) (pipeline_runs (wdb w))" using assms(3) by (simp add: store_inv_def)
  have ptr: "ptr < length (objects w)" using assms(1) by (simp add: known_job_def)
  show ?thesis
    unfolding HandleJobFinished_known [OF assms(1,2)] finish_in_stage_def Let_def
    using assms(2,4,5) uq ptr
    by (simp add: andthen_Inr [OF finishStage_ok] andthen_Inr [OF finishPipelineRun_ok] forget_runtime_def)
      (simp add: add.commute)
qed

text \<open>A report that lets the stage go on: success, or a failure of a job that may fail.\<close>

definition goes_on :: "JobStatusCallbackRequest \<Rightarrow> string \<Rightarrow> stageState \<Rightarrow> bool" where
  "goes_on req status st \<longleftrightarrow> status = StatusSuccess \<or> allowFailures (map_get zero_config (jobConfigs st) (cbJob req))"

lemma finish_in_stage_goes_on:
  assumes on: "goes_on req status st" "status \<in> {StatusSuccess, StatusFailed}"
    and mark: "markJobSucceeded (cbJob req) st = (newly, st1)"
    and env: "delivers env deliver" and pool: "pool_ready (length newly + k) (manager w)"
  obtains m where "pool_ready k m" and "finish_in_stage env req status ptr st w
      = after_job env req ptr st1 ((set_stage ptr (cbStage req) st1 w)\<lparr>manager := m, network :=
          deliver_jobs deliver (cbPipeline req) (cbStage req) (cbRunNo req) newly (rtRunInfo (objects w ! ptr)) (network w)\<rparr>)"
proof -
  let ?w1 = "set_stage ptr (cbStage req) st1 w"
  obtain m where m: "pool_ready k m"
      "enqueueReadyJobs env (cbPipeline req) (cbStage req) (cbRunNo req) newly (rtRunInfo (objects w ! ptr)) ?w1
        = (Inr (), ?w1\<lparr>manager := m, network :=
            deliver_jobs deliver (cbPipeline req) (cbStage req) (cbRunNo req) newly (rtRunInfo (objects w ! ptr)) (network w)\<rparr>)"
    using enqueueReadyJobs_delivers [OF env, of newly k ?w1] pool by (metis set_stage_simps(3,4))
  have "\<not> (status = StatusFailed \<and> \<not> allowFailures (map_get zero_config (jobConfigs st) (cbJob req)))"
    using on by (auto simp: goes_on_def status_defs)
  then show ?thesis
    using m mark by (intro that [OF m(1)]) (auto simp: finish_in_stage_def andthen_Inr Let_def)
qed

text \<open>A finished job releases its dependents: while the stage is not complete, a success callback (or
  a failure of a job that may fail) records the job, publishes exactly the jobs that
  \<open>markJobSucceeded\<close> hands out, in order and with the run's data, and stores the new stage state;
  stages and runs are untouched.\<close>

theorem HandleJobFinished_releases:
  assumes "known_job req status ptr st w" and "faults (wdb w) = []" and "goes_on req status st"
    and "markJobSucceeded (cbJob req) st = (newly, st1)" and "\<not> isStageComplete st1"
    and "delivers env deliver" and "pool_ready (length newly) (manager w)"
  shows "\<exists>w'. HandleJobFinished env req w = (Inr (), w')
    \<and> network w' = deliver_jobs deliver (cbPipeline req) (cbStage req) (cbRunNo req) newly
        (rtRunInfo (objects w ! ptr)) (network w)
    \<and> get_stage ptr (cbStage req) w' = Some st1
    \<and> getPipelineRuntime (cbPipeline req) (cbRunNo req) w' = Some ptr
    \<and> stage_runs (wdb w') = stage_runs (wdb w) \<and> pipeline_runs (wdb w') = pipeline_runs (wdb w)"
proof -
  let ?w = "w\<lparr>clock := clock w + 1, wdb := (wdb w)\<lparr>job_runs := finish_job_rows (eColl env) (cbPipeline req)
      (cbRunNo req) (cbStage req) (cbJob req) (clock w) status (job_runs (wdb w))\<rparr>\<rparr>"
  have st: "status \<in> {StatusSuccess, StatusFailed}" "ptr < length (objects w)"
      "getPipelineRuntime (cbPipeline req) (cbRunNo req) w = Some ptr"
    using assms(1) by (simp_all add: known_job_def)
  have "pool_ready (length newly + 0) (manager ?w)" using assms(7) by simp
  from finish_in_stage_goes_on [OF assms(3) st(1) assms(4,6) this] obtain m where
    "finish_in_stage env req status ptr st ?w = after_job env req ptr st1
      ((set_stage ptr (cbStage req) st1 ?w)\<lparr>manager := m, network := deliver_jobs deliver (cbPipeline req) (cbStage req)
        (cbRunNo req) newly (rtRunInfo (objects ?w ! ptr)) (network ?w)\<rparr>)" by blast
  then show ?thesis
    unfolding HandleJobFinished_known [OF assms(1,2)] using assms(5) st(2,3)
    by (simp add: after_job_def ret_def getPipelineRuntime_def)
      (simp add: get_stage_def set_stage_def update_object_def)
qed

lemma deliver_jobs_Nil [simp]: "deliver_jobs deliver p s n [] info = id"
  by (simp add: deliver_jobs_def fun_eq_iff)

text \<open>The last job ends the run: when the report completes the last stage of the order, the stage and
  then the run are recorded as successful with end times, and the run leaves the memory.\<close>

theorem HandleJobFinished_completes_run:
  assumes "known_job req status ptr st w" and "faults (wdb w) = []" and "store_inv (eColl env) (wdb w)"
    and "goes_on req status st" and "markJobSucceeded (cbJob req) st = (newly, st1)" and "isStageComplete st1"
    and "nextStageName (objects w ! ptr) (cbStage req) = None" and "inactive_status (eColl env) StatusSuccess"
    and "delivers env deliver" and "pool_ready (length newly) (manager w)"
  shows "\<exists>w'. HandleJobFinished env req w = (Inr (), w')
    \<and> stage_runs (wdb w') = finish_stage_rows (eColl env) (cbPipeline req) (cbRunNo req) (cbStage req)
        (clock w + 1) StatusSuccess (stage_runs (wdb w))
    \<and> pipeline_runs (wdb w') = finish_run_rows (eColl env) (cbPipeline req) (cbRunNo req)
        (clock w + 2) StatusSuccess (pipeline_runs (wdb w))
    \<and> getPipelineRuntime (cbPipeline req) (cbRunNo req) w' = None"
proof -
  let ?w = "w\<lparr>clock := clock w + 1, wdb := (wdb w)\<lparr>job_runs := finish_job_rows (eColl env) (cbPipeline req)
      (cbRunNo req) (cbStage req) (cbJob req) (clock w) status (job_runs (wdb w))\<rparr>\<rparr>"
  have uq: "uq_pipeline_runs (eColl env) (pipeline_runs (wdb w))" using assms(3) by (simp add: store_inv_def)
  have st: "status \<in> {StatusSuccess, StatusFailed}" "ptr < length (objects w)" using assms(1) by (simp_all add: known_job_def)
  have "pool_ready (length newly + 0) (manager ?w)" using assms(10) by simp
  from finish_in_stage_goes_on [OF assms(4) st(1) assms(5,9) this] obtain m where
    fin: "finish_in_stage env req status ptr st ?w = after_job env req ptr st1
      ((set_stage ptr (cbStage req) st1 ?w)\<lparr>manager := m, network := deliver_jobs deliver (cbPipeline req) (cbStage req)
        (cbRunNo req) newly (rtRunInfo (objects ?w ! ptr)) (network ?w)\<rparr>)" by blast
  have order: "nextStageName (objects (set_stage ptr (cbStage req) st1 ?w) ! ptr) (cbStage req) = None"
    using assms(7) st(2) by (simp add: set_stage_def update_object_def nextStageName_def)
  show ?thesis
    unfolding HandleJobFinished_known [OF assms(1,2)] fin
    using assms(2,6,8) order uq
    by (simp add: after_job_def andthen_Inr [OF finishStage_ok] advance_stage_def andthen_Inr [OF finishPipelineRun_ok]
        forget_runtime_def Let_def) (simp add: add.commute)
qed

text \<open>C8. A completed stage starts the next one: when the report completes a stage that is not the last,
  the stage is recorded as successful and exactly the ready jobs of the next stage in the order are
  published, under that stage's name.\<close>

theorem HandleJobFinished_advances:
  assumes "known_job req status ptr st w" and "faults (wdb w) = []" and "goes_on req status st"
    and "markJobSucceeded (cbJob req) st = ([], st1)" and "isStageComplete st1"
    and "nextStageName (objects w ! ptr) (cbStage req) = Some nxt" and "nxt \<noteq> cbStage req"
    and "get_stage ptr nxt w = Some nst" and "getReadyJobs nst = (ready, nst1)" and "\<not> isStageComplete nst1"
    and "delivers env deliver" and "pool_ready (length ready) (manager w)"
  shows "\<exists>w'. HandleJobFinished env req w = (Inr (), w')
    \<and> network w' = deliver_jobs deliver (cbPipeline req) nxt (cbRunNo req) ready (rtRunInfo (objects w ! ptr)) (network w)
    \<and> stage_runs (wdb w') = finish_stage_rows (eColl env) (cbPipeline req) (cbRunNo req) (cbStage req)
        (clock w + 1) StatusSuccess (stage_runs (wdb w))
    \<and> pipeline_runs (wdb w') = pipeline_runs (wdb w)
    \<and> get_stage ptr nxt w' = Some nst1 \<and> get_stage ptr (cbStage req) w' = Some st1
    \<and> getPipelineRuntime (cbPipeline req) (cbRunNo req) w' = Some ptr"
proof -
  let ?w = "w\<lparr>clock := clock w + 1, wdb := (wdb w)\<lparr>job_runs := finish_job_rows (eColl env) (cbPipeline req)
      (cbRunNo req) (cbStage req) (cbJob req) (clock w) status (job_runs (wdb w))\<rparr>\<rparr>"
  have st: "status \<in> {StatusSuccess, StatusFailed}" "ptr < length (objects w)"
      "getPipelineRuntime (cbPipeline req) (cbRunNo req) w = Some ptr" using assms(1) by (simp_all add: known_job_def)
  have "pool_ready (length ([] :: JobExecutionPlan list) + length ready) (manager ?w)" using assms(12) by simp
  from finish_in_stage_goes_on [OF assms(3) st(1) assms(4,11) this] obtain m where pool: "pool_ready (length ready) m" and
    fin: "finish_in_stage env req status ptr st ?w = after_job env req ptr st1
      ((set_stage ptr (cbStage req) st1 ?w)\<lparr>manager := m, network := network w\<rparr>)" by auto
  define w2 where "w2 = (set_stage ptr (cbStage req) st1 ?w)\<lparr>manager := m, network := network w, clock := clock w + 2,
    wdb := (wdb ?w)\<lparr>stage_runs := finish_stage_rows (eColl env) (cbPipeline req) (cbRunNo req) (cbStage req)
        (clock w + 1) StatusSuccess (stage_runs (wdb w))\<rparr>\<rparr>"
  have run: "HandleJobFinished env req w = advance_stage env req ptr w2"
    unfolding HandleJobFinished_known [OF assms(1,2)] fin w2_def
    using assms(2,5) by (simp add: after_job_def andthen_Inr [OF finishStage_ok]) (simp add: add.commute)
  have w2: "nextStageName (objects w2 ! ptr) (cbStage req) = Some nxt" "get_stage ptr nxt w2 = Some nst"
      "rtRunInfo (objects w2 ! ptr) = rtRunInfo (objects w ! ptr)" "ptr < length (objects w2)"
      "get_stage ptr (cbStage req) w2 = Some st1"
    using assms(6-8) st(2) by (simp_all add: w2_def set_stage_def update_object_def nextStageName_def get_stage_def)
  obtain m' where "enqueueReadyJobs env (cbPipeline req) nxt (cbRunNo req) ready (rtRunInfo (objects w ! ptr)) (set_stage ptr nxt nst1 w2)
      = (Inr (), (set_stage ptr nxt nst1 w2)\<lparr>manager := m', network :=
          deliver_jobs deliver (cbPipeline req) nxt (cbRunNo req) ready (rtRunInfo (objects w ! ptr)) (network w)\<rparr>)"
  proof -
    have "manager (set_stage ptr nxt nst1 w2) = m" "network (set_stage ptr nxt nst1 w2) = network w"
      by (simp_all add: w2_def)
    with enqueueReadyJobs_delivers [OF assms(11), of ready 0 "set_stage ptr nxt nst1 w2"
        "cbPipeline req" nxt "cbRunNo req" "rtRunInfo (objects w ! ptr)"] pool that show ?thesis by auto
  qed
  then have "HandleJobFinished env req w = (Inr (), (set_stage ptr nxt nst1 w2)\<lparr>manager := m', network :=
      deliver_jobs deliver (cbPipeline req) nxt (cbRunNo req) ready (rtRunInfo (objects w ! ptr)) (network w)\<rparr>)"
    unfolding run using w2 assms(9,10) by (simp add: advance_stage_def andthen_Inr ret_def Let_def)
  moreover have "get_stage ptr s ((set_stage ptr nxt nst1 w2)\<lparr>manager := m', network := net\<rparr>)
      = (if s = nxt then Some nst1 else get_stage ptr s w2)" for s net
    using w2(4) by (simp add: get_stage_def set_stage_def update_object_def)
  ultimately show ?thesis
    using w2(5) assms(7) st(3) by (simp add: w2_def getPipelineRuntime_def)
qed

lemma pool_ready_code [code]:
  "pool_ready k m =
     (case current m of
        None \<Rightarrow> False
      | Some p \<Rightarrow> p < length (sets m) \<and> pubs (sets m ! p) \<noteq> [] \<and> \<not> retired (sets m ! p)
          \<and> 0 \<le> sint (idx (sets m ! p)) \<and> sint (idx (sets m ! p)) + int k < 2 ^ 63)"
  by (simp add: pool_ready_def split: option.split)

end
