(* ===== verification/Runs.thy ===== *)
theory Runs
  imports Orchestrator
begin

text \<open>
  One run of a two-stage pipeline through the orchestrator, evaluated on the definitions, and the
  orchestrator's claims applied to it.
\<close>

section \<open>A run to look at\<close>

definition demo_env :: "(string, JobExecutionMessage list) env" where
  "demo_env =
     \<lparr>eColl = id, eIsolation = RepeatableRead, eBetween = id, eBroker = demo_broker,
      ePublishJob = (\<lambda>p msg sent. (Inr (), sent @ [msg])), eRangePlan = rev, eRangeStage = id, eTraceID = ''4bf9'',
      eSha256 = id, eUnmarshal = (\<lambda>_. Inr (pipeline_document demo_pipeline)),
      eMarshalValidate = (\<lambda>yaml. Inr (''{'' @ yaml @ ''}'')), eNewValidateRequest = None, ePostValidate = (\<lambda>_. Inr (200, Inr '''')), eDecodeValidate = (\<lambda>_. Inr \<lparr>vrValid = True, vrErrors = []\<rparr>)\<rparr>"

definition demo_request :: RunRequest where
  "demo_request = \<lparr>rqYAMLContent = ''pipeline'', rqBranch = ''main'', rqCommit = ''abc'', rqRepoURL = ''git'',
     rqWorkspacePath = ''''\<rparr>"

definition demo_world0 :: "(string, JobExecutionMessage list) world" where
  "demo_world0 = \<lparr>wdb = empty_db, objects = [], runtimes = [], manager = demo_manager, network = [], clock = 0,
     goroutines = []\<rparr>"

definition demo_world :: "(string, JobExecutionMessage list) world" where
  "demo_world = run_goroutine demo_env (snd (Run demo_env demo_request demo_world0))"

definition demo_report :: "string \<Rightarrow> string \<Rightarrow> string \<Rightarrow> JobStatusCallbackRequest" where
  "demo_report stage job status = \<lparr>cbPipeline = ''demo'', cbRunNo = 1, cbStage = stage, cbJob = job, cbStatus = status,
     cbLogs = '''', cbError = ''''\<rparr>"

lemma demo_world_published: "map (jepName \<circ> jmJob) (network demo_world) = [''compile'']"
  by code_simp

lemma demo_run_to_the_end:
  "let w1 = snd (HandleJobFinished demo_env (demo_report ''build'' ''compile'' ''failed'') demo_world);
       w2 = snd (HandleJobFinished demo_env (demo_report ''build'' ''link'' ''success'') w1);
       w3 = snd (HandleJobFinished demo_env (demo_report ''test'' ''unit'' ''success'') w2)
   in map (jepName \<circ> jmJob) (network w3) = [''compile'', ''link'', ''unit'']
      \<and> map rowStatus (pipeline_runs (wdb w3)) = [''success'']
      \<and> map srStatus (stage_runs (wdb w3)) = [''success'', ''success''] \<and> runtimes w3 = []"
  by code_simp

definition demo_world1 :: "(string, JobExecutionMessage list) world" where
  "demo_world1 = snd (HandleJobFinished demo_env (demo_report ''build'' ''compile'' ''success'') demo_world)"

definition demo_world2 :: "(string, JobExecutionMessage list) world" where
  "demo_world2 = snd (HandleJobFinished demo_env (demo_report ''build'' ''link'' ''success'') demo_world1)"

definition demo_stage_state :: "string \<Rightarrow> (string, JobExecutionMessage list) world \<Rightarrow> stageState" where
  "demo_stage_state stage w = (case get_stage 0 stage w of Some st \<Rightarrow> st)"

lemma demo_env_delivers: "delivers demo_env (\<lambda>msg sent. sent @ [msg])"
  by (simp add: delivers_def demo_env_def)

lemma demo_known:
  "known_job (demo_report ''build'' ''compile'' ''success'') StatusSuccess 0 (demo_stage_state ''build'' demo_world) demo_world"
  "known_job (demo_report ''build'' ''link'' ''failed'') StatusFailed 0 (demo_stage_state ''build'' demo_world1) demo_world1"
  "known_job (demo_report ''build'' ''link'' ''success'') StatusSuccess 0 (demo_stage_state ''build'' demo_world1) demo_world1"
  "known_job (demo_report ''test'' ''unit'' ''success'') StatusSuccess 0 (demo_stage_state ''test'' demo_world2) demo_world2"
  by code_simp+

lemma demo_faults: "faults (wdb demo_world) = []" "faults (wdb demo_world1) = []" "faults (wdb demo_world2) = []"
  by code_simp+

lemma demo_store_inv: "store_inv id (wdb demo_world1)" "store_inv id (wdb demo_world2)"
  by code_simp+

lemma demo_pools: "pool_ready 1 (manager demo_world)" "pool_ready 1 (manager demo_world1)" "pool_ready 0 (manager demo_world2)"
  by code_simp+

lemmas demo_healthy = demo_faults demo_store_inv demo_pools

lemma HandleJobFinished_failure_witness:
  "\<exists>w'. HandleJobFinished demo_env (demo_report ''build'' ''link'' ''failed'') demo_world1 = (Inr (), w')
    \<and> map rowStatus (pipeline_runs (wdb w')) = [''failed''] \<and> getPipelineRuntime ''demo'' 1 w' = None"
proof -
  have "\<not> allowFailures (map_get zero_config (jobConfigs (demo_stage_state ''build'' demo_world1)) ''link'')"
    and "map (\<lambda>r. (rowPipeline r, rowRunNo r)) (pipeline_runs (wdb demo_world1)) = [(''demo'', 1)]" by code_simp+
  then show ?thesis
    using HandleJobFinished_failure [of "demo_report ''build'' ''link'' ''failed''" 0 "demo_stage_state ''build'' demo_world1" demo_world1 demo_env]
      demo_known(2) demo_healthy(2,4)
    by (auto simp: demo_env_def demo_report_def inactive_status_def status_defs finish_run_rows_def)
qed

lemma HandleJobFinished_releases_witness:
  "\<exists>w'. HandleJobFinished demo_env (demo_report ''build'' ''compile'' ''success'') demo_world = (Inr (), w')
    \<and> map (jepName \<circ> jmJob) (network w') = [''compile'', ''link'']"
proof -
  let ?st = "demo_stage_state ''build'' demo_world"
  obtain newly st1 where mark: "markJobSucceeded ''compile'' ?st = (newly, st1)" by fastforce
  have "map jepName (fst (markJobSucceeded ''compile'' ?st)) = [''link'']"
    and "\<not> isStageComplete (snd (markJobSucceeded ''compile'' ?st))" by code_simp+
  with mark have new: "map jepName newly = [''link'']" "\<not> isStageComplete st1" by simp_all
  then have "length newly = 1" by (metis length_map list.size(3,4) One_nat_def add.right_neutral add_Suc_right)
  moreover have "goes_on (demo_report ''build'' ''compile'' ''success'') StatusSuccess ?st" by (simp add: goes_on_def)
  ultimately show ?thesis
    using HandleJobFinished_releases [OF demo_known(1) demo_healthy(1) _ _ new(2) demo_env_delivers] mark new(1)
      demo_healthy(6) demo_world_published
    by (auto simp: demo_report_def deliver_jobs_def buildJobExecutionMessage_def)
qed

lemma HandleJobFinished_advances_witness:
  "\<exists>w'. HandleJobFinished demo_env (demo_report ''build'' ''link'' ''success'') demo_world1 = (Inr (), w')
    \<and> map (jepName \<circ> jmJob) (network w') = [''compile'', ''link'', ''unit'']"
proof -
  let ?st = "demo_stage_state ''build'' demo_world1" and ?nst = "demo_stage_state ''test'' demo_world1"
  have marked: "fst (markJobSucceeded ''link'' ?st) = []" "isStageComplete (snd (markJobSucceeded ''link'' ?st))"
      "nextStageName (objects demo_world1 ! 0) ''build'' = Some ''test''" by code_simp+
  have next_stage: "get_stage 0 ''test'' demo_world1 = Some ?nst"
      "\<not> isStageComplete (snd (getReadyJobs ?nst))" "map jepName (fst (getReadyJobs ?nst)) = [''unit'']"
      "map (jepName \<circ> jmJob) (network demo_world1) = [''compile'', ''link'']" by code_simp+
  note facts = marked next_stage
  obtain ready nst1 where ready: "getReadyJobs ?nst = (ready, nst1)" by fastforce
  obtain st1 where mark: "markJobSucceeded ''link'' ?st = ([], st1)" using facts(1) by (metis prod.collapse)
  obtain job where job: "ready = [job]" "jepName job = ''unit''" using facts(6) unfolding ready by auto
  have "goes_on (demo_report ''build'' ''link'' ''success'') StatusSuccess ?st" by (simp add: goes_on_def)
  then show ?thesis
    using HandleJobFinished_advances [OF demo_known(3) demo_healthy(2), of st1 "''test''" ?nst ready nst1 demo_env "\<lambda>msg sent. sent @ [msg]"]
      mark facts ready job demo_env_delivers demo_healthy(7)
    by (auto simp: demo_report_def deliver_jobs_def buildJobExecutionMessage_def)
qed

lemma HandleJobFinished_completes_run_witness:
  "\<exists>w'. HandleJobFinished demo_env (demo_report ''test'' ''unit'' ''success'') demo_world2 = (Inr (), w')
    \<and> map rowStatus (pipeline_runs (wdb w')) = [''success''] \<and> getPipelineRuntime ''demo'' 1 w' = None"
proof -
  let ?st = "demo_stage_state ''test'' demo_world2"
  have facts: "fst (markJobSucceeded ''unit'' ?st) = []" "isStageComplete (snd (markJobSucceeded ''unit'' ?st))"
      "nextStageName (objects demo_world2 ! 0) ''test'' = None"
      "map (\<lambda>r. (rowPipeline r, rowRunNo r)) (pipeline_runs (wdb demo_world2)) = [(''demo'', 1)]" by code_simp+
  obtain st1 where mark: "markJobSucceeded ''unit'' ?st = ([], st1)" using facts(1) by (metis prod.collapse)
  have "goes_on (demo_report ''test'' ''unit'' ''success'') StatusSuccess ?st" by (simp add: goes_on_def)
  then show ?thesis
    using HandleJobFinished_completes_run [OF demo_known(4) demo_healthy(3), of demo_env "[]" st1 "\<lambda>msg sent. sent @ [msg]"]
      mark facts demo_env_delivers demo_healthy(5,8)
    by (auto simp: demo_env_def demo_report_def inactive_status_def status_defs finish_run_rows_def)
qed

end
