(* ===== verification/Run_Start.thy ===== *)
theory Run_Start
  imports Runs
begin

text \<open>
  The start of a run (\<open>Service.Run\<close> and the goroutine it leaves behind): a repeated request joins the
  run in flight, a new one is recorded with all its stages and jobs before anything is published, a
  failed first dispatch fails the run, and a publish that fails inside a callback loses the release of
  the dependents.
\<close>

section \<open>Answering a repeated request\<close>

lemma startPipelineRun_Inr:
  assumes "CreateRunOrGetActive (eColl env) (eIsolation env) (eBetween env) (run_input env p info key (clock w)) (wdb w)
    = (Inr result, d)"
  shows "andthen (wrap_err f (startPipelineRun env p info key)) g w
    = g (result, clock w) (w\<lparr>clock := clock w + 1, wdb := d\<rparr>)"
proof -
  have "wrap_err f (startPipelineRun env p info key) w = (Inr (result, clock w), w\<lparr>clock := clock w + 1, wdb := d\<rparr>)"
    using assms by (simp add: startPipelineRun_def wrap_err_def time_Now_then with_db_def andthen_Inr ret_def)
  then show ?thesis by (rule andthen_Inr)
qed

text \<open>A repeated request is answered with the run in flight: nothing is recorded, no runtime is
  created and nothing is dispatched.\<close>

theorem Run_deduplicates:
  assumes "prepareRun env req = Inr pp" and "store_inv (eColl env) (wdb w)" and "faults (wdb w) = []"
    and "inp = run_input env (pipelineName (ppPipeline pp)) (newRunInfo req)
      (buildRunRequestKey (eSha256 env) req (pipelineName (ppPipeline pp))) (clock w)"
    and "criRequestKey inp \<noteq> ''''" and "r \<in> set (pipeline_runs (wdb w))" and "in_flight (eColl env) inp r"
  shows "Run env req w
    = (Inr \<lparr>rrPipeline = pipelineName (ppPipeline pp), rrRunNo = rowRunNo r, rrStatus = rowStatus r, rrErrors = [],
            rrMessage = ''duplicate run request dropped; using in-flight run '' @ Itoa (rowRunNo r) @ ''.''\<rparr>,
       w\<lparr>clock := clock w + 1\<rparr>)"
proof -
  note found = deduplicated [OF assms(2,3,5-7), of "eIsolation env" "eBetween env", unfolded assms(4)]
  show ?thesis
    by (simp add: Run_def assms(1) initializePipelineRuntime_def startPipelineRun_Inr [OF found] ret_def Let_def)
qed

section \<open>Recording a new run\<close>

text \<open>The rows of a run's stages and jobs, without their start times.\<close>

definition queued_stage :: "string \<Rightarrow> int \<Rightarrow> StageRun \<Rightarrow> StageExecutionPlan \<Rightarrow> bool" where
  "queued_stage pname runNo r s \<longleftrightarrow>
     srPipeline r = pname \<and> srRunNo r = runNo \<and> srStage r = sepName s \<and> srEndTime r = None \<and> srStatus r = StatusQueued"

definition queued_job ::
  "string \<Rightarrow> int \<Rightarrow> ((string \<times> string) \<times> jobConfig) list \<Rightarrow> JobRun \<Rightarrow> string \<times> JobExecutionPlan \<Rightarrow> bool" where
  "queued_job pname runNo cfgs r job \<longleftrightarrow>
     jrPipeline r = pname \<and> jrRunNo r = runNo \<and> jrStage r = fst job \<and> jrJob r = jepName (snd job)
     \<and> jrEndTime r = None \<and> jrStatus r = StatusQueued
     \<and> jrFailures r = allowFailures (map_get zero_config cfgs (fst job, jepName (snd job)))"

definition stage_jobs :: "StageExecutionPlan \<Rightarrow> (string \<times> JobExecutionPlan) list" where
  "stage_jobs s = map (Pair (sepName s)) (sepJobs s)"

text \<open>No row of the run exists yet for the stages, or for the jobs of the stages.\<close>

definition new_stage :: "(string \<Rightarrow> string) \<Rightarrow> string \<Rightarrow> int \<Rightarrow> string \<Rightarrow> db \<Rightarrow> bool" where
  "new_stage coll p n s db \<longleftrightarrow>
     (\<forall>r \<in> set (stage_runs db). \<not> (coll (srPipeline r) = coll p \<and> srRunNo r = n \<and> coll (srStage r) = coll s))
     \<and> (\<forall>r \<in> set (job_runs db). \<not> (coll (jrPipeline r) = coll p \<and> jrRunNo r = n \<and> coll (jrStage r) = coll s))"

definition new_job :: "(string \<Rightarrow> string) \<Rightarrow> string \<Rightarrow> int \<Rightarrow> string \<Rightarrow> string \<Rightarrow> db \<Rightarrow> bool" where
  "new_job coll p n s j db \<longleftrightarrow>
     (\<forall>r \<in> set (job_runs db).
        \<not> (coll (jrPipeline r) = coll p \<and> jrRunNo r = n \<and> coll (jrStage r) = coll s \<and> coll (jrJob r) = coll j))"

lemma init_jobs_ok:
  assumes "faults (wdb w) = []" and "uq_job_runs (eColl env) (job_runs (wdb w))"
    and "distinct (map (eColl env \<circ> jepName) jobs)"
    and "\<forall>j \<in> set jobs. new_job (eColl env) p n s (jepName j) (wdb w)"
  shows "\<exists>rows. init_jobs env p n t s cfgs jobs st w
      = (Inr (st\<lparr>jobConfigs := fold (\<lambda>j. map_set (jepName j) (map_get zero_config cfgs (s, jepName j))) jobs (jobConfigs st)\<rparr>),
         w\<lparr>clock := clock w + int (length jobs), wdb := (wdb w)\<lparr>job_runs := job_runs (wdb w) @ rows\<rparr>\<rparr>)
    \<and> list_all2 (queued_job p n cfgs) rows (map (Pair s) jobs)
    \<and> uq_job_runs (eColl env) (job_runs (wdb w) @ rows)"
  using assms
proof (induction jobs arbitrary: st w)
  case (Cons j jobs)
  let ?row = "\<lparr>jrPipeline = p, jrRunNo = n, jrStage = s, jrJob = jepName j, jrStartTime = clock w, jrEndTime = None,
      jrStatus = StatusQueued, jrFailures = allowFailures (map_get zero_config cfgs (s, jepName j))\<rparr>"
  let ?w = "w\<lparr>clock := clock w + 1, wdb := (wdb w)\<lparr>job_runs := job_runs (wdb w) @ [?row]\<rparr>\<rparr>"
  have uq: "uq_job_runs (eColl env) (job_runs (wdb w) @ [?row])"
    using Cons.prems(2,4) by (auto simp: uq_job_runs_def new_job_def)
  then have start: "startJob env p n s (jepName j) (allowFailures (map_get zero_config cfgs (s, jepName j))) w = (Inr (), ?w)"
    using Cons.prems(1) by (simp add: startJob_def time_Now_then with_db_def CreateJob_def sql_insert_job_def)
  have "\<forall>j' \<in> set jobs. new_job (eColl env) p n s (jepName j') (wdb ?w)"
    using Cons.prems(3,4) by (auto simp: new_job_def)
  from Cons.IH [where w = ?w and st = "st\<lparr>jobConfigs := map_set (jepName j) (map_get zero_config cfgs (s, jepName j)) (jobConfigs st)\<rparr>", OF _ _ _ this] Cons.prems(1,3) uq obtain rows where
    "init_jobs env p n t s cfgs jobs (st\<lparr>jobConfigs := map_set (jepName j) (map_get zero_config cfgs (s, jepName j)) (jobConfigs st)\<rparr>) ?w
      = (Inr (st\<lparr>jobConfigs := fold (\<lambda>j. map_set (jepName j) (map_get zero_config cfgs (s, jepName j))) (j # jobs) (jobConfigs st)\<rparr>),
         w\<lparr>clock := clock w + int (length (j # jobs)), wdb := (wdb w)\<lparr>job_runs := job_runs (wdb w) @ ?row # rows\<rparr>\<rparr>)"
    "list_all2 (queued_job p n cfgs) rows (map (Pair s) jobs)" "uq_job_runs (eColl env) (job_runs (wdb w) @ ?row # rows)"
    by (auto simp: add.assoc)
  moreover have "queued_job p n cfgs ?row (s, j)" by (simp add: queued_job_def)
  ultimately show ?case using start by (intro exI [of _ "?row # rows"]) (simp add: Let_def)
qed (simp add: Let_def)

text \<open>The state of a stage before anything is handed out.\<close>

definition initial_stage ::
  "('p, 'n) env \<Rightarrow> Pipeline \<Rightarrow> ((string \<times> string) \<times> jobConfig) list \<Rightarrow> StageExecutionPlan \<Rightarrow> int \<Rightarrow> stageState" where
  "initial_stage env p cfgs s t =
     (newStageState (BuildStagePlan (eRangeStage env) (sepName s) (Some p)))\<lparr>startedAt := t,
       jobConfigs := fold (\<lambda>j. map_set (jepName j) (map_get zero_config cfgs (sepName s, jepName j))) (sepJobs s) []\<rparr>"

definition recordable :: "(string \<Rightarrow> string) \<Rightarrow> string \<Rightarrow> int \<Rightarrow> StageExecutionPlan list \<Rightarrow> db \<Rightarrow> bool" where
  "recordable coll p n stages db \<longleftrightarrow>
     faults db = [] \<and> uq_stage_runs coll (stage_runs db) \<and> uq_job_runs coll (job_runs db)
     \<and> distinct (map (coll \<circ> sepName) stages)
     \<and> (\<forall>s \<in> set stages. new_stage coll p n (sepName s) db \<and> distinct (map (coll \<circ> jepName) (sepJobs s)))"

lemma init_stages_ok:
  assumes "recordable (eColl env) (pipelineName p) n stages (wdb w)"
  shows "\<exists>states' srows jrows c. init_stages env p n t cfgs stages states order w
      = (Inr (states', order @ map sepName stages), w\<lparr>clock := c, wdb := (wdb w)\<lparr>stage_runs := stage_runs (wdb w) @ srows,
           job_runs := job_runs (wdb w) @ jrows\<rparr>\<rparr>)
    \<and> list_all2 (queued_stage (pipelineName p) n) srows stages
    \<and> list_all2 (queued_job (pipelineName p) n cfgs) jrows (concat (map stage_jobs stages))
    \<and> (\<forall>k. k \<notin> sepName ` set stages \<longrightarrow> map_of states' k = map_of states k)
    \<and> (\<forall>s \<in> set stages. \<exists>t. map_of states' (sepName s) = Some (initial_stage env p cfgs s t))"
  using assms
proof (induction stages arbitrary: states order w)
  case Nil
  show ?case by (intro exI [of _ states] exI [of _ "[]"] exI [of _ "clock w"]) simp
next
  case (Cons s stages)
  let ?p = "pipelineName p" and ?coll = "eColl env"
  let ?row = "\<lparr>srPipeline = ?p, srRunNo = n, srStage = sepName s, srStartTime = clock w, srEndTime = None, srStatus = StatusQueued\<rparr>"
  let ?db = "(wdb w)\<lparr>stage_runs := stage_runs (wdb w) @ [?row]\<rparr>"
  let ?w1 = "w\<lparr>clock := clock w + 1, wdb := ?db\<rparr>"
  let ?w2 = "?w1\<lparr>clock := 2 + clock w\<rparr>"
  have uq: "uq_stage_runs ?coll (stage_runs (wdb w) @ [?row])"
    using Cons.prems by (auto simp: recordable_def uq_stage_runs_def new_stage_def)
  then have start: "startStage env ?p n (sepName s) w = (Inr (), ?w1)"
    using Cons.prems by (simp add: startStage_def time_Now_then with_db_def CreateStage_def sql_insert_stage_def recordable_def)
  have "\<forall>j \<in> set (sepJobs s). new_job ?coll ?p n (sepName s) (jepName j) (wdb ?w2)"
    using Cons.prems by (auto simp: recordable_def new_stage_def new_job_def)
  from init_jobs_ok [OF _ _ _ this, of t cfgs "(newStageState (BuildStagePlan (eRangeStage env) (sepName s) (Some p)))\<lparr>startedAt := clock w + 1\<rparr>"]
    Cons.prems obtain jrows where jobs:
      "init_jobs env ?p n t (sepName s) cfgs (sepJobs s)
          ((newStageState (BuildStagePlan (eRangeStage env) (sepName s) (Some p)))\<lparr>startedAt := clock w + 1\<rparr>) ?w2
        = (Inr (initial_stage env p cfgs s (clock w + 1)), ?w2\<lparr>clock := 2 + clock w + int (length (sepJobs s)),
            wdb := ?db\<lparr>job_runs := job_runs (wdb w) @ jrows\<rparr>\<rparr>)"
      "list_all2 (queued_job ?p n cfgs) jrows (stage_jobs s)" "uq_job_runs ?coll (job_runs (wdb w) @ jrows)"
    by (auto simp: recordable_def initial_stage_def newStageState_def stage_jobs_def)
  let ?w3 = "?w2\<lparr>clock := 2 + clock w + int (length (sepJobs s)), wdb := ?db\<lparr>job_runs := job_runs (wdb w) @ jrows\<rparr>\<rparr>"
  have "jrStage r = sepName s" if "r \<in> set jrows" for r
    using jobs(2) that by (auto simp: stage_jobs_def queued_job_def list_all2_conv_all_nth in_set_conv_nth)
  then have "recordable ?coll ?p n stages (wdb ?w3)"
    using Cons.prems uq jobs(3) by (auto simp: recordable_def new_stage_def)
  from Cons.IH [OF this, of "map_set (sepName s) (initial_stage env p cfgs s (clock w + 1)) states" "order @ [sepName s]"]
  obtain states' srows jrows' c where rest:
      "init_stages env p n t cfgs stages (map_set (sepName s) (initial_stage env p cfgs s (clock w + 1)) states) (order @ [sepName s]) ?w3
        = (Inr (states', order @ map sepName (s # stages)), w\<lparr>clock := c, wdb := (wdb w)\<lparr>stage_runs := stage_runs (wdb w) @ ?row # srows,
           job_runs := job_runs (wdb w) @ jrows @ jrows'\<rparr>\<rparr>)"
      "list_all2 (queued_stage ?p n) srows stages"
      "list_all2 (queued_job ?p n cfgs) jrows' (concat (map stage_jobs stages))"
      "\<forall>k. k \<notin> sepName ` set stages \<longrightarrow> map_of states' k = map_of (map_set (sepName s) (initial_stage env p cfgs s (clock w + 1)) states) k"
      "\<forall>s \<in> set stages. \<exists>t. map_of states' (sepName s) = Some (initial_stage env p cfgs s t)"
    by auto
  have names: "sepName s \<notin> sepName ` set stages" using Cons.prems by (auto simp: recordable_def)
  show ?case
  proof (intro exI conjI)
    show "init_stages env p n t cfgs (s # stages) states order w
        = (Inr (states', order @ map sepName (s # stages)), w\<lparr>clock := c, wdb := (wdb w)\<lparr>stage_runs := stage_runs (wdb w) @ ?row # srows,
           job_runs := job_runs (wdb w) @ jrows @ jrows'\<rparr>\<rparr>)"
      using start jobs(1) rest(1) by (simp add: time_Now_then) (simp add: andthen_def)
    show "list_all2 (queued_stage ?p n) (?row # srows) (s # stages)" using rest(2) by (simp add: queued_stage_def)
    show "list_all2 (queued_job ?p n cfgs) (jrows @ jrows') (concat (map stage_jobs (s # stages)))"
      using jobs(2) rest(3) by (simp add: list_all2_appendI)
    show "\<forall>k. k \<notin> sepName ` set (s # stages) \<longrightarrow> map_of states' k = map_of states k" using rest(4) by simp
    show "\<forall>s \<in> set (s # stages). \<exists>t. map_of states' (sepName s) = Some (initial_stage env p cfgs s t)"
      using rest(4,5) names by auto
  qed
qed

text \<open>Stage and job rows belong to recorded runs.\<close>

definition rows_belong :: "(string \<Rightarrow> string) \<Rightarrow> db \<Rightarrow> bool" where
  "rows_belong coll db \<longleftrightarrow>
     (\<forall>s \<in> set (stage_runs db). \<exists>r \<in> set (pipeline_runs db). coll (rowPipeline r) = coll (srPipeline s) \<and> rowRunNo r = srRunNo s)
     \<and> (\<forall>j \<in> set (job_runs db). \<exists>r \<in> set (pipeline_runs db). coll (rowPipeline r) = coll (jrPipeline j) \<and> rowRunNo r = jrRunNo j)"

definition distinct_names :: "(string \<Rightarrow> string) \<Rightarrow> StageExecutionPlan list \<Rightarrow> bool" where
  "distinct_names coll stages \<longleftrightarrow>
     distinct (map (coll \<circ> sepName) stages) \<and> (\<forall>s \<in> set stages. distinct (map (coll \<circ> jepName) (sepJobs s)))"

text \<open>What \<open>Run\<close> leaves behind for a request that no run in flight answers.\<close>

lemma Run_new:
  assumes "prepareRun env req = Inr pp" and "name = pipelineName (ppPipeline pp)"
    and "stages = epStages (ppExecutionPlan pp)" and "stages \<noteq> []" and "distinct_names (eColl env) stages"
    and "inp = run_input env name (newRunInfo req) (buildRunRequestKey (eSha256 env) req name) (clock w)"
    and "store_inv (eColl env) (wdb w)" and "faults (wdb w) = []" and "rows_belong (eColl env) (wdb w)"
    and "\<forall>r \<in> set (pipeline_runs (wdb w)). \<not> in_flight (eColl env) inp r" and "eBetween env = id"
    and "has_number (eColl env) name (wdb w)" and "eColl env (eTraceID env) \<noteq> eColl env ''''"
  obtains n srows jrows w' where
    "Run env req w = (Inr \<lparr>rrPipeline = name, rrRunNo = n, rrStatus = StatusQueued, rrErrors = [], rrMessage = ''''\<rparr>, w')"
    and "\<forall>r \<in> set (pipeline_runs (wdb w)). eColl env (rowPipeline r) = eColl env name \<longrightarrow> rowRunNo r < n" and "1 \<le> n"
    and "pipeline_runs (wdb w') = pipeline_runs (wdb w) @ [new_run_row (eColl env) inp n]"
    and "stage_runs (wdb w') = stage_runs (wdb w) @ srows" and "list_all2 (queued_stage name n) srows stages"
    and "job_runs (wdb w') = job_runs (wdb w) @ jrows"
    and "list_all2 (queued_job name n (buildJobConfigs (Some (ppPipeline pp)))) jrows (concat (map stage_jobs stages))"
    and "getPipelineRuntime name n w' = Some (length (objects w))" and "length (objects w') = Suc (length (objects w))"
    and "\<exists>states. objects w' ! length (objects w) = \<lparr>rtPipeline = name, rtRunNo = n, stageOrder = map sepName stages, stageStates = states,
      rtRunInfo = newRunInfo req, pipelineStart = clock w, jobStartTimes = [], executionPlan = ppExecutionPlan pp\<rparr>"
    and "\<forall>s \<in> set stages. \<exists>t. get_stage (length (objects w)) (sepName s) w'
          = Some (initial_stage env (ppPipeline pp) (buildJobConfigs (Some (ppPipeline pp))) s t)"
    and "network w' = network w" and "goroutines w' = goroutines w @ [length (objects w)]" and "manager w' = manager w"
    and "faults (wdb w') = []" and "uq_pipeline_runs (eColl env) (pipeline_runs (wdb w'))"
proof -
  let ?coll = "eColl env" and ?cfgs = "buildJobConfigs (Some (ppPipeline pp))"
  have inp: "criPipeline inp = name" "criTraceID inp = eTraceID env" "criStatus inp = StatusQueued"
    by (simp_all add: assms(6) run_input_def)
  obtain n d where run: "CreateRunOrGetActive ?coll (eIsolation env) id inp (wdb w)
        = (Inr \<lparr>crrRunNo = n, crrDeduped = False, crrExistingStatus = StatusQueued\<rparr>, d)"
      "pipeline_runs d = pipeline_runs (wdb w) @ [new_run_row ?coll inp n]"
      "\<forall>r \<in> set (pipeline_runs (wdb w)). ?coll (rowPipeline r) = ?coll name \<longrightarrow> rowRunNo r < n"
      "faults d = []" "stage_runs d = stage_runs (wdb w)" "job_runs d = job_runs (wdb w)"
    using created_run [OF assms(7,8,10), of "eIsolation env"] assms(12,13) inp by auto
  have "store_inv ?coll d"
    using wp_CreateRunOrGetActive [OF assms(7), of id "eIsolation env" inp] run(1) by (simp add: wp_def)
  then have new: "1 \<le> n" "uq_pipeline_runs ?coll (pipeline_runs d)"
    using run(2) by (simp_all add: store_inv_def numbered_def new_run_row_def)
  have "recordable ?coll name n stages d"
    using assms(5,7,9) run(3-) by (fastforce simp: recordable_def distinct_names_def new_stage_def rows_belong_def store_inv_def)
  then obtain states srows jrows c where stages:
      "init_stages env (ppPipeline pp) n (clock w) ?cfgs stages [] [] (w\<lparr>clock := clock w + 1, wdb := d\<rparr>)
        = (Inr (states, map sepName stages), w\<lparr>clock := c, wdb := d\<lparr>stage_runs := stage_runs (wdb w) @ srows,
             job_runs := job_runs (wdb w) @ jrows\<rparr>\<rparr>)"
      "list_all2 (queued_stage name n) srows stages"
      "list_all2 (queued_job name n ?cfgs) jrows (concat (map stage_jobs stages))"
      "\<forall>s \<in> set stages. \<exists>t. map_of states (sepName s) = Some (initial_stage env (ppPipeline pp) ?cfgs s t)"
    using init_stages_ok [of env "ppPipeline pp" n stages "w\<lparr>clock := clock w + 1, wdb := d\<rparr>" "clock w" ?cfgs "[]" "[]"] run(5,6)
    by (auto simp: assms(2))
  have start: "CreateRunOrGetActive ?coll (eIsolation env) (eBetween env)
      (run_input env name (newRunInfo req) (buildRunRequestKey (eSha256 env) req name) (clock w)) (wdb w)
      = (Inr \<lparr>crrRunNo = n, crrDeduped = False, crrExistingStatus = StatusQueued\<rparr>, d)"
    using run(1) by (simp add: assms(6,11))
  let ?rt = "\<lparr>rtPipeline = name, rtRunNo = n, stageOrder = map sepName stages, stageStates = states,
      rtRunInfo = newRunInfo req, pipelineStart = clock w, jobStartTimes = [], executionPlan = ppExecutionPlan pp\<rparr>"
  let ?w1 = "w\<lparr>clock := c, wdb := d\<lparr>stage_runs := stage_runs (wdb w) @ srows, job_runs := job_runs (wdb w) @ jrows\<rparr>\<rparr>"
  have init: "initializePipelineRuntime env pp ?cfgs (newRunInfo req) (buildRunRequestKey (eSha256 env) req name) w
      = (Inr (Inr ?rt), ?w1)"
    using assms(4) stages(1)
    by (simp add: initializePipelineRuntime_def startPipelineRun_Inr [OF start] Let_def flip: assms(2,3))
      (simp add: andthen_def ret_def)
  define w' where "w' = (putRuntime (length (objects w)) (?w1\<lparr>objects := objects w @ [?rt]\<rparr>))
      \<lparr>goroutines := goroutines w @ [length (objects w)]\<rparr>"
  have "Run env req w
      = (Inr \<lparr>rrPipeline = name, rrRunNo = n, rrStatus = StatusQueued, rrErrors = [], rrMessage = ''''\<rparr>, w')"
    using init by (simp add: Run_def assms(1) w'_def putRuntime_def Let_def flip: assms(2))
  moreover have "getPipelineRuntime name n w' = Some (length (objects w))"
    by (simp add: w'_def putRuntime_def getPipelineRuntime_def Let_def)
  moreover have "get_stage (length (objects w)) k w' = map_of states k" for k
    by (simp add: w'_def putRuntime_def get_stage_def Let_def)
  moreover have "wdb w' = wdb ?w1" "network w' = network w" "goroutines w' = goroutines w @ [length (objects w)]"
      "manager w' = manager w" "length (objects w') = Suc (length (objects w))" "objects w' ! length (objects w) = ?rt"
    by (simp_all add: w'_def putRuntime_def Let_def)
  ultimately show ?thesis using that new run(2-4) stages(2-4) by auto
qed

text \<open>C26. A new request is recorded before anything runs: when no run of it is in flight, \<open>Run\<close> answers
  with a number above the pipeline's runs and the status queued, adds the run's row, one queued row
  for every stage and job of the plan in order, registers the runtime with the stages in their
  initial states, and leaves the dispatch to one new goroutine.\<close>

theorem Run_starts:
  assumes "prepareRun env req = Inr pp" and "name = pipelineName (ppPipeline pp)"
    and "stages = epStages (ppExecutionPlan pp)" and "stages \<noteq> []" and "distinct_names (eColl env) stages"
    and "inp = run_input env name (newRunInfo req) (buildRunRequestKey (eSha256 env) req name) (clock w)"
    and "store_inv (eColl env) (wdb w)" and "faults (wdb w) = []" and "rows_belong (eColl env) (wdb w)"
    and "\<forall>r \<in> set (pipeline_runs (wdb w)). \<not> in_flight (eColl env) inp r" and "eBetween env = id"
    and "has_number (eColl env) name (wdb w)" and "eColl env (eTraceID env) \<noteq> eColl env ''''"
  shows "\<exists>n srows jrows w'. Run env req w
      = (Inr \<lparr>rrPipeline = name, rrRunNo = n, rrStatus = StatusQueued, rrErrors = [], rrMessage = ''''\<rparr>, w')
    \<and> (\<forall>r \<in> set (pipeline_runs (wdb w)). eColl env (rowPipeline r) = eColl env name \<longrightarrow> rowRunNo r < n)
    \<and> pipeline_runs (wdb w') = pipeline_runs (wdb w) @ [new_run_row (eColl env) inp n]
    \<and> stage_runs (wdb w') = stage_runs (wdb w) @ srows \<and> list_all2 (queued_stage name n) srows stages
    \<and> job_runs (wdb w') = job_runs (wdb w) @ jrows
    \<and> list_all2 (queued_job name n (buildJobConfigs (Some (ppPipeline pp)))) jrows (concat (map stage_jobs stages))
    \<and> getPipelineRuntime name n w' = Some (length (objects w))
    \<and> stageOrder (objects w' ! length (objects w)) = map sepName stages
    \<and> (\<forall>s \<in> set stages. \<exists>t. get_stage (length (objects w)) (sepName s) w'
          = Some (initial_stage env (ppPipeline pp) (buildJobConfigs (Some (ppPipeline pp))) s t))
    \<and> network w' = network w \<and> goroutines w' = goroutines w @ [length (objects w)]"
  by (rule Run_new [OF assms]) (auto intro!: exI)

section \<open>The first dispatch\<close>

lemma run_goroutine_ready:
  assumes "goroutines w = ptr # rest" and "epStages (executionPlan (objects w ! ptr)) = s # stages"
    and "ptr < length (objects w)" and "get_stage ptr (sepName s) w = Some st" and "getReadyJobs st = (ready, st1)"
    and "ready \<noteq> []" and "delivers env deliver" and "pool_ready (length ready + c) (manager w)"
  shows "\<exists>m. run_goroutine env w = (set_stage ptr (sepName s) st1 w)\<lparr>goroutines := rest, manager := m,
     network := deliver_jobs deliver (rtPipeline (objects w ! ptr)) (sepName s) (rtRunNo (objects w ! ptr)) ready
       (rtRunInfo (objects w ! ptr)) (network w)\<rparr> \<and> pool_ready c m"
proof -
  let ?rt = "objects w ! ptr"
  let ?w = "(set_stage ptr (sepName s) st1 w)\<lparr>goroutines := rest\<rparr>"
  obtain m where m: "enqueueReadyJobs env (rtPipeline ?rt) (sepName s) (rtRunNo ?rt) ready (rtRunInfo ?rt) ?w
      = (Inr (), ?w\<lparr>manager := m, network := deliver_jobs deliver (rtPipeline ?rt) (sepName s) (rtRunNo ?rt) ready
          (rtRunInfo ?rt) (network w)\<rparr>)" "pool_ready c m"
    using enqueueReadyJobs_delivers [OF assms(7), of ready c ?w "rtPipeline ?rt" "sepName s" "rtRunNo ?rt" "rtRunInfo ?rt"]
      assms(8) by auto
  have same: "set_stage ptr (sepName s) st1 (w\<lparr>goroutines := rest\<rparr>) = ?w"
    by (simp add: set_stage_def update_object_def)
  have stage: "get_stage ptr (sepName s) (w\<lparr>goroutines := rest\<rparr>) = Some st"
    using assms(4) by (simp add: get_stage_def)
  have "enqueueFirstReadyStageJobs env (rtPipeline ?rt) (rtRunNo ?rt) (s # stages) ptr (rtRunInfo ?rt) (w\<lparr>goroutines := rest\<rparr>)
      = (Inr (), ?w\<lparr>manager := m, network := deliver_jobs deliver (rtPipeline ?rt) (sepName s) (rtRunNo ?rt) ready
          (rtRunInfo ?rt) (network w)\<rparr>)"
    using assms(5,6) stage m by (simp add: same wrap_err_def)
  then show ?thesis
    using assms(1,2) m(2) by (intro exI [of _ m]) (simp add: run_goroutine_def dispatchPipelineStartJobs_def Let_def)
qed

text \<open>Publishing changes the pool and the broker only.\<close>

definition published_only :: "('p, 'n) world \<Rightarrow> ('p, 'n) world \<Rightarrow> bool" where
  "published_only w w' \<longleftrightarrow>
     wdb w' = wdb w \<and> objects w' = objects w \<and> runtimes w' = runtimes w \<and> clock w' = clock w \<and> goroutines w' = goroutines w"

lemma publish_attempts_frame: "published_only w (snd (publish_attempts env msg k e w))"
proof (induction env msg k e w rule: publish_attempts.induct)
  case (2 env msg n lastErr w)
  then show ?case
    by (auto simp: published_only_def Let_def split: prod.splits option.splits sum.splits if_splits)
qed (simp add: published_only_def split: option.split)

lemma enqueueReadyJobs_frame: "published_only w (snd (enqueueReadyJobs env p s n jobs info w))"
proof (induction jobs arbitrary: w)
  case (Cons job jobs)
  obtain r w1 where w1: "enqueueJob env (buildJobExecutionMessage n p s job info) w = (r, w1)" by fastforce
  then have "published_only w w1"
    using publish_attempts_frame [of w env _ maxPublishAttempts None] unfolding enqueueJob_def by (metis snd_conv)
  with Cons.IH [of w1] w1 show ?case
    by (cases r) (auto simp: enqueueReadyJobs_def andthen_def published_only_def)
qed (simp add: enqueueReadyJobs_def ret_def published_only_def)

lemma enqueueFirst_frame:
  assumes "faults (wdb w) = []" and "enqueueFirstReadyStageJobs env p n stages ptr info w = (r, w')"
  shows "faults (wdb w') = [] \<and> pipeline_runs (wdb w') = pipeline_runs (wdb w)"
  using assms
proof (induction stages arbitrary: w)
  case (Cons s stages)
  show ?case
  proof (cases "get_stage ptr (sepName s) w")
    case (Some st)
    obtain ready st1 where ready: "getReadyJobs st = (ready, st1)" by fastforce
    let ?w1 = "set_stage ptr (sepName s) st1 w"
    consider (empty) "ready = []" "sepJobs s = []" | (blocked) "ready = []" "sepJobs s \<noteq> []" | (some) "ready \<noteq> []" by blast
    then show ?thesis
    proof cases
      case empty
      obtain w2 where "finishStageWithMetrics env p n (sepName s) StatusSuccess (startedAt st1) ?w1 = (Inr (), w2)"
          "faults (wdb w2) = []" "pipeline_runs (wdb w2) = pipeline_runs (wdb w)"
        using finishStage_ok [of ?w1] Cons.prems(1) by simp
      then show ?thesis using Cons.IH [of w2] Cons.prems(2) Some ready empty by (simp add: andthen_def wrap_err_def)
    next
      case blocked
      then show ?thesis using Cons.IH [of ?w1] Cons.prems Some ready by simp
    next
      case some
      obtain r2 w2 where w2: "enqueueReadyJobs env p (sepName s) n ready info ?w1 = (r2, w2)" by fastforce
      with enqueueReadyJobs_frame [of ?w1 env p "sepName s" n ready info] have "wdb w2 = wdb w"
        by (simp add: published_only_def)
      then show ?thesis using Cons.prems Some ready some w2 by (cases r2) (auto simp: wrap_err_def)
    qed
  qed (use Cons in simp)
qed simp

text \<open>C27. A failed first dispatch fails the run: whatever goes wrong while the first jobs are published,
  the run is recorded as failed with an end time, so its request can be made again, and the run
  leaves the memory.\<close>

theorem dispatch_failure_fails_run:
  assumes "dispatchPipelineStartJobs env ptr w = (Inl e, w')" and "rt = objects w ! ptr"
    and "faults (wdb w) = []" and "store_inv (eColl env) (wdb w)" and "inactive_status (eColl env) StatusFailed"
  shows "\<exists>t. pipeline_runs (wdb w') = finish_run_rows (eColl env) (rtPipeline rt) (rtRunNo rt) t StatusFailed (pipeline_runs (wdb w))
    \<and> getPipelineRuntime (rtPipeline rt) (rtRunNo rt) w' = None"
proof -
  obtain r w1 where w1: "enqueueFirstReadyStageJobs env (rtPipeline rt) (rtRunNo rt) (epStages (executionPlan rt)) ptr (rtRunInfo rt) w = (r, w1)"
    by fastforce
  have db: "faults (wdb w1) = []" "pipeline_runs (wdb w1) = pipeline_runs (wdb w)"
    using enqueueFirst_frame [OF assms(3) w1] by simp_all
  have "uq_pipeline_runs (eColl env) (pipeline_runs (wdb w1))" using assms(4) db(2) by (simp add: store_inv_def)
  from finishPipelineRun_ok [OF db(1) this assms(5)] assms(1,2) w1 db(2) show ?thesis
    by (cases r) (auto simp: dispatchPipelineStartJobs_def Let_def)
qed

section \<open>A lost release\<close>

lemma release_dependents_simps:
  "completed (snd (release_dependents ds st)) = completed st"
  "jobConfigs (snd (release_dependents ds st)) = jobConfigs st"
  by (induction ds st rule: release_dependents.induct) (auto simp: Let_def markQueued_def split: prod.split)

lemma markJobSucceeded_again:
  assumes "markJobSucceeded name st = (newly, st1)"
  shows "markJobSucceeded name st1 = ([], st1)" and "jobConfigs st1 = jobConfigs st"
proof -
  have "map_get False (completed st1) name" and "jobConfigs st1 = jobConfigs st"
    using assms release_dependents_simps [of "map_get [] (spDependents (plan st)) name" "markJobTerminal name st"]
    by (auto simp: markJobSucceeded_def markJobTerminal_def map_get_map_set Let_def split: if_splits)
  then show "markJobSucceeded name st1 = ([], st1)" "jobConfigs st1 = jobConfigs st"
    by (simp_all add: markJobSucceeded_def)
qed

text \<open>C28. A release is lost when its publish fails: the callback returns the error after the job was
  marked as completed and its dependents as queued, and a retry of the same callback succeeds without
  publishing anything, whatever the state of the broker, while the stage waits for those dependents.\<close>

theorem lost_release:
  assumes "known_job req status ptr st w" and "faults (wdb w) = []" and "goes_on req status st"
    and "markJobSucceeded (cbJob req) st = (newly, st1)" and "\<not> isStageComplete st1"
    and "HandleJobFinished env req w = (Inl e, w1)"
  shows "\<exists>w2. HandleJobFinished env' req w1 = (Inr (), w2) \<and> network w2 = network w1
    \<and> get_stage ptr (cbStage req) w2 = Some st1"
proof -
  let ?w = "w\<lparr>clock := clock w + 1, wdb := (wdb w)\<lparr>job_runs := finish_job_rows (eColl env) (cbPipeline req)
      (cbRunNo req) (cbStage req) (cbJob req) (clock w) status (job_runs (wdb w))\<rparr>\<rparr>"
  let ?w1 = "set_stage ptr (cbStage req) st1 ?w"
  have known: "status \<in> {StatusSuccess, StatusFailed}" "ptr < length (objects w)"
      "getPipelineRuntime (cbPipeline req) (cbRunNo req) w = Some ptr" "\<not> missing_fields req" "TrimSpace (cbStatus req) = status"
    using assms(1) by (simp_all add: known_job_def)
  have on: "\<not> (status = StatusFailed \<and> \<not> allowFailures (map_get zero_config (jobConfigs st) (cbJob req)))"
    using assms(3) known(1) by (auto simp: goes_on_def status_defs)
  obtain r w2 where enq: "enqueueReadyJobs env (cbPipeline req) (cbStage req) (cbRunNo req) newly (rtRunInfo (objects ?w ! ptr)) ?w1 = (r, w2)"
    by fastforce
  have "w2 = w1"
    using assms(5,6) on enq assms(4) unfolding HandleJobFinished_known [OF assms(1,2)]
    by (cases r) (auto simp: finish_in_stage_def after_job_def andthen_def ret_def Let_def)
  then have frame: "published_only ?w1 w1"
    using enqueueReadyJobs_frame [of ?w1 env] enq by (metis snd_conv)
  have again: "known_job req status ptr st1 w1" "faults (wdb w1) = []"
    using frame known assms(2) by (simp_all add: known_job_def published_only_def getPipelineRuntime_def get_stage_def)
      (simp_all add: set_stage_def update_object_def)
  have "jobConfigs st1 = jobConfigs st" "markJobSucceeded (cbJob req) st1 = ([], st1)"
    using markJobSucceeded_again [OF assms(4)] by simp_all
  with on assms(5) again(1) show ?thesis
    unfolding HandleJobFinished_known [OF again]
    by (auto simp: finish_in_stage_def after_job_def andthen_def ret_def enqueueReadyJobs_def known_job_def Let_def)
qed

section \<open>The claims on the demonstration run\<close>

definition demo_key :: string where
  "demo_key = buildRunRequestKey id demo_request ''demo''"

definition demo_down :: "(string, JobExecutionMessage list) env" where
  "demo_down = demo_env\<lparr>ePublishJob := (\<lambda>p msg sent. (Inl (Errorf ''publish''), sent))\<rparr>"

lemma demo_prepared: "map_sum id (pipelineName \<circ> ppPipeline) (prepareRun demo_env demo_request) = Inr ''demo''"
  by code_simp

lemma Run_deduplicates_witness:
  "\<exists>w'. Run demo_env demo_request demo_world = (Inr \<lparr>rrPipeline = ''demo'', rrRunNo = 1, rrStatus = StatusQueued,
      rrErrors = [], rrMessage = ''duplicate run request dropped; using in-flight run 1.''\<rparr>, w')"
proof -
  obtain pp where pp: "prepareRun demo_env demo_request = Inr pp" "pipelineName (ppPipeline pp) = ''demo''"
    using demo_prepared by (cases "prepareRun demo_env demo_request") auto
  let ?inp = "run_input demo_env ''demo'' (newRunInfo demo_request) demo_key (clock demo_world)"
  obtain r where r: "pipeline_runs (wdb demo_world) = [r]" "rowPipeline r = ''demo''" "rowRunNo r = 1"
      "rowStatus r = StatusQueued" "rowRequestKey r = Some demo_key"
  proof -
    have "map (\<lambda>r. (rowPipeline r, rowRunNo r, rowStatus r, rowRequestKey r)) (pipeline_runs (wdb demo_world))
      = [(''demo'', 1, StatusQueued, Some demo_key)]" by code_simp
    then show ?thesis using that by auto
  qed
  have key: "demo_key \<noteq> ''''" and msg: "Itoa 1 = ''1''" by code_simp+
  have "in_flight (eColl demo_env) ?inp r"
    using r by (simp add: in_flight_def active_def run_input_def demo_env_def)
  moreover have "store_inv (eColl demo_env) (wdb demo_world)" by code_simp
  ultimately show ?thesis
    using Run_deduplicates [OF pp(1), of demo_world ?inp r] pp(2) r key msg demo_healthy(1)
    by (simp add: run_input_def demo_env_def demo_key_def)
qed

lemma Run_starts_witness:
  "\<exists>n w'. Run demo_env demo_request demo_world0
      = (Inr \<lparr>rrPipeline = ''demo'', rrRunNo = n, rrStatus = StatusQueued, rrErrors = [], rrMessage = ''''\<rparr>, w')
    \<and> length (pipeline_runs (wdb w')) = 1 \<and> length (stage_runs (wdb w')) = 2 \<and> goroutines w' = [0]"
proof -
  obtain pp where pp: "prepareRun demo_env demo_request = Inr pp" "pipelineName (ppPipeline pp) = ''demo''"
    using demo_prepared by (cases "prepareRun demo_env demo_request") auto
  have "map_sum id (\<lambda>pp. map (\<lambda>s. (sepName s, map jepName (sepJobs s))) (epStages (ppExecutionPlan pp))) (prepareRun demo_env demo_request)
      = Inr [(''build'', [''compile'', ''link'']), (''test'', [''unit''])]" by code_simp
  then have plan: "map (\<lambda>s. (sepName s, map jepName (sepJobs s))) (epStages (ppExecutionPlan pp))
      = [(''build'', [''compile'', ''link'']), (''test'', [''unit''])]" by (simp add: pp)
  then obtain s1 s2 where stages: "epStages (ppExecutionPlan pp) = [s1, s2]" "sepName s1 = ''build''" "sepName s2 = ''test''"
      "map jepName (sepJobs s1) = [''compile'', ''link'']" "map jepName (sepJobs s2) = [''unit'']" by auto
  have names: "distinct_names (eColl demo_env) (epStages (ppExecutionPlan pp))"
    using stages by (simp add: distinct_names_def demo_env_def)
  let ?inp = "run_input demo_env ''demo'' (newRunInfo demo_request) (buildRunRequestKey (eSha256 demo_env) demo_request ''demo'') (clock demo_world0)"
  note start = Run_starts [OF pp(1) pp(2) [symmetric] refl _ names refl, of demo_world0]
  show ?thesis
    using start stages(1) store_inv_empty
    by (auto simp: demo_world0_def empty_db_def rows_belong_def has_number_def demo_env_def list_all2_Cons2)
qed

lemma dispatch_failure_fails_run_witness:
  "\<exists>e w'. dispatchPipelineStartJobs demo_down 0 (snd (Run demo_env demo_request demo_world0)) = (Inl e, w')
    \<and> map rowStatus (pipeline_runs (wdb w')) = [StatusFailed] \<and> getPipelineRuntime ''demo'' 1 w' = None"
proof -
  let ?w = "snd (Run demo_env demo_request demo_world0)"
  have "isl (fst (dispatchPipelineStartJobs demo_down 0 ?w))"
      "faults (wdb ?w) = []" "store_inv (eColl demo_down) (wdb ?w)" "inactive_status (eColl demo_down) StatusFailed"
      "rtPipeline (objects ?w ! 0) = ''demo''" "rtRunNo (objects ?w ! 0) = 1"
      "map (\<lambda>r. (rowPipeline r, rowRunNo r)) (pipeline_runs (wdb ?w)) = [(''demo'', 1)]"
    by code_simp+
  moreover from this(1) obtain e w' where "dispatchPipelineStartJobs demo_down 0 ?w = (Inl e, w')"
    by (metis isl_def prod.collapse)
  ultimately show ?thesis
    using dispatch_failure_fails_run [OF _ refl, of demo_down 0 ?w e w']
    by (auto simp: finish_run_rows_def demo_down_def demo_env_def)
qed

lemma lost_release_witness:
  "\<exists>e w1 w2. HandleJobFinished demo_down (demo_report ''build'' ''compile'' ''success'') demo_world = (Inl e, w1)
    \<and> HandleJobFinished demo_env (demo_report ''build'' ''compile'' ''success'') w1 = (Inr (), w2) \<and> network w2 = network w1"
proof -
  let ?st = "demo_stage_state ''build'' demo_world" and ?req = "demo_report ''build'' ''compile'' ''success''"
  obtain newly st1 where mark: "markJobSucceeded ''compile'' ?st = (newly, st1)" by fastforce
  have "\<not> isStageComplete (snd (markJobSucceeded ''compile'' ?st))" by code_simp
  with mark have "\<not> isStageComplete st1" by simp
  moreover have "isl (fst (HandleJobFinished demo_down ?req demo_world))" by code_simp
  then obtain e w1 where "HandleJobFinished demo_down ?req demo_world = (Inl e, w1)" by (metis isl_def prod.collapse)
  moreover have "goes_on ?req StatusSuccess ?st" by (simp add: goes_on_def)
  moreover have "markJobSucceeded (cbJob ?req) ?st = (newly, st1)" using mark by (simp add: demo_report_def)
  ultimately show ?thesis
    using lost_release [OF demo_known(1) demo_healthy(1), of newly st1 demo_down e w1 demo_env] by blast
qed

end
