(* ===== verification/Orchestrator_Http.thy ===== *)
theory Orchestrator_Http
  imports Run_Start Mq Gostd Http
begin

text \<open>
  The outside of the orchestrator: construction and readiness of the service
  (\<open>internal/services/orchestrator/service.go\<close>) and its HTTP endpoints (\<open>handler.go\<close>). Reading the JSON
  of a request is a parameter. Shown: a callback has the effect of its
  handler, and none when its request cannot be decoded.
\<close>

section \<open>The service\<close>

definition Orchestrator_NewService ::
  "(string \<Rightarrow> string) \<Rightarrow> (string \<Rightarrow> goerr + 's) \<Rightarrow> (mqConfig \<Rightarrow> 'p broker) \<Rightarrow> goerr + 's \<times> 'p publisherManager \<times> string" where
  "Orchestrator_NewService getenv store_New net =
     (let connURL = TrimSpace (getenv ''DATABASE_URL'') in
      if connURL = '''' then Inl (Errorf ''DATABASE_URL is required'')
      else
        (case store_New connURL of
           Inl e \<Rightarrow> Inl (wrapf ''failed to connect report store: '' e)
         | Inr st \<Rightarrow>
             (let cfg = mq_LoadConfig getenv in
              case mqConfig_Validate cfg of
                Some e \<Rightarrow> Inl (wrapf ''mq config is invalid: '' e)
              | None \<Rightarrow>
                  (case newPublisherManager (net cfg) (loadPublisherConcurrency Atoi (getenv ''PUBLISHER_CONCURRENCY'')) of
                     Inl e \<Rightarrow> Inl (wrapf ''failed to create publisher manager: '' e)
                   | Inr m \<Rightarrow> Inr (st, m, GetEnvOrDefaultURL getenv ''VALIDATION_URL'' DefaultValidationURL)))))"

definition Orchestrator_Ready :: "goerr option option \<Rightarrow> 'b amqp \<Rightarrow> (string \<Rightarrow> string) \<Rightarrow> ('b, unit) op" where
  "Orchestrator_Ready store_Ping am getenv =
     (case store_Ping of
        None \<Rightarrow> fail (Errorf ''report store is not initialized'')
      | Some (Some e) \<Rightarrow> fail (wrapf ''report store is not ready: '' e)
      | Some None \<Rightarrow> wrap_err (wrapf ''mq is not ready: '') (PingMQ am (mq_LoadConfig getenv)))"

text \<open>Closing the service closes the publishers; the connection pool of the store is not part of the state.\<close>

definition Orchestrator_Close :: "('p, 'n) world \<Rightarrow> ('p, 'n) world" where
  "Orchestrator_Close w = w\<lparr>manager := manager_Close (manager w)\<rparr>"

section \<open>The endpoints\<close>

definition orchestrator_handleHealth :: "encoder \<Rightarrow> http_request \<Rightarrow> http_response" where
  "orchestrator_handleHealth enc r =
     (if hrMethod r \<noteq> ''GET'' then method_not_allowed enc else WriteJSON enc 200 (AnyStatus \<lparr>stStatus = ''healthy''\<rparr>))"

definition orchestrator_handleReady ::
  "encoder \<Rightarrow> goerr option option \<Rightarrow> 'b amqp \<Rightarrow> (string \<Rightarrow> string) \<Rightarrow> http_request \<Rightarrow> 'b \<Rightarrow> http_response \<times> 'b" where
  "orchestrator_handleReady enc store_Ping am getenv r b =
     (if hrMethod r \<noteq> ''GET'' then (method_not_allowed enc, b)
      else
        (case Orchestrator_Ready store_Ping am getenv b of
           (Inl e, b1) \<Rightarrow> (WriteJSONError enc 503 (''orchestrator service not ready: '' @ Error e), b1)
         | (Inr _, b1) \<Rightarrow> (WriteJSON enc 200 (AnyStatus \<lparr>stStatus = ''ready''\<rparr>), b1)))"

text \<open>Reading and decoding a request body, with the answer when that fails.\<close>

definition decode_request :: "encoder \<Rightarrow> (string \<Rightarrow> goerr + 'r) \<Rightarrow> http_request \<Rightarrow> http_response + 'r" where
  "decode_request enc unmarshal r =
     (if hrMethod r \<noteq> ''POST'' then Inl (method_not_allowed enc)
      else
        (case hrBody r of
           Inl e \<Rightarrow> Inl (WriteJSONError enc 400 (''failed to read request body: '' @ Error e))
         | Inr body \<Rightarrow>
             (case unmarshal body of
                Inl e \<Rightarrow> Inl (WriteJSONError enc 400 (''invalid JSON: '' @ Error e))
              | Inr req \<Rightarrow> Inr req)))"

text \<open>A response with errors in it is not written: the server then sends status 200 with an empty body.\<close>

definition handleExecution ::
  "encoder \<Rightarrow> (string \<Rightarrow> goerr + RunRequest) \<Rightarrow> ('p, 'n) env \<Rightarrow> http_request \<Rightarrow> ('p, 'n) world \<Rightarrow> http_response \<times> ('p, 'n) world" where
  "handleExecution enc unmarshal env r w =
     (case decode_request enc unmarshal r of
        Inl resp \<Rightarrow> (resp, w)
      | Inr req \<Rightarrow>
          (case Orchestrator.Run env req w of
             (Inl e, w1) \<Rightarrow> (WriteJSONError enc 500 (Error e), w1)
           | (Inr resp, w1) \<Rightarrow>
               (if rrErrors resp = [] then WriteJSON enc 200 (AnyRun resp)
                else \<lparr>hsStatus = 200, hsContentType = '''', hsBody = ''''\<rparr>, w1)))"

definition decodeJobCallbackRequest ::
  "encoder \<Rightarrow> (string \<Rightarrow> goerr + JobStatusCallbackRequest) \<Rightarrow> http_request \<Rightarrow> http_response + JobStatusCallbackRequest" where
  "decodeJobCallbackRequest enc unmarshal r = decode_request enc unmarshal r"

definition handleJobCallback ::
  "encoder \<Rightarrow> (string \<Rightarrow> goerr + JobStatusCallbackRequest) \<Rightarrow> (JobStatusCallbackRequest \<Rightarrow> ('p, 'n, unit) handler) \<Rightarrow>
     http_request \<Rightarrow> ('p, 'n) world \<Rightarrow> http_response \<times> ('p, 'n) world" where
  "handleJobCallback enc unmarshal fn r w =
     (case decodeJobCallbackRequest enc unmarshal r of
        Inl resp \<Rightarrow> (resp, w)
      | Inr req \<Rightarrow>
          (case fn req w of
             (Inl e, w1) \<Rightarrow> (WriteJSONError enc 500 (Error e), w1)
           | (Inr _, w1) \<Rightarrow> (WriteJSON enc 200 (AnyStatus \<lparr>stStatus = ''ok''\<rparr>), w1)))"

definition handleJobStarted ::
  "encoder \<Rightarrow> (string \<Rightarrow> goerr + JobStatusCallbackRequest) \<Rightarrow> ('p, 'n) env \<Rightarrow> http_request \<Rightarrow> ('p, 'n) world \<Rightarrow> http_response \<times> ('p, 'n) world" where
  "handleJobStarted enc unmarshal env = handleJobCallback enc unmarshal (HandleJobStarted env)"

definition handleJobFinished ::
  "encoder \<Rightarrow> (string \<Rightarrow> goerr + JobStatusCallbackRequest) \<Rightarrow> ('p, 'n) env \<Rightarrow> http_request \<Rightarrow> ('p, 'n) world \<Rightarrow> http_response \<times> ('p, 'n) world" where
  "handleJobFinished enc unmarshal env = handleJobCallback enc unmarshal (HandleJobFinished env)"

text \<open>The routes.\<close>

definition serve_orchestrator ::
  "encoder \<Rightarrow> (string \<Rightarrow> goerr + RunRequest) \<Rightarrow> (string \<Rightarrow> goerr + JobStatusCallbackRequest) \<Rightarrow>
     goerr option option \<Rightarrow> ('p, 'n) world amqp \<Rightarrow> (string \<Rightarrow> string) \<Rightarrow> ('p, 'n) env \<Rightarrow>
     http_request \<Rightarrow> ('p, 'n) world \<Rightarrow> http_response \<times> ('p, 'n) world" where
  "serve_orchestrator enc unmarshalRun unmarshalCallback store_Ping am getenv env r w =
     (if hrPath r = ''/health'' then (orchestrator_handleHealth enc r, w)
      else if hrPath r = ''/run'' then handleExecution enc unmarshalRun env r w
      else if hrPath r = ''/ready'' then orchestrator_handleReady enc store_Ping am getenv r w
      else if hrPath r = ''/callbacks/job-started'' then handleJobStarted enc unmarshalCallback env r w
      else if hrPath r = ''/callbacks/job-finished'' then handleJobFinished enc unmarshalCallback env r w
      else (http_Error ''404 page not found'' 404, w))"

lemma handleJobCallback_effect:
  "snd (handleJobCallback enc unmarshal fn r w) =
     (case decodeJobCallbackRequest enc unmarshal r of Inl _ \<Rightarrow> w | Inr req \<Rightarrow> snd (fn req w))"
  by (simp add: handleJobCallback_def split: sum.split prod.split)

end
