(* ===== verification/Lifetime.thy ===== *)
theory Lifetime
  imports Run_Start
begin

text \<open>
  The tables of the report database over the life of the orchestrator
  (\<open>internal/services/orchestrator\<close>, \<open>internal/store\<close>): which statuses and times rows can have, and
  which rows refer to which. Each operation of the store preserves the invariant when it is called
  the way the orchestrator calls it, each handler preserves it, and so does every step of the service.
  The other instances that share the database are an interface (\<open>orchestrator_peers\<close>).
\<close>

section \<open>Well-typed tables\<close>

definition is_finished :: "string \<Rightarrow> bool" where
  "is_finished status \<longleftrightarrow> status = StatusSuccess \<or> status = StatusFailed"

definition run_typed :: "run_row \<Rightarrow> bool" where
  "run_typed r \<longleftrightarrow> (if rowEndTime r = None then rowStatus r = StatusQueued else is_finished (rowStatus r))"

definition stage_typed :: "StageRun \<Rightarrow> bool" where
  "stage_typed s \<longleftrightarrow> (if srEndTime s = None then srStatus s = StatusQueued else is_finished (srStatus s))"

definition job_typed :: "JobRun \<Rightarrow> bool" where
  "job_typed j \<longleftrightarrow> jrStatus j = StatusRunning
     \<or> (if jrEndTime j = None then jrStatus j = StatusQueued else is_finished (jrStatus j))"

text \<open>The keys of the rows, up to the collation, and the references between the tables.\<close>

definition run_keys :: "(string \<Rightarrow> string) \<Rightarrow> db \<Rightarrow> (string \<times> int) set" where
  "run_keys coll db = (\<lambda>r. (coll (rowPipeline r), rowRunNo r)) ` set (pipeline_runs db)"

definition stage_keys :: "(string \<Rightarrow> string) \<Rightarrow> db \<Rightarrow> (string \<times> int \<times> string) set" where
  "stage_keys coll db = (\<lambda>r. (coll (srPipeline r), srRunNo r, coll (srStage r))) ` set (stage_runs db)"

definition rows_typed :: "(string \<Rightarrow> string) \<Rightarrow> db \<Rightarrow> bool" where
  "rows_typed coll db \<longleftrightarrow>
     (\<forall>r \<in> set (pipeline_runs db). run_typed r)
     \<and> (\<forall>s \<in> set (stage_runs db). stage_typed s \<and> (coll (srPipeline s), srRunNo s) \<in> run_keys coll db)
     \<and> (\<forall>j \<in> set (job_runs db). job_typed j \<and> (coll (jrPipeline j), jrRunNo j, coll (jrStage j)) \<in> stage_keys coll db)"

text \<open>The invariant of the proofs: also the runs and stages that are known to exist.\<close>

definition rows_ok :: "(string \<Rightarrow> string) \<Rightarrow> (string \<times> int) set \<Rightarrow> (string \<times> int \<times> string) set \<Rightarrow> db \<Rightarrow> bool" where
  "rows_ok coll R S db \<longleftrightarrow> store_inv coll db \<and> rows_typed coll db \<and> R \<subseteq> run_keys coll db \<and> S \<subseteq> stage_keys coll db"

lemma rows_ok_same:
  assumes "pipeline_runs db' = pipeline_runs db" "stage_runs db' = stage_runs db" "job_runs db' = job_runs db"
    "sequences db' = sequences db"
  shows "rows_ok coll R S db' = rows_ok coll R S db"
  using assms by (simp add: rows_ok_def store_inv_def rows_typed_def run_keys_def stage_keys_def)

lemma rows_ok_faults [simp]: "rows_ok coll R S (db\<lparr>faults := fs\<rparr>) = rows_ok coll R S db"
  by (rule rows_ok_same) simp_all

lemma rows_ok_rollback [simp]: "rows_ok coll R S (sql_rollback db tx) = rows_ok coll R S db"
  by (rule rows_ok_same) (simp_all add: sql_rollback_def)

lemma rows_ok_empty: "rows_ok coll {} {} empty_db"
  using store_inv_empty by (simp add: rows_ok_def rows_typed_def) (simp add: empty_db_def)

lemma preserves_exec: "preserves (rows_ok coll R S) stmt \<Longrightarrow> preserves (rows_ok coll R S) (exec stmt)"
  by (auto simp: preserves_def intro!: exec_keeps [where I = "rows_ok coll R S"])

text \<open>Updates keep the keys of all rows.\<close>

lemma image_if_keys: "(\<And>r. key (change r) = key r) \<Longrightarrow> key ` set (map (\<lambda>r. if P r then change r else r) rs) = key ` set rs"
  unfolding set_map image_image by (rule image_cong) simp_all

lemma update_run_ok:
  assumes "is_finished status" and ok: "rows_ok coll R S db"
  shows "rows_ok coll R S (snd (sql_update_run coll p n (\<lambda>r. r\<lparr>rowEndTime := Some t, rowStatus := status\<rparr>) db))"
    (is "rows_ok coll R S ?db'")
proof -
  let ?c = "\<lambda>r. if coll (rowPipeline r) = coll p \<and> rowRunNo r = n then r\<lparr>rowEndTime := Some t, rowStatus := status\<rparr> else r"
  have rows: "stage_runs ?db' = stage_runs db" "job_runs ?db' = job_runs db"
    "pipeline_runs ?db' = map ?c (pipeline_runs db) \<or> pipeline_runs ?db' = pipeline_runs db"
    by (auto simp: sql_update_run_def Let_def)
  have "store_inv coll ?db'" using ok by (intro sql_update_run_keeps) (simp_all add: rows_ok_def)
  moreover have "run_keys coll ?db' = run_keys coll db"
    using rows(3) by (elim disjE) (simp_all only: run_keys_def, subst image_if_keys, simp_all)
  moreover have "stage_keys coll ?db' = stage_keys coll db" using rows by (simp add: stage_keys_def)
  moreover have "\<forall>r \<in> set (pipeline_runs ?db'). run_typed r"
    using ok rows(3) assms(1) by (auto simp: rows_ok_def rows_typed_def run_typed_def)
  ultimately show ?thesis using ok rows by (simp add: rows_ok_def rows_typed_def)
qed

lemma update_stage_ok:
  assumes "is_finished status" and ok: "rows_ok coll R S db"
  shows "rows_ok coll R S (snd (sql_update_stage coll p n s (\<lambda>r. r\<lparr>srEndTime := Some t, srStatus := status\<rparr>) db))"
    (is "rows_ok coll R S ?db'")
proof -
  let ?c = "\<lambda>r. if coll (srPipeline r) = coll p \<and> srRunNo r = n \<and> coll (srStage r) = coll s
    then r\<lparr>srEndTime := Some t, srStatus := status\<rparr> else r"
  have rows: "pipeline_runs ?db' = pipeline_runs db" "job_runs ?db' = job_runs db" "stage_runs ?db' = map ?c (stage_runs db)"
    by (auto simp: sql_update_stage_def)
  have "store_inv coll ?db'" using ok by (intro sql_update_stage_keeps) (simp_all add: rows_ok_def)
  moreover have "run_keys coll ?db' = run_keys coll db" "stage_keys coll ?db' = stage_keys coll db"
    using rows by (simp_all only: run_keys_def stage_keys_def, subst image_if_keys) simp_all
  moreover have "\<forall>r \<in> set (stage_runs ?db'). stage_typed r \<and> (coll (srPipeline r), srRunNo r) \<in> run_keys coll db"
    using ok assms(1) unfolding rows(3) by (auto simp: rows_ok_def rows_typed_def stage_typed_def)
  ultimately show ?thesis using ok rows(1,2) by (simp add: rows_ok_def rows_typed_def)
qed

lemma update_job_ok:
  assumes typed: "\<And>j. job_typed j \<Longrightarrow> job_typed (change j)"
    and keys: "\<And>j. jrPipeline (change j) = jrPipeline j \<and> jrRunNo (change j) = jrRunNo j \<and> jrStage (change j) = jrStage j \<and> jrJob (change j) = jrJob j"
    and ok: "rows_ok coll R S db"
  shows "rows_ok coll R S (snd (sql_update_job coll p n s j change db))" (is "rows_ok coll R S ?db'")
proof -
  let ?c = "\<lambda>r. if coll (jrPipeline r) = coll p \<and> jrRunNo r = n \<and> coll (jrStage r) = coll s \<and> coll (jrJob r) = coll j
    then change r else r"
  have rows: "pipeline_runs ?db' = pipeline_runs db" "stage_runs ?db' = stage_runs db" "job_runs ?db' = map ?c (job_runs db)"
    by (auto simp: sql_update_job_def)
  have "store_inv coll ?db'" using ok keys by (intro sql_update_job_keeps) (simp_all add: rows_ok_def)
  moreover have "run_keys coll ?db' = run_keys coll db" "stage_keys coll ?db' = stage_keys coll db"
    using rows by (simp_all add: run_keys_def stage_keys_def)
  moreover have "\<forall>r \<in> set (job_runs ?db'). job_typed r \<and> (coll (jrPipeline r), jrRunNo r, coll (jrStage r)) \<in> stage_keys coll db"
    using ok typed keys unfolding rows(3) by (auto simp: rows_ok_def rows_typed_def)
  ultimately show ?thesis using ok rows(1,2) by (simp add: rows_ok_def rows_typed_def)
qed

lemma finish_ok:
  assumes "is_finished status"
  shows UpdateRun_ok: "preserves (rows_ok coll R S) (UpdateRun coll p n \<lparr>updEndTime = Some t, updStatus = status\<rparr>)"
    and UpdateStage_ok: "preserves (rows_ok coll R S) (UpdateStage coll p n s \<lparr>updEndTime = Some t, updStatus = status\<rparr>)"
    and UpdateJob_ok: "preserves (rows_ok coll R S) (UpdateJob coll p n s j \<lparr>updEndTime = Some t, updStatus = status\<rparr>)"
proof -
  have "job_typed (r\<lparr>jrEndTime := Some t, jrStatus := status\<rparr>)" for r using assms by (simp add: job_typed_def)
  then show "preserves (rows_ok coll R S) (UpdateJob coll p n s j \<lparr>updEndTime = Some t, updStatus = status\<rparr>)"
    by (auto simp: UpdateJob_def preserves_def intro!: preserves_exec [unfolded preserves_def, rule_format] update_job_ok)
qed (use assms in \<open>auto simp: UpdateRun_def UpdateStage_def preserves_def
    intro!: preserves_exec [unfolded preserves_def, rule_format] update_run_ok update_stage_ok\<close>)

lemma running_ok: "preserves (rows_ok coll R S) (UpdateJob coll p n s j \<lparr>updEndTime = None, updStatus = StatusRunning\<rparr>)"
  by (auto simp: UpdateJob_def preserves_def job_typed_def
      intro!: preserves_exec [unfolded preserves_def, rule_format] update_job_ok)

text \<open>Inserts, each under the row it refers to.\<close>

lemma CreateStage_ok:
  assumes "rows_ok coll R S db" and "(coll p, n) \<in> R"
  shows "wp (CreateStage coll p n s t StatusQueued) (\<lambda>_. rows_ok coll R (insert (coll p, n, coll s) S)) (\<lambda>_. rows_ok coll R S) db"
proof -
  let ?row = "\<lparr>srPipeline = p, srRunNo = n, srStage = s, srStartTime = t, srEndTime = None, srStatus = StatusQueued\<rparr>"
  have inv: "store_inv coll (snd (sql_insert_stage coll ?row db))" if "store_inv coll db" for db
    using that by (simp add: sql_insert_stage_def store_inv_def)
  have ins: "wp (sql_insert_stage coll ?row) (\<lambda>_. rows_ok coll R (insert (coll p, n, coll s) S)) (\<lambda>_. rows_ok coll R S) db"
    if "rows_ok coll R S db" for db
    using that inv [of db] assms(2)
    by (auto simp: wp_def sql_insert_stage_def rows_ok_def rows_typed_def stage_typed_def run_keys_def stage_keys_def)
  have weak: "rows_ok coll R S db" if "rows_ok coll R (insert k S) db" for k db using that by (simp add: rows_ok_def)
  show ?thesis
    unfolding CreateStage_def
  proof (rule wp_exec)
    fix fs
    show "wp (sql_insert_stage coll ?row) (\<lambda>_. rows_ok coll R (insert (coll p, n, coll s) S)) (\<lambda>_. rows_ok coll R S) (db\<lparr>faults := fs\<rparr>)"
      using assms(1) by (intro ins) simp
    then show "rows_ok coll R S (snd (sql_insert_stage coll ?row (db\<lparr>faults := fs\<rparr>)))"
      using weak by (auto simp: wp_def split: prod.splits sum.splits)
  qed (use assms in simp)
qed

lemma CreateJob_ok:
  assumes "(coll p, n, coll s) \<in> S"
  shows "preserves (rows_ok coll R S) (CreateJob coll p n s j t StatusQueued f)"
  unfolding CreateJob_def
proof (rule preserves_exec, unfold preserves_def, intro allI impI)
  let ?row = "\<lparr>jrPipeline = p, jrRunNo = n, jrStage = s, jrJob = j, jrStartTime = t, jrEndTime = None, jrStatus = StatusQueued, jrFailures = f\<rparr>"
  fix db assume ok: "rows_ok coll R S db"
  have "store_inv coll (snd (sql_insert_job coll ?row db))" using ok by (simp add: sql_insert_job_def store_inv_def rows_ok_def)
  with ok assms show "rows_ok coll R S (snd (sql_insert_job coll ?row db))"
    by (auto simp: sql_insert_job_def rows_ok_def rows_typed_def job_typed_def run_keys_def stage_keys_def)
qed

text \<open>A transaction that allocates a number and inserts the run.\<close>

lemma createRunTx_rows:
  assumes "rows_ok coll R S db" and "criStatus inp = StatusQueued"
  shows "wp (createRunTx coll inp) (\<lambda>n. rows_ok coll (insert (coll (criPipeline inp), n) R) S) (\<lambda>_. rows_ok coll R S) db"
proof -
  let ?typed = "\<lambda>db. rows_typed coll db \<and> R \<subseteq> run_keys coll db \<and> S \<subseteq> stage_keys coll db"
  have faults: "?typed (db\<lparr>faults := fs\<rparr>) = ?typed db" for db fs by (simp add: rows_typed_def run_keys_def stage_keys_def)
  have ex: "preserves ?typed (exec m)" if "preserves ?typed m" for m :: "'x stmt"
    using that faults unfolding preserves_def by (intro allI impI exec_keeps [where I = ?typed]) blast+
  have a: "preserves ?typed (sql_next_run_no coll (criPipeline inp))"
    by (auto simp: preserves_def sql_next_run_no_def rows_typed_def run_keys_def stage_keys_def split: option.split prod.split)
  have b: "preserves ?typed sql_last_insert_id" by (simp add: preserves_def sql_last_insert_id_def)
  have c: "preserves ?typed (sql_insert_run coll inp m)" for m
    using assms(2)
    by (auto simp: preserves_def sql_insert_run_def Let_def new_run_row_def rows_typed_def run_typed_def run_keys_def stage_keys_def)
  have pres: "preserves ?typed (createRunTx coll inp)"
    unfolding createRunTx_def by (intro preserves_andthen preserves_if preserves_ret preserves_fail ex a b c)
  have typed: "?typed (snd (createRunTx coll inp db))" using preservesD [OF pres, of db] assms(1) by (simp add: rows_ok_def)
  have inv: "wp (createRunTx coll inp) (\<lambda>n db'. store_inv coll db' \<and> inserted coll inp db n db') (\<lambda>_. store_inv coll) db"
    using assms(1) by (intro wp_createRunTx) (simp add: rows_ok_def)
  obtain r db' where tx: "createRunTx coll inp db = (r, db')" by (meson surj_pair)
  have "(coll (criPipeline inp), n) \<in> run_keys coll db'" if "inserted coll inp db n db'" for n
    using that by (auto simp: inserted_def run_keys_def new_run_row_def)
  then show ?thesis using typed inv tx by (cases r) (auto simp: wp_def rows_ok_def)
qed

text \<open>The number of a run that was created, and nothing new otherwise.\<close>

definition new_keys :: "(string \<Rightarrow> string) \<Rightarrow> string \<Rightarrow> CreateRunResult \<Rightarrow> (string \<times> int) set" where
  "new_keys coll p result = (if crrDeduped result then {} else {(coll p, crrRunNo result)})"

lemma rows_ok_weaken: "rows_ok coll R S db \<Longrightarrow> R' \<subseteq> R \<Longrightarrow> S' \<subseteq> S \<Longrightarrow> rows_ok coll R' S' db"
  by (auto simp: rows_ok_def)

lemma select_active_rows: "rows_ok coll R S db \<Longrightarrow> rows_ok coll R S (snd (exec (\<lambda>d. (sql_select_active coll p k (rows d), d)) db))"
  by (simp add: exec_def split: list.split option.split)

lemma create_or_reselect_rows:
  assumes "rows_ok coll R S db" and "criStatus inp = StatusQueued"
  shows "wp (create_or_reselect coll level inp snapshot)
    (\<lambda>result. rows_ok coll (new_keys coll (criPipeline inp) result \<union> R) S) (\<lambda>_. rows_ok coll R S) db"
proof -
  obtain r tx where tx: "createRunTx coll inp db = (r, tx)" by (meson surj_pair)
  note ok = createRunTx_rows [OF assms, unfolded wp_def tx prod.case]
  show ?thesis
  proof (cases r)
    case (Inl e)
    with ok have "rows_ok coll R S tx" by simp
    from select_active_rows [OF this, of "criPipeline inp" "criRequestKey inp" "read_view level snapshot"] Inl tx ok
    show ?thesis
      by (auto simp: wp_def create_or_reselect_def andthen_def ret_def new_keys_def deduped_result_def split: prod.split sum.split)
  next
    case (Inr n)
    with tx ok show ?thesis by (simp add: wp_def create_or_reselect_def new_keys_def)
  qed
qed

lemma CreateRunOrGetActive_rows:
  assumes ok: "rows_ok coll R S db" and queued: "criStatus inp = StatusQueued"
    and between: "\<And>d. rows_ok coll R S d \<Longrightarrow> rows_ok coll R S (between d)"
  shows "wp (CreateRunOrGetActive coll level between inp)
    (\<lambda>result. rows_ok coll (new_keys coll (criPipeline inp) result \<union> R) S) (\<lambda>_. rows_ok coll R S) db"
proof -
  let ?Q = "\<lambda>result. rows_ok coll (new_keys coll (criPipeline inp) result \<union> R) S" and ?E = "\<lambda>_. rows_ok coll R S"
  let ?select = "\<lambda>d. (sql_select_active coll (criPipeline inp) (criRequestKey inp) (pipeline_runs d), d)"
  let ?create = "\<lambda>snapshot. transaction (create_or_reselect coll level inp snapshot) ((between snapshot)\<lparr>faults := faults snapshot\<rparr>)"
  have create: "wp (\<lambda>_. ?create d) ?Q ?E d" if "rows_ok coll R S d" for d
  proof -
    have "wp (transaction (create_or_reselect coll level inp d)) ?Q ?E ((between d)\<lparr>faults := faults d\<rparr>)"
      by (rule wp_transaction, rule wp_mono [OF create_or_reselect_rows])
        (use between [OF that] queued in \<open>auto elim: rows_ok_weaken\<close>)
    then show ?thesis by (simp add: wp_def)
  qed
  have commit: "wp (sql_commit d (deduped_result found)) ?Q ?E d" if "rows_ok coll R S d" for d found
    using that by (simp add: wp_def sql_commit_def new_keys_def deduped_result_def split: list.split option.split bool.split)
  show ?thesis
    unfolding CreateRunOrGetActive_def wp_andthen Let_def
  proof (rule wp_begin)
    fix fs
    obtain r d where sel: "exec ?select (db\<lparr>faults := fs\<rparr>) = (r, d)" by (meson surj_pair)
    have "rows_ok coll R S d"
      using select_active_rows [of coll R S "db\<lparr>faults := fs\<rparr>" "criPipeline inp" "criRequestKey inp" pipeline_runs] ok sel by simp
    with create [of "db\<lparr>faults := fs\<rparr>"] create [of d] commit [of d] ok sel
    show "wp (\<lambda>db. if criRequestKey inp = '''' then ?create db
        else case exec ?select db of
            (Inl e, db1) \<Rightarrow> if errors_Is e ErrNoRows then ?create db1 else (Inl e, db1)
          | (Inr found, db1) \<Rightarrow> sql_commit db1 (deduped_result found) db1) ?Q ?E (db\<lparr>faults := fs\<rparr>)"
      by (cases r) (auto simp: wp_def)
  qed (use ok in simp)
qed

section \<open>The operations of the orchestrator\<close>

abbreviation orch_ok :: "('p, 'n) env \<Rightarrow> (string \<times> int) set \<Rightarrow> (string \<times> int \<times> string) set \<Rightarrow> ('p, 'n) world \<Rightarrow> bool" where
  "orch_ok env R S w \<equiv> rows_ok (eColl env) R S (wdb w)"

lemma preserves_with_db [intro]: "preserves P m \<Longrightarrow> preserves (\<lambda>w. P (wdb w)) (with_db m)"
  by (fastforce simp: preserves_def with_db_def split: prod.split)

lemma preserves_time_Now [intro, simp]: "preserves (\<lambda>w. P (wdb w)) time_Now"
  by (simp add: preserves_def time_Now_def)

lemma is_finished [simp]: "is_finished StatusSuccess" "is_finished StatusFailed"
  by (simp_all add: is_finished_def)

lemma finish_records_ok:
  assumes "is_finished status"
  shows "preserves (orch_ok env R S) (finishPipelineRunWithMetrics env p n status t)"
    and "preserves (orch_ok env R S) (finishStageWithMetrics env p n s status t)"
    and "preserves (orch_ok env R S) (finishJob env p n s j status)"
  unfolding finishPipelineRunWithMetrics_def finishPipelineRun_def finishStageWithMetrics_def finishStage_def finishJob_def
  by (intro preserves_andthen preserves_time_Now preserves_with_db finish_ok [OF assms])+

text \<open>Publishing leaves the database alone.\<close>

lemma keeps_publish: "keeps wdb (publish_attempts env msg n lastErr)"
  unfolding keeps_def
proof
  show "wdb (snd (publish_attempts env msg n lastErr w)) = wdb w" for w
    by (induction n arbitrary: lastErr w) (auto simp: Let_def split: option.split prod.split sum.split)
qed

lemma wdb_updates [simp]:
  "wdb (set_stage ptr stage st w) = wdb w" "wdb (deleteRuntime p n w) = wdb w" "wdb (update_object ptr f w) = wdb w"
  "wdb (putRuntime ptr w) = wdb w"
  by (simp_all add: set_stage_def update_object_def deleteRuntime_def putRuntime_def Let_def)

lemma keeps_enqueueReadyJobs: "keeps wdb (enqueueReadyJobs env pname sname runNo jobs info)"
proof (induction jobs)
  case (Cons job jobs)
  have "keeps wdb (andthen (enqueueJob env (buildJobExecutionMessage runNo pname sname job info))
      (\<lambda>_. enqueueReadyJobs env pname sname runNo jobs info))"
    unfolding enqueueJob_def by (intro keeps_andthen keeps_publish Cons)
  then show ?case by (simp add: enqueueReadyJobs_def)
qed (simp add: enqueueReadyJobs_def)

lemma keeps_forget_runtime: "keeps wdb (forget_runtime req)"
  by (simp add: keeps_def forget_runtime_def deleteRuntime_def)

text \<open>A predicate on the database that closing a run and closing a stage preserve is preserved by everything a
  result does after the record of its job, and by the first dispatch.\<close>

locale finish_invariant =
  fixes env :: "('p, 'n) env" and ok :: "('p, 'n) world \<Rightarrow> bool"
  assumes same_db: "wdb w' = wdb w \<Longrightarrow> ok w' \<longleftrightarrow> ok w"
    and finish_run: "is_finished status \<Longrightarrow> preserves ok (finishPipelineRunWithMetrics env p n status t)"
    and finish_stage: "is_finished status \<Longrightarrow> preserves ok (finishStageWithMetrics env p n s status t)"
begin

lemma ok_updates [simp]:
  "ok (set_stage ptr stage st w) = ok w" "ok (deleteRuntime p n w) = ok w" "ok (w\<lparr>goroutines := gs\<rparr>) = ok w"
  by (rule same_db, simp)+

lemma preserves_same:
  assumes "keeps wdb m"
  shows "preserves ok m"
  unfolding preserves_def
proof (intro allI impI)
  show "ok (snd (m w))" if "ok w" for w using that same_db [OF keeps_snd [OF assms], of w] by (rule iffD2 [rotated])
qed

lemmas enqueue_ok = preserves_same [OF keeps_enqueueReadyJobs]
lemmas forget_ok = preserves_same [OF keeps_forget_runtime]
lemmas finish_records = finish_run finish_stage

lemma enqueueFirst_ok: "ok w \<Longrightarrow> ok (snd (enqueueFirstReadyStageJobs env pname runNo stages ptr info w))"
proof (induction stages arbitrary: w)
  case (Cons stage stages)
  show ?case
  proof (cases "get_stage ptr (sepName stage) w")
    case None
    with Cons show ?thesis by simp
  next
    case (Some state)
    obtain ready state1 where g: "getReadyJobs state = (ready, state1)" by (meson surj_pair)
    let ?w1 = "set_stage ptr (sepName stage) state1 w"
    let ?fin = "wrap_err (wrapf (''finish empty stage '' @ quoted (sepName stage) @ '': ''))
      (finishStageWithMetrics env pname runNo (sepName stage) StatusSuccess (startedAt state1))"
    have fin: "ok (snd (?fin ?w1))"
      by (rule preservesD [OF preserves_wrap_err [OF finish_stage]]) (use Cons in simp_all)
    have "ok (snd (wrap_err (wrapf (''enqueue ready jobs for stage '' @ quoted (sepName stage) @ '': ''))
        (enqueueReadyJobs env pname (sepName stage) runNo ready info) ?w1))"
      by (rule preservesD [OF preserves_wrap_err [OF enqueue_ok]]) (use Cons in simp)
    moreover have "ok (snd (andthen ?fin (\<lambda>_. enqueueFirstReadyStageJobs env pname runNo stages ptr info) ?w1))"
      using fin Cons.IH by (auto simp: andthen_def split: prod.splits sum.splits)
    moreover have "ok (snd (enqueueFirstReadyStageJobs env pname runNo stages ptr info ?w1))" using Cons by simp
    ultimately show ?thesis using Some g by (simp add: Let_def)
  qed
qed simp

lemma dispatch_ok: "preserves ok (dispatchPipelineStartJobs env ptr)"
  unfolding preserves_def
proof (intro allI impI)
  fix w assume ok: "ok w"
  let ?rt = "objects w ! ptr"
  obtain r w1 where e: "enqueueFirstReadyStageJobs env (rtPipeline ?rt) (rtRunNo ?rt) (epStages (executionPlan ?rt)) ptr (rtRunInfo ?rt) w = (r, w1)"
    by (meson surj_pair)
  then have "ok w1" using enqueueFirst_ok [OF ok] by (metis snd_conv)
  with e preservesD [OF finish_run [OF is_finished(2)]] show "ok (snd (dispatchPipelineStartJobs env ptr w))"
    by (cases r) (simp_all add: dispatchPipelineStartJobs_def Let_def)
qed

lemma advance_stage_ok: "preserves ok (advance_stage env req ptr)"
  unfolding preserves_def
proof (intro allI impI)
  fix w assume ok: "ok w"
  let ?rt = "objects w ! ptr"
  have "preserves ok (andthen (finishPipelineRunWithMetrics env (cbPipeline req) (cbRunNo req) StatusSuccess (pipelineStart ?rt))
      (\<lambda>_. forget_runtime req))"
    by (intro preserves_andthen finish_records forget_ok is_finished)
  moreover have "preserves ok (andthen (enqueueReadyJobs env (cbPipeline req) nm (cbRunNo req) ready (rtRunInfo ?rt)) (\<lambda>_.
      if isStageComplete st1 then finishStageWithMetrics env (cbPipeline req) (cbRunNo req) nm StatusSuccess (startedAt st1) else ret ()))" for nm ready st1
    by (intro preserves_andthen preserves_if enqueue_ok finish_records is_finished preserves_ret)
  ultimately show "ok (snd (advance_stage env req ptr w))"
    using ok by (auto simp: advance_stage_def Let_def preserves_def split: option.split prod.split)
qed

lemma after_job_ok: "preserves ok (after_job env req ptr st)"
  unfolding after_job_def by (intro preserves_if preserves_ret preserves_andthen finish_records advance_stage_ok is_finished)

lemma finish_in_stage_ok: "preserves ok (finish_in_stage env req status ptr st)"
  unfolding preserves_def
proof (intro allI impI)
  fix w assume ok: "ok w"
  let ?rt = "objects w ! ptr"
  have "preserves ok (andthen (finishStageWithMetrics env (cbPipeline req) (cbRunNo req) (cbStage req) StatusFailed (startedAt st)) (\<lambda>_.
      andthen (finishPipelineRunWithMetrics env (cbPipeline req) (cbRunNo req) StatusFailed (pipelineStart ?rt)) (\<lambda>_. forget_runtime req)))"
    by (intro preserves_andthen finish_records forget_ok is_finished)
  moreover have "preserves ok (andthen (enqueueReadyJobs env (cbPipeline req) (cbStage req) (cbRunNo req) ready (rtRunInfo ?rt))
      (\<lambda>_. after_job env req ptr st1))" for ready st1
    by (intro preserves_andthen enqueue_ok after_job_ok)
  ultimately show "ok (snd (finish_in_stage env req status ptr st w))"
    using ok by (auto simp: finish_in_stage_def Let_def preserves_def split: prod.split)
qed

text \<open>What \<open>HandleJobFinished\<close> does when the record of the job is closed.\<close>

lemma result_in_memory_ok:
  "preserves ok (\<lambda>w. case getPipelineRuntime (cbPipeline req) (cbRunNo req) w of
      None \<Rightarrow> (Inr (), w)
    | Some ptr \<Rightarrow> (case get_stage ptr (cbStage req) w of
          None \<Rightarrow> (Inr (), w) | Some st \<Rightarrow> finish_in_stage env req (TrimSpace (cbStatus req)) ptr st w))"
  using preservesD [OF finish_in_stage_ok] by (auto simp: preserves_def split: option.split)

end

interpretation typed_rows: finish_invariant env "orch_ok env R S" for env R S
  by unfold_locales (simp_all add: finish_records_ok)

lemma HandleJobFinished_cases:
  assumes "\<not> missing_fields req" and "is_finished (TrimSpace (cbStatus req))"
  shows "HandleJobFinished env req =
    andthen (finishJob env (cbPipeline req) (cbRunNo req) (cbStage req) (cbJob req) (TrimSpace (cbStatus req))) (\<lambda>_ w.
      case getPipelineRuntime (cbPipeline req) (cbRunNo req) w of
        None \<Rightarrow> (Inr (), w)
      | Some ptr \<Rightarrow> (case get_stage ptr (cbStage req) w of
            None \<Rightarrow> (Inr (), w) | Some st \<Rightarrow> finish_in_stage env req (TrimSpace (cbStatus req)) ptr st w))"
  using assms by (auto simp: HandleJobFinished_def Let_def is_finished_def)

lemma HandleJobFinished_ok: "preserves (orch_ok env R S) (HandleJobFinished env req)"
proof (cases "missing_fields req \<or> \<not> is_finished (TrimSpace (cbStatus req))")
  case True
  then show ?thesis by (auto simp: HandleJobFinished_def Let_def is_finished_def)
next
  case False
  then show ?thesis
    by (subst HandleJobFinished_cases) (simp, simp, intro preserves_andthen finish_records_ok typed_rows.result_in_memory_ok, simp)
qed

lemma HandleJobStarted_ok: "preserves (orch_ok env R S) (HandleJobStarted env req)"
proof -
  have "preserves (\<lambda>w. P (wdb w)) (noteJobStarted p n s j)" for P p n s j
    by (auto simp: preserves_def noteJobStarted_def andthen_def time_Now_def split: option.split)
  then show ?thesis
    unfolding HandleJobStarted_def markJobRunning_def
    by (intro preserves_if preserves_fail preserves_andthen preserves_with_db running_ok)
qed

section \<open>Starting a run\<close>

lemma startJob_ok:
  "(eColl env p, n, eColl env s) \<in> S \<Longrightarrow> preserves (orch_ok env R S) (startJob env p n s j f)"
  unfolding startJob_def by (intro preserves_andthen preserves_time_Now preserves_with_db CreateJob_ok)

lemma init_jobs_rows:
  assumes "(eColl env p, n, eColl env s) \<in> S"
  shows "preserves (orch_ok env R S) (init_jobs env p n t s cfgs jobs st)"
  unfolding preserves_def
proof (intro allI)
  show "orch_ok env R S w \<longrightarrow> orch_ok env R S (snd (init_jobs env p n t s cfgs jobs st w))" for w
  proof (induction jobs arbitrary: st w)
    case (Cons job jobs)
    let ?cfg = "map_get zero_config cfgs (s, jepName job)"
    let ?undo = "\<lambda>st1 e. andthen (ignore_err (finishStageWithMetrics env p n s StatusFailed (startedAt st1))) (\<lambda>_.
          andthen (ignore_err (finishPipelineRunWithMetrics env p n StatusFailed t)) (\<lambda>_. fail (wrapf ''create job record failed: '' e)))"
    have undo: "preserves (orch_ok env R S) (?undo st1 e)" for st1 e
      by (intro preserves_andthen preserves_ignore_err finish_records_ok is_finished preserves_fail)
    obtain r w1 where r: "startJob env p n s (jepName job) (allowFailures ?cfg) w = (r, w1)" by (meson surj_pair)
    have "orch_ok env R S w1" if "orch_ok env R S w"
      using preservesD [OF startJob_ok [OF assms] that] r by (metis snd_conv)
    with r Cons preservesD [OF undo] show ?case by (cases r) (auto simp: Let_def)
  qed simp
qed

lemma startStage_ok:
  assumes "orch_ok env R S w" and "(eColl env p, n) \<in> R"
  shows "wp (startStage env p n s) (\<lambda>_. orch_ok env R (insert (eColl env p, n, eColl env s) S)) (\<lambda>_. orch_ok env R S) w"
proof -
  have "wp (with_db (CreateStage (eColl env) p n s t StatusQueued))
      (\<lambda>_. orch_ok env R (insert (eColl env p, n, eColl env s) S)) (\<lambda>_. orch_ok env R S) w'"
    if "wdb w' = wdb w" for w' t
    using CreateStage_ok [of "eColl env" R S "wdb w" p n s t] assms that
    by (auto simp: wp_def with_db_def split: prod.splits sum.splits)
  then show ?thesis unfolding startStage_def wp_andthen by (simp add: wp_def time_Now_def)
qed

lemma init_stages_rows:
  assumes "(eColl env (pipelineName p), n) \<in> R"
  shows "orch_ok env R S w \<Longrightarrow> orch_ok env R S (snd (init_stages env p n t cfgs stages states order w))"
proof (induction stages arbitrary: states order S w)
  case (Cons stage stages)
  let ?S = "insert (eColl env (pipelineName p), n, eColl env (sepName stage)) S"
  let ?undo = "\<lambda>e. andthen (ignore_err (finishPipelineRunWithMetrics env (pipelineName p) n StatusFailed t)) (\<lambda>_.
          fail (wrapf ''create stage record failed: '' e))"
  have undo: "preserves (orch_ok env R S) (?undo e)" for e
    by (intro preserves_andthen preserves_ignore_err finish_records_ok is_finished preserves_fail)
  obtain r w1 where r: "startStage env (pipelineName p) n (sepName stage) w = (r, w1)" by (meson surj_pair)
  note st = startStage_ok [OF Cons.prems assms, of "sepName stage", unfolded wp_def r prod.case]
  let ?st = "\<lambda>now. (newStageState (BuildStagePlan (eRangeStage env) (sepName stage) (Some p)))\<lparr>startedAt := now\<rparr>"
  let ?next = "andthen time_Now (\<lambda>now.
      andthen (init_jobs env (pipelineName p) n t (sepName stage) cfgs (sepJobs stage) (?st now)) (\<lambda>st.
      init_stages env p n t cfgs stages (map_set (sepName stage) st states) (order @ [sepName stage])))"
  have nxt: "preserves (orch_ok env R ?S) ?next"
    by (intro preserves_andthen preserves_time_Now init_jobs_rows) (simp_all add: preserves_def Cons.IH)
  have "orch_ok env R S (snd (?next w1))" if a: "orch_ok env R ?S w1"
    by (rule rows_ok_weaken [OF preservesD [OF nxt a]]) auto
  with r st preservesD [OF undo] show ?case by (cases r) simp_all
qed simp

text \<open>The peers of an orchestrator on the same database: what they do between two statements of a
  transaction leaves well-typed tables well typed and removes no row.\<close>

locale orchestrator_peers =
  fixes env :: "('p, 'n) env"
  assumes peers: "rows_ok (eColl env) R S db \<Longrightarrow> rows_ok (eColl env) R S (eBetween env db)"
begin

lemma startPipelineRun_ok:
  assumes "orch_ok env R S w"
  shows "wp (startPipelineRun env p info key) (\<lambda>(result, t). orch_ok env (new_keys (eColl env) p result \<union> R) S) (\<lambda>_. orch_ok env R S) w"
proof -
  have "wp (with_db (CreateRunOrGetActive (eColl env) (eIsolation env) (eBetween env) (run_input env p info key t)))
      (\<lambda>result. orch_ok env (new_keys (eColl env) p result \<union> R) S) (\<lambda>_. orch_ok env R S) w'" if "wdb w' = wdb w" for w' t
    using CreateRunOrGetActive_rows [of "eColl env" R S "wdb w'" "run_input env p info key t" "eBetween env" "eIsolation env"] assms that peers
    by (auto simp: run_input_def wp_def with_db_def split: prod.splits sum.splits)
  from this [of "w\<lparr>clock := clock w + 1\<rparr>" "clock w"] show ?thesis
    unfolding startPipelineRun_def by (auto simp: wp_def andthen_def time_Now_def ret_def split: prod.splits sum.splits)
qed

lemma initializePipelineRuntime_ok: "preserves (orch_ok env R S) (initializePipelineRuntime env pp cfgs info key)"
  unfolding preserves_def
proof (intro allI impI)
  fix w assume ok: "orch_ok env R S w"
  let ?p = "pipelineName (ppPipeline pp)" and ?ep = "ppExecutionPlan pp"
  let ?rest = "\<lambda>(result, runStart). if crrDeduped result then ret (Inl (crrRunNo result, crrExistingStatus result))
      else
        andthen (init_stages env (ppPipeline pp) (crrRunNo result) runStart cfgs (epStages ?ep) [] []) (\<lambda>(states, order).
        let rt = \<lparr>rtPipeline = ?p, rtRunNo = crrRunNo result, stageOrder = order, stageStates = states,
                  rtRunInfo = info, pipelineStart = runStart, jobStartTimes = [], executionPlan = ?ep\<rparr> in
        if epStages ?ep = [] then
          andthen (wrap_err (wrapf ''finish empty pipeline run: '')
              (finishPipelineRunWithMetrics env ?p (crrRunNo result) StatusSuccess runStart)) (\<lambda>_. ret (Inr rt))
        else ret (Inr rt))"
  have rest: "preserves (orch_ok env (new_keys (eColl env) ?p result \<union> R) S) (?rest (result, t))" for result t
  proof (cases "crrDeduped result")
    case False
    then have "preserves (orch_ok env (new_keys (eColl env) ?p result \<union> R) S)
        (init_stages env (ppPipeline pp) (crrRunNo result) t cfgs (epStages ?ep) [] [])"
      by (auto simp: preserves_def new_keys_def intro!: init_stages_rows)
    with False show ?thesis
      by (auto simp: Let_def intro!: preserves_andthen preserves_wrap_err finish_records_ok)
  qed simp
  obtain r w1 where st: "startPipelineRun env ?p info key w = (r, w1)" by (meson surj_pair)
  have "orch_ok env R S (snd (andthen (wrap_err (wrapf ''create pipeline run record failed: '') (startPipelineRun env ?p info key)) ?rest w))"
  proof (cases r)
    case (Inl e)
    with startPipelineRun_ok [OF ok, of ?p info key] st show ?thesis by (simp add: wp_def andthen_def wrap_err_def)
  next
    case (Inr x)
    obtain result t where x: "x = (result, t)" by fastforce
    have "orch_ok env (new_keys (eColl env) ?p result \<union> R) S w1"
      using startPipelineRun_ok [OF ok, of ?p info key] st Inr x by (simp add: wp_def)
    from rows_ok_weaken [OF preservesD [OF rest this], of R S] st Inr x show ?thesis
      by (simp add: andthen_def wrap_err_def)
  qed
  then show "orch_ok env R S (snd (initializePipelineRuntime env pp cfgs info key w))"
    by (simp only: initializePipelineRuntime_def Let_def)
qed

lemma Run_ok: "preserves (orch_ok env R S) (Run env req)"
  unfolding preserves_def
proof (intro allI impI)
  fix w assume ok: "orch_ok env R S w"
  show "orch_ok env R S (snd (Run env req w))"
  proof (cases "prepareRun env req")
    case (Inr pp)
    let ?init = "initializePipelineRuntime env pp (buildJobConfigs (Some (ppPipeline pp))) (newRunInfo req)
      (buildRunRequestKey (eSha256 env) req (pipelineName (ppPipeline pp)))"
    obtain r w1 where i: "?init w = (r, w1)" by (meson surj_pair)
    then have "orch_ok env R S w1" using preservesD [OF initializePipelineRuntime_ok ok] by (metis snd_conv)
    with i Inr show ?thesis by (auto simp: Run_def Let_def split: sum.split prod.split)
  qed (use ok in \<open>simp add: Run_def\<close>)
qed

end

section \<open>The life of the orchestrator\<close>

text \<open>Whatever happens to it: requests and callbacks with any contents, the goroutines it has started, and
  everything else that leaves the tables alone: faults of the database to come, changes of the
  network and the publishers, and a restart that loses the state in memory.\<close>

inductive orch_step :: "('p, 'n) env \<Rightarrow> ('p, 'n) world \<Rightarrow> ('p, 'n) world \<Rightarrow> bool" for env where
  run: "orch_step env w (snd (Run env req w))"
| dispatch: "orch_step env w (run_goroutine env w)"
| started: "orch_step env w (snd (HandleJobStarted env cb w))"
| finished: "orch_step env w (snd (HandleJobFinished env cb w))"
| elsewhere: "wdb w' = (wdb w)\<lparr>faults := fs\<rparr> \<Longrightarrow> orch_step env w w'"

inductive orch_reachable :: "('p, 'n) env \<Rightarrow> ('p, 'n) world \<Rightarrow> bool" for env where
  start: "wdb w = empty_db \<Longrightarrow> orch_reachable env w"
| step: "orch_reachable env w \<Longrightarrow> orch_step env w w' \<Longrightarrow> orch_reachable env w'"

context orchestrator_peers
begin

lemma orch_step_ok: "orch_step env w w' \<Longrightarrow> orch_ok env R S w \<Longrightarrow> orch_ok env R S w'"
proof (induction rule: orch_step.induct)
  case (dispatch w)
  then show ?case
    using preservesD [OF typed_rows.dispatch_ok [of env R S], of "w\<lparr>goroutines := tl (goroutines w)\<rparr>"]
    by (cases "goroutines w") (simp_all add: run_goroutine_def)
qed (simp_all add: preservesD [OF Run_ok] preservesD [OF HandleJobStarted_ok] preservesD [OF HandleJobFinished_ok])

lemma orch_reachable_ok: "orch_reachable env w \<Longrightarrow> orch_ok env {} {} w"
  by (induction rule: orch_reachable.induct) (simp_all add: rows_ok_empty orch_step_ok)

end

interpretation demo_peers: orchestrator_peers demo_env
  by unfold_locales (simp add: demo_env_def)

text \<open>A peer that takes a request of its own between two statements of this orchestrator.\<close>

definition demo_peer_env :: "(string, JobExecutionMessage list) env" where
  "demo_peer_env = demo_env\<lparr>eBetween := \<lambda>db. snd (CreateRunOrGetActive id RepeatableRead id demo_run_input db)\<rparr>"

interpretation busy_peers: orchestrator_peers demo_peer_env
proof unfold_locales
  fix R S db assume "rows_ok (eColl demo_peer_env) R S db"
  then have ok: "rows_ok id R S db" by (simp add: demo_peer_env_def demo_env_def)
  have "criStatus demo_run_input = StatusQueued" by (simp add: demo_run_input_def)
  from CreateRunOrGetActive_rows [OF ok this, of id RepeatableRead]
  have "rows_ok id R S (snd (CreateRunOrGetActive id RepeatableRead id demo_run_input db))"
    by (auto simp: wp_def split: prod.splits sum.splits elim: rows_ok_weaken)
  then show "rows_ok (eColl demo_peer_env) R S (eBetween demo_peer_env db)" by (simp add: demo_peer_env_def demo_env_def)
qed

text \<open>C7. The tables are well typed for the whole life of the service: in every state the orchestrator can
  reach, with any faults of the database on the way, every run and every stage is \<open>queued\<close> without
  an end or \<open>success\<close> or \<open>failed\<close> with one, every job is in one of the four states and has ended
  when it is \<open>success\<close> or \<open>failed\<close>, keys are unique, and although the schema declares no foreign keys
  every stage row belongs to a run row and every job row to a stage row.\<close>

theorem orchestrator_rows_typed:
  assumes "orchestrator_peers env" and "orch_reachable env w"
  shows "store_inv (eColl env) (wdb w) \<and> rows_typed (eColl env) (wdb w)"
  using orchestrator_peers.orch_reachable_ok [OF assms] by (simp add: rows_ok_def)

definition demo_shared_world :: "(string, JobExecutionMessage list) world" where
  "demo_shared_world = run_goroutine demo_peer_env (snd (Run demo_peer_env demo_request demo_world0))"

theorem orchestrator_rows_typed_witness:
  "map (\<lambda>r. (rowRunNo r, rowStatus r)) (pipeline_runs (wdb demo_shared_world)) = [(1, ''queued''), (2, ''queued'')]
    \<and> rows_typed id (wdb demo_shared_world)"
proof -
  have "orch_reachable demo_peer_env demo_world0" by (rule start) (simp add: demo_world0_def)
  from step [OF step [OF this run [of _ _ demo_request]] dispatch] have "orch_reachable demo_peer_env demo_shared_world"
    by (simp add: demo_shared_world_def)
  from orchestrator_rows_typed [OF busy_peers.orchestrator_peers_axioms this]
  have "rows_typed id (wdb demo_shared_world)" by (simp add: demo_peer_env_def demo_env_def)
  moreover have "map (\<lambda>r. (rowRunNo r, rowStatus r)) (pipeline_runs (wdb demo_shared_world)) = [(1, ''queued''), (2, ''queued'')]" by code_simp
  ultimately show ?thesis by simp
qed

end
