(* ===== verification/System.thy ===== *)
theory System
  imports Worker Orchestrator_Http Query_String Lifetime
begin

text \<open>
  Services together: the worker's callbacks over HTTP to the orchestrator. The network delivers a request
  to the endpoints of the orchestrator at its URL; everything else the worker uses stays a parameter.
\<close>

definition orchestrator_network ::
  "encoder \<Rightarrow> (string \<Rightarrow> goerr + RunRequest) \<Rightarrow> (string \<Rightarrow> goerr + JobStatusCallbackRequest) \<Rightarrow>
     goerr option option \<Rightarrow> ('p, 'n) world amqp \<Rightarrow> (string \<Rightarrow> string) \<Rightarrow> ('p, 'n) env \<Rightarrow> string \<Rightarrow>
     ('p, 'n) world outside \<Rightarrow> ('p, 'n) world outside" where
  "orchestrator_network enc unmarshalRun unmarshalCallback ping am getenv env base ou =
     ou\<lparr>ouPost := \<lambda>url body w.
       case serve_orchestrator enc unmarshalRun unmarshalCallback ping am getenv env (server_request base ''POST'' url (Inr body)) w of
         (resp, w1) \<Rightarrow> (Inr (hsStatus resp, Inr (hsBody resp)), w1)\<rparr>"

lemma ouNewRequest_network [simp]: "ouNewRequest (orchestrator_network enc ur uc ping am getenv env base ou) = ouNewRequest ou"
  by (simp add: orchestrator_network_def)

lemma request_path:
  assumes "CHR ''?'' \<notin> set path"
  shows "server_request base method (base @ path) body = \<lparr>hrMethod = method, hrPath = path, hrQuery = ParseQuery '''', hrBody = body\<rparr>"
  using assms by (simp add: server_request_def TrimPrefix_def HasPrefix_def Cut_none)

lemma network_post:
  assumes "unmarshalCallback body = Inr p"
  shows "ouPost (orchestrator_network enc unmarshalRun unmarshalCallback ping am getenv env base ou) (base @ ''/callbacks/job-finished'') body w =
    (case HandleJobFinished env p w of
       (Inr _, w1) \<Rightarrow> (Inr (hsStatus (WriteJSON enc 200 (AnyStatus \<lparr>stStatus = ''ok''\<rparr>)),
           Inr (hsBody (WriteJSON enc 200 (AnyStatus \<lparr>stStatus = ''ok''\<rparr>)))), w1)
     | (Inl e, w1) \<Rightarrow> (Inr (hsStatus (WriteJSONError enc 500 (Error e)), Inr (hsBody (WriteJSONError enc 500 (Error e)))), w1))"
proof -
  have r: "server_request base ''POST'' (base @ ''/callbacks/job-finished'') (Inr body) =
      \<lparr>hrMethod = ''POST'', hrPath = ''/callbacks/job-finished'', hrQuery = ParseQuery '''', hrBody = Inr body\<rparr>"
    by (rule request_path) simp
  show ?thesis
    unfolding orchestrator_network_def r [unfolded append.simps]
    using assms
    by (auto simp: serve_orchestrator_def handleJobFinished_def handleJobCallback_def decodeJobCallbackRequest_def decode_request_def r
        split: prod.split sum.split)
qed

text \<open>C35. A result callback is a call of the orchestrator's handler: over HTTP and JSON the worker's callback has
  exactly the effect of \<open>HandleJobFinished\<close> on its payload, succeeds exactly when the handler does,
  and reports status 500 otherwise.\<close>

theorem callback_calls_handler:
  assumes "wkHttpClient s" and "ouNewRequest ou (wkOrchestratorURL s @ ''/callbacks/job-finished'') = None"
    and "marshal (finished_payload msg status logs errMsg) = Inr body"
    and "unmarshalCallback body = Inr (finished_payload msg status logs errMsg)"
    and "enc (AnyStatus \<lparr>stStatus = ''ok''\<rparr>) = Inr ok"
  shows "callbackJobFinished (orchestrator_network enc unmarshalRun unmarshalCallback ping am getenv env (wkOrchestratorURL s) ou) marshal s msg status logs errMsg w =
    (case HandleJobFinished env (finished_payload msg status logs errMsg) w of
       (Inr _, w1) \<Rightarrow> (Inr (), w1)
     | (Inl _, w1) \<Rightarrow> (Inl (Errorf ''callback returned status 500''), w1))"
proof -
  let ?net = "orchestrator_network enc unmarshalRun unmarshalCallback ping am getenv env (wkOrchestratorURL s) ou"
  have err: "hsStatus (WriteJSONError enc 500 m) = 500" for m
    by (simp add: WriteJSONError_def WriteError_def hsStatus_WriteJSON split: sum.split)
  have ok: "hsStatus (WriteJSON enc 200 (AnyStatus \<lparr>stStatus = ''ok''\<rparr>)) = 200"
    using assms(5) by (simp add: hsStatus_WriteJSON)
  have code: "Itoa 500 = ''500''" by code_simp
  obtain r w1 where h: "HandleJobFinished env (finished_payload msg status logs errMsg) w = (r, w1)" by (meson surj_pair)
  note post = network_post [of unmarshalCallback body "finished_payload msg status logs errMsg" enc unmarshalRun ping am getenv env "wkOrchestratorURL s" ou w,
    OF assms(4), unfolded h prod.case]
  show ?thesis
    unfolding callbackJobFinished_def postJobCallback_def andthen_def doJobCallbackRequest_def Let_def h
    using assms(1-3) post err ok code by (cases r) (simp_all add: ret_def)
qed

text \<open>The report of the compile job of the run in progress reaches the orchestrator, which publishes the job
  that needs it.\<close>

definition demo_wire :: "'w outside" where
  "demo_wire = \<lparr>ouDockerNew = ret 0, ouDockerPing = (\<lambda>c. ret ()), ouDockerClose = (\<lambda>c. ret ()),
     ouNewRequest = (\<lambda>url. None), ouPost = (\<lambda>url body. ret (502, Inr '''')), ouCtxErr = (\<lambda>w. None), ouSleep = (\<lambda>d. ret ())\<rparr>"

definition demo_compile :: JobExecutionMessage where
  "demo_compile = \<lparr>jmRunNo = 1, jmPipelineName = ''demo'', jmStage = ''build'', jmBranch = ''main'', jmCommit = ''abc'',
     jmRepoURL = ''git'', jmWorkspacePath = '''', jmJob = \<lparr>jepName = ''compile'', jepImage = ''alpine'', jepScript = [''make'']\<rparr>\<rparr>"

definition demo_amqp :: "'b amqp" where
  "demo_amqp =
     \<lparr>amDial = (\<lambda>url. fail (Errorf ''connection refused'')), amIsClosed = (\<lambda>conn w. True), amConnClose = (\<lambda>conn. ret ()),
      amChannel = (\<lambda>conn. fail connection_closed), amChannelClose = (\<lambda>ch. ret ()), amConfirm = (\<lambda>ch. fail connection_closed),
      amQueueDeclare = (\<lambda>ch queue. fail connection_closed), amQueueDeclarePassive = (\<lambda>ch queue. fail connection_closed),
      amPublish = (\<lambda>ch queue body. fail connection_closed), amWaitConfirm = (\<lambda>d. fail connection_closed),
      amConsume = (\<lambda>ch queue. fail connection_closed), amSelect = (\<lambda>ch w. (EvDeliveriesClosed, w)),
      amAck = (\<lambda>tag. fail connection_closed), amNack = (\<lambda>tag. fail connection_closed), amSleep = (\<lambda>d. ret ())\<rparr>"

definition demo_network :: "(string, JobExecutionMessage list) world outside" where
  "demo_network = orchestrator_network (\<lambda>_. Inr ''{}'') (\<lambda>_. Inr demo_request)
     (\<lambda>body. Inr (demo_report ''build'' body ''success'')) (Some None) demo_amqp (\<lambda>_. '''') demo_env (wkOrchestratorURL demo_worker) demo_wire"

theorem callback_calls_handler_witness:
  "\<exists>w'. callbackJobFinished demo_network (\<lambda>r. Inr (cbJob r)) demo_worker demo_compile ''success'' '''' '''' demo_world = (Inr (), w')
     \<and> map (jepName \<circ> jmJob) (network w') = [''compile'', ''link'']"
proof -
  have payload: "finished_payload demo_compile ''success'' '''' '''' = demo_report ''build'' ''compile'' ''success''"
    by (simp add: finished_payload_def demo_compile_def demo_report_def)
  have "fst (HandleJobFinished demo_env (demo_report ''build'' ''compile'' ''success'') demo_world) = Inr ()"
    and nw: "map (jepName \<circ> jmJob) (network (snd (HandleJobFinished demo_env (demo_report ''build'' ''compile'' ''success'') demo_world)))
        = [''compile'', ''link'']"
    by code_simp+
  then obtain w' where h: "HandleJobFinished demo_env (demo_report ''build'' ''compile'' ''success'') demo_world = (Inr (), w')"
    by (metis prod.collapse)
  have "wkHttpClient demo_worker" by (simp add: demo_worker_def NewService_def)
  then have "callbackJobFinished demo_network (\<lambda>r. Inr (cbJob r)) demo_worker demo_compile ''success'' '''' '''' demo_world = (Inr (), w')"
    unfolding demo_network_def
    using callback_calls_handler [of demo_worker demo_wire "\<lambda>r. Inr (cbJob r)" demo_compile "''success''" "''''" "''''" "''compile''"
        "\<lambda>body. Inr (demo_report ''build'' body ''success'')" "\<lambda>_. Inr ''{}''" "''{}''" "\<lambda>_. Inr demo_request" "Some None" demo_amqp "\<lambda>_. ''''" demo_env demo_world]
    by (simp add: payload h) (simp add: demo_wire_def demo_report_def)
  then show ?thesis using nw h by simp
qed

section \<open>A job from the queue to the report\<close>

text \<open>Closing runs and stages leaves the records of jobs alone, and so does everything a result callback does
  after closing the record of its job.\<close>

lemma preserves_exec_rows:
  assumes "preserves P stmt" and "\<And>db fs. P (db\<lparr>faults := fs\<rparr>) = P db"
  shows "preserves P (exec stmt)"
  using assms unfolding preserves_def by (intro allI impI exec_keeps [where I = P]) blast+

lemma job_rows_finish:
  "preserves (\<lambda>w. P (job_runs (wdb w))) (finishPipelineRunWithMetrics env p n status t)"
  "preserves (\<lambda>w. P (job_runs (wdb w))) (finishStageWithMetrics env p n s status t)"
proof -
  have "preserves (\<lambda>db. P (job_runs db)) (UpdateRun coll p n \<lparr>updEndTime = Some t, updStatus = status\<rparr>)" for coll t
    unfolding UpdateRun_def option.case UpdateInput.select_convs
    by (rule preserves_exec_rows [where P = "\<lambda>db. P (job_runs db)"]) (simp_all add: preserves_def sql_update_run_def Let_def)
  from preserves_with_db [OF this] show "preserves (\<lambda>w. P (job_runs (wdb w))) (finishPipelineRunWithMetrics env p n status t)"
    unfolding finishPipelineRunWithMetrics_def finishPipelineRun_def by (intro preserves_andthen preserves_time_Now)
  have "preserves (\<lambda>db. P (job_runs db)) (UpdateStage coll p n s \<lparr>updEndTime = Some t, updStatus = status\<rparr>)" for coll t
    unfolding UpdateStage_def option.case UpdateInput.select_convs
    by (rule preserves_exec_rows [where P = "\<lambda>db. P (job_runs db)"]) (simp_all add: preserves_def sql_update_stage_def)
  from preserves_with_db [OF this] show "preserves (\<lambda>w. P (job_runs (wdb w))) (finishStageWithMetrics env p n s status t)"
    unfolding finishStageWithMetrics_def finishStage_def by (intro preserves_andthen preserves_time_Now)
qed

interpretation job_rows: finish_invariant env "\<lambda>w. P (job_runs (wdb w))" for env P
  by unfold_locales (simp_all add: job_rows_finish)

definition job_recorded :: "(string \<Rightarrow> string) \<Rightarrow> JobStatusCallbackRequest \<Rightarrow> string \<Rightarrow> JobRun list \<Rightarrow> bool" where
  "job_recorded coll cb status rows \<longleftrightarrow>
     (\<forall>j \<in> set rows. coll (jrPipeline j) = coll (cbPipeline cb) \<and> jrRunNo j = cbRunNo cb \<and> coll (jrStage j) = coll (cbStage cb)
        \<and> coll (jrJob j) = coll (cbJob cb) \<longrightarrow> jrStatus j = status \<and> jrEndTime j \<noteq> None)"

lemma exec_Inr: "exec stmt db = (Inr x, db') \<Longrightarrow> \<exists>fs. stmt (db\<lparr>faults := fs\<rparr>) = (Inr x, db')"
proof (cases "faults db")
  case Nil
  assume "exec stmt db = (Inr x, db')"
  then have "stmt db = (Inr x, db')" using Nil by (simp add: exec_def)
  then show ?thesis by (metis db.surjective db.update_convs(6) old.unit.exhaust)
next
  case (Cons f fs)
  assume "exec stmt db = (Inr x, db')"
  with Cons show ?thesis by (cases f) (auto simp: exec_def)
qed

lemma finishJob_records:
  assumes "finishJob env (cbPipeline cb) (cbRunNo cb) (cbStage cb) (cbJob cb) status w = (Inr (), w')"
  shows "job_recorded (eColl env) cb status (job_runs (wdb w'))"
proof -
  from assms obtain d where "UpdateJob (eColl env) (cbPipeline cb) (cbRunNo cb) (cbStage cb) (cbJob cb)
      \<lparr>updEndTime = Some (clock w), updStatus = status\<rparr> (wdb w) = (Inr (), d)" and w': "wdb w' = d"
    by (auto simp: finishJob_def andthen_def time_Now_def with_db_def split: prod.splits)
  then have "\<exists>fs. sql_update_job (eColl env) (cbPipeline cb) (cbRunNo cb) (cbStage cb) (cbJob cb)
      (\<lambda>r. r\<lparr>jrEndTime := Some (clock w), jrStatus := status\<rparr>) ((wdb w)\<lparr>faults := fs\<rparr>) = (Inr (), d)"
    by (intro exec_Inr) (simp add: UpdateJob_def)
  then show ?thesis unfolding w' by (auto simp: job_recorded_def sql_update_job_def split: if_splits)
qed

lemma HandleJobFinished_records:
  assumes "HandleJobFinished env cb w = (Inr (), w')"
  shows "job_recorded (eColl env) cb (TrimSpace (cbStatus cb)) (job_runs (wdb w'))"
proof -
  have ok: "\<not> missing_fields cb" "is_finished (TrimSpace (cbStatus cb))"
    using assms by (auto simp: HandleJobFinished_def Let_def is_finished_def fail_def split: if_splits)
  obtain r w1 where f: "finishJob env (cbPipeline cb) (cbRunNo cb) (cbStage cb) (cbJob cb) (TrimSpace (cbStatus cb)) w = (r, w1)"
    by (meson surj_pair)
  note h = assms [unfolded HandleJobFinished_cases [OF ok] andthen_def f prod.case]
  then have r: "r = Inr ()" by (cases r) simp_all
  from preservesD [OF job_rows.result_in_memory_ok [where P = "job_recorded (eColl env) cb (TrimSpace (cbStatus cb))" and req = cb and env = env] finishJob_records [OF f [unfolded r]]] h r
  show ?thesis by simp
qed

text \<open>C3. An acknowledged job message has its result in the report: when the worker is done with a message without an error
  (only then it is acknowledged), over HTTP and with any number of refused attempts on the way, the
  start of the job was accepted, the job was executed right after it, the orchestrator has accepted, after some refused attempts and
  waits that follow this execution, a result callback for this job with the status of this execution, and with that callback
  every record of this job in the database is closed with this status. JSON has to carry the names of the job and the status;
  logs and error texts may change on the way, as \<open>encoding/json\<close> replaces invalid UTF-8 in them.\<close>

theorem acknowledged_job_is_recorded:
  assumes "\<And>status logs errMsg body. status \<in> {StatusSuccess, StatusFailed} \<Longrightarrow> marshal (finished_payload msg status logs errMsg) = Inr body \<Longrightarrow>
      \<exists>logs' errMsg'. unmarshalCallback body = Inr (finished_payload msg status logs' errMsg')"
    and "net = orchestrator_network enc unmarshalRun unmarshalCallback ping am genv env (wkOrchestratorURL s) ou"
    and "handleJobMessage net fl d h getenv marshal s msg w = Some (Inr (), w')"
  shows "\<exists>logs execErr w1 w2 status n logs' errMsg'.
      callbackJobStarted net marshal s msg w = (Inr (), w1)
    \<and> ExecuteJob fl (Some d) h getenv (Some (jmJob msg)) (jmRepoURL msg) (jmCommit msg) (jmWorkspacePath msg) w1 = ((logs, execErr), w2)
    \<and> status = (if execErr = None then StatusSuccess else StatusFailed)
    \<and> (let attempt = (case execErr of None \<Rightarrow> callbackJobFinished net marshal s msg StatusSuccess logs ''''
           | Some e \<Rightarrow> callbackJobFinished net marshal s msg StatusFailed '''' (Error e)) in
       HandleJobFinished env (finished_payload msg status logs' errMsg') (after_rounds net attempt n start_delay w2) = (Inr (), w'))
    \<and> (\<forall>j \<in> set (job_runs (wdb w')).
         eColl env (jrPipeline j) = eColl env (jmPipelineName msg) \<and> jrRunNo j = jmRunNo msg
         \<and> eColl env (jrStage j) = eColl env (jmStage msg) \<and> eColl env (jrJob j) = eColl env (jepName (jmJob msg))
         \<longrightarrow> jrStatus j = status \<and> jrEndTime j \<noteq> None)"
proof -
  from handleJobMessage_ok [OF assms(3)] obtain logs execErr w1 w2 n body resp where
    st: "callbackJobStarted net marshal s msg w = (Inr (), w1)" and
    ex: "ExecuteJob fl (Some d) h getenv (Some (jmJob msg)) (jmRepoURL msg) (jmCommit msg) (jmWorkspacePath msg) w1 = ((logs, execErr), w2)"
    and body: "marshal (case execErr of None \<Rightarrow> finished_payload msg StatusSuccess logs ''''
      | Some e \<Rightarrow> finished_payload msg StatusFailed '''' (Error e)) = Inr body"
    and post: "ouPost net (wkOrchestratorURL s @ ''/callbacks/job-finished'') body (after_rounds net (postJobCallback net marshal s
      ''/callbacks/job-finished'' (case execErr of None \<Rightarrow> finished_payload msg StatusSuccess logs ''''
      | Some e \<Rightarrow> finished_payload msg StatusFailed '''' (Error e))) n start_delay w2) = (Inr (200, Inr resp), w')"
    unfolding Let_def by blast
  define status where "status = (if execErr = None then StatusSuccess else StatusFailed)"
  let ?attempt = "case execErr of None \<Rightarrow> callbackJobFinished net marshal s msg StatusSuccess logs ''''
      | Some e \<Rightarrow> callbackJobFinished net marshal s msg StatusFailed '''' (Error e)"
  let ?w = "after_rounds net ?attempt n start_delay w2"
  have attempt: "?attempt = postJobCallback net marshal s ''/callbacks/job-finished'' (case execErr of None \<Rightarrow> finished_payload msg StatusSuccess logs ''''
      | Some e \<Rightarrow> finished_payload msg StatusFailed '''' (Error e))"
    by (cases execErr) (simp_all add: callbackJobFinished_def)
  have "\<exists>l e. marshal (finished_payload msg status l e) = Inr body" using body by (cases execErr) (auto simp: status_def)
  moreover have "status \<in> {StatusSuccess, StatusFailed}" by (simp add: status_def)
  ultimately obtain logs' errMsg' where decode: "unmarshalCallback body = Inr (finished_payload msg status logs' errMsg')"
    using assms(1) by blast
  have "hsStatus (WriteJSONError enc 500 m) = 500" for m
    by (simp add: WriteJSONError_def WriteError_def hsStatus_WriteJSON split: sum.split)
  then have h: "HandleJobFinished env (finished_payload msg status logs' errMsg') ?w = (Inr (), w')"
    using post [folded attempt] network_post [of unmarshalCallback body "finished_payload msg status logs' errMsg'" enc unmarshalRun ping am genv env "wkOrchestratorURL s" ou ?w, OF decode, folded assms(2)]
    by (auto split: prod.splits sum.splits)
  have "TrimSpace StatusSuccess = StatusSuccess" "TrimSpace StatusFailed = StatusFailed" by code_simp+
  then have "TrimSpace (cbStatus (finished_payload msg status logs' errMsg')) = status" by (simp add: finished_payload_def status_def)
  with HandleJobFinished_records [OF h] have "\<forall>j \<in> set (job_runs (wdb w')). eColl env (jrPipeline j) = eColl env (jmPipelineName msg) \<and> jrRunNo j = jmRunNo msg
      \<and> eColl env (jrStage j) = eColl env (jmStage msg) \<and> eColl env (jrJob j) = eColl env (jepName (jmJob msg))
      \<longrightarrow> jrStatus j = status \<and> jrEndTime j \<noteq> None"
    by (simp add: job_recorded_def finished_payload_def)
  with st ex h status_def show ?thesis unfolding Let_def by blast
qed

text \<open>The compile job of the run in progress, handled by a worker whose container engine runs everything:
  the record of the job ends as a success.\<close>

definition demo_engine :: "'w docker" where
  "demo_engine = \<lparr>dkPull = (\<lambda>ref. ret 0), dkPullWait = (\<lambda>r. ret ()), dkPullClose = (\<lambda>r. ret ()), dkCreate = (\<lambda>cfg. ret ''c1''),
     dkCopy = (\<lambda>cid dst archive. ret ()), dkStart = (\<lambda>cid. ret ()), dkWait = (\<lambda>cid w. (WaitResult 0, w)), dkLogs = (\<lambda>cid. ret 0),
     dkStdCopy = (\<lambda>r w. ((''ok'', '''', None), w)), dkLogsClose = (\<lambda>r. ret ()), dkRemove = (\<lambda>cid. ret ())\<rparr>"

definition demo_machine :: "'w host" where
  "demo_machine = \<lparr>hMkdirTemp = (\<lambda>pattern. ret ''/tmp/job''), hClone = (\<lambda>dir url auth. ret 0), hWorktree = (\<lambda>r. ret 0),
     hCheckout = (\<lambda>t commit. ret ()), hRemoveAll = (\<lambda>dir. ret ()), hExists = (\<lambda>p w. False), hTree = (\<lambda>p w. demo_tree)\<rparr>"

definition demo_started :: JobStatusCallbackRequest where
  "demo_started = demo_report ''build'' ''compile'' ''started''"

definition demo_finished :: JobStatusCallbackRequest where
  "demo_finished = (demo_report ''build'' ''compile'' ''success'')\<lparr>cbLogs := ''ok''\<rparr>"

definition demo_encode :: "JobStatusCallbackRequest \<Rightarrow> goerr + string" where
  "demo_encode p = (if p = demo_started then Inr ''started'' else if p = demo_finished then Inr ''finished''
     else Inl (Errorf ''json: unsupported value''))"

definition demo_decode :: "string \<Rightarrow> goerr + JobStatusCallbackRequest" where
  "demo_decode body = (if body = ''started'' then Inr demo_started else if body = ''finished'' then Inr demo_finished
     else Inl (Errorf ''unexpected end of JSON input''))"

definition demo_link :: "(string, JobExecutionMessage list) world outside" where
  "demo_link = orchestrator_network (\<lambda>_. Inr ''{}'') (\<lambda>_. Inr demo_request) demo_decode (Some None) demo_amqp (\<lambda>_. '''') demo_env
     (wkOrchestratorURL demo_worker) demo_wire"

lemma demo_machine_executes:
  "ExecuteJob unit_floats (Some demo_engine) demo_machine (\<lambda>_. '''') (Some (jmJob demo_compile)) (jmRepoURL demo_compile)
     (jmCommit demo_compile) (jmWorkspacePath demo_compile) w = ((''ok'', None), w)" (is "?e = ?r")
proof -
  have "P ?e = P ?r" for P :: "_ \<Rightarrow> bool" by code_simp
  from this [of "(=) ?e"] show ?thesis by (rule iffD1) simp
qed

definition demo_running :: "(string, JobExecutionMessage list) world" where
  "demo_running = snd (callbackJobStarted demo_link demo_encode demo_worker demo_compile demo_world)"

lemma demo_job_started: "fst (callbackJobStarted demo_link demo_encode demo_worker demo_compile demo_world) = Inr ()"
  by code_simp

lemma demo_job_reported:
  "fst (callbackJobFinished demo_link demo_encode demo_worker demo_compile ''success'' ''ok'' '''' demo_running) = Inr ()"
  "map (\<lambda>j. (jrJob j, jrStatus j)) (job_runs (wdb (snd (callbackJobFinished demo_link demo_encode demo_worker demo_compile ''success'' ''ok'' '''' demo_running))))
     = [(''compile'', ''success''), (''link'', ''queued''), (''unit'', ''queued'')]"
  by code_simp+

theorem acknowledged_job_is_recorded_witness:
  "\<exists>w'. handleJobMessage demo_link unit_floats demo_engine demo_machine (\<lambda>_. '''') demo_encode demo_worker demo_compile demo_world
       = Some (Inr (), w')
     \<and> map (\<lambda>j. (jrJob j, jrStatus j)) (job_runs (wdb w')) = [(''compile'', ''success''), (''link'', ''queued''), (''unit'', ''queued'')]
     \<and> (\<exists>logs w1 w2. callbackJobStarted demo_link demo_encode demo_worker demo_compile demo_world = (Inr (), w1)
         \<and> ExecuteJob unit_floats (Some demo_engine) demo_machine (\<lambda>_. '''') (Some (jmJob demo_compile))
           (jmRepoURL demo_compile) (jmCommit demo_compile) (jmWorkspacePath demo_compile) w1
           = ((logs, None), w2 :: (string, JobExecutionMessage list) world))"
proof -
  let ?w' = "snd (callbackJobFinished demo_link demo_encode demo_worker demo_compile ''success'' ''ok'' '''' demo_running)"
  have s: "callbackJobStarted demo_link demo_encode demo_worker demo_compile demo_world = (Inr (), demo_running)"
    using demo_job_started by (simp add: demo_running_def prod_eq_iff)
  have f: "callbackJobFinished demo_link demo_encode demo_worker demo_compile ''success'' ''ok'' '''' demo_running = (Inr (), ?w')"
    using demo_job_reported(1) by (simp add: prod_eq_iff)
  have "wkDocker demo_worker \<noteq> None" by (simp add: demo_worker_def)
  then have h: "handleJobMessage demo_link unit_floats demo_engine demo_machine (\<lambda>_. '''') demo_encode demo_worker demo_compile demo_world
      = Some (Inr (), ?w')"
    unfolding handleJobMessage_def s prod.case sum.case demo_machine_executes reportJobFinishedUntilSuccess_def
    by (subst report_loop.simps, subst f [folded StatusSuccess_def]) (simp add: wrap_result_def StatusSuccess_def)
  then obtain w' where h': "handleJobMessage demo_link unit_floats demo_engine demo_machine (\<lambda>_. '''') demo_encode demo_worker demo_compile demo_world
      = Some (Inr (), w')"
    and rows: "map (\<lambda>j. (jrJob j, jrStatus j)) (job_runs (wdb w')) = [(''compile'', ''success''), (''link'', ''queued''), (''unit'', ''queued'')]"
    by (rule that [OF _ demo_job_reported(2)])
  have codec: "\<And>p body. demo_encode p = Inr body \<Longrightarrow> demo_decode body = Inr p"
    by (auto simp: demo_encode_def demo_decode_def split: if_splits)
  have "finished_payload demo_compile status logs errMsg = demo_finished \<Longrightarrow> status = ''success'' \<and> logs = ''ok'' \<and> errMsg = ''''" for status logs errMsg
    by (simp add: finished_payload_def demo_finished_def demo_report_def)
  then have travels: "\<exists>logs' errMsg'. demo_decode body = Inr (finished_payload demo_compile status logs' errMsg')"
    if "demo_encode (finished_payload demo_compile status logs errMsg) = Inr body" for status logs errMsg body
    using codec [OF that] by blast
  note recorded = acknowledged_job_is_recorded [where msg = demo_compile and marshal = demo_encode and unmarshalCallback = demo_decode,
      OF _ demo_link_def h']
  have "\<exists>logs execErr w1 w2. callbackJobStarted demo_link demo_encode demo_worker demo_compile demo_world = (Inr (), w1)
      \<and> ExecuteJob unit_floats (Some demo_engine) demo_machine (\<lambda>_. '''') (Some (jmJob demo_compile))
      (jmRepoURL demo_compile) (jmCommit demo_compile) (jmWorkspacePath demo_compile) w1
      = ((logs, execErr), w2 :: (string, JobExecutionMessage list) world)"
    by (rule exE [OF recorded]) (rule travels, assumption, blast)
  with h' rows show ?thesis by (auto simp: demo_machine_executes intro!: exI)
qed

end
