(* ===== verification/Run_Reports.thy ===== *)
theory Run_Reports
  imports Lifetime
begin

text \<open>
  One run of a verified pipeline against services that work: what the memory of the orchestrator, the log
  of published messages and the rows of the run look like while it runs and after its end, and that every
  callback about a published message keeps it so: the first report of a job, a report that ends a stage or the
  run, the failure of a job that may not fail, a repeated or a late report, and the report that a job has started.
  What the callbacks mean is given by an automaton, \<open>run_step\<close>, that knows nothing of the orchestrator's memory.
\<close>

section \<open>Stages outside the dispatch of one job\<close>

lemma ready_loop_frame:
  "ready_loop jobs (st\<lparr>startedAt := t, jobConfigs := c\<rparr>) = map_prod id (\<lambda>s. s\<lparr>startedAt := t, jobConfigs := c\<rparr>) (ready_loop jobs st)"
proof (induction jobs arbitrary: st)
  case (Cons job jobs)
  have "is_ready n (st\<lparr>startedAt := t, jobConfigs := c\<rparr>) = is_ready n st"
      "markQueued n (st\<lparr>startedAt := t, jobConfigs := c\<rparr>) = (markQueued n st)\<lparr>startedAt := t, jobConfigs := c\<rparr>" for n
    by (simp_all add: is_ready_def markQueued_def)
  with Cons.IH show ?case by (simp add: case_prod_unfold Let_def)
qed simp

lemma stage_inv_frame [simp]: "stage_inv jobs p (st\<lparr>startedAt := t, jobConfigs := c\<rparr>) pub = stage_inv jobs p st pub"
  by (simp add: stage_inv_def)

lemma getReadyJobs_first:
  assumes "stage_plan_of jobs p" and "getReadyJobs ((newStageState p)\<lparr>startedAt := t, jobConfigs := c\<rparr>) = (ready, st)"
  shows "stage_inv jobs p st ready" and "jobConfigs st = c" and "completed st = []"
proof -
  obtain st0 where st0: "getReadyJobs (newStageState p) = (ready, st0)" "st = st0\<lparr>startedAt := t, jobConfigs := c\<rparr>"
  proof -
    have "plan (newStageState p) = p" by (simp add: newStageState_def)
    then show ?thesis
      using assms(2) that by (cases "ready_loop (spJobs p) (newStageState p)") (simp add: getReadyJobs_def ready_loop_frame)
  qed
  show "stage_inv jobs p st ready" using stage_inv_start [OF assms(1) st0(1)] by (simp add: st0(2))
  show "jobConfigs st = c" by (simp add: st0(2))
  have "distinct (map jepName (spJobs p))" "marked (queued (newStageState p))"
    using assms(1) by (simp_all add: stage_plan_of_def newStageState_def)
  moreover have "ready_loop (spJobs p) (newStageState p) = (ready, st0)"
    using st0(1) by (simp add: getReadyJobs_def newStageState_def)
  ultimately have "handed_out (map jepName ready) (newStageState p) st0" using ready_loop_hands_out by blast
  then show "completed st = []" by (simp add: st0(2) handed_out_def newStageState_def)
qed

text \<open>Once a stage has been started, asking it for ready jobs again hands out nothing.\<close>

lemma ready_loop_none: "(\<And>job. job \<in> set jobs \<Longrightarrow> \<not> is_ready (jepName job) st) \<Longrightarrow> ready_loop jobs st = ([], st)"
  by (induction jobs) simp_all

lemma getReadyJobs_again:
  assumes "stage_plan_of jobs p" and "stage_inv jobs p st pub"
  shows "getReadyJobs st = ([], st)"
proof -
  have "\<not> is_ready (jepName job) st" if job: "job \<in> set (spJobs p)" for job
  proof -
    from job assms(1) obtain j where j: "j \<in> set jobs" "job = job_plan j" by (auto simp: stage_plan_of_def)
    have "jobName j \<in> jepName ` set pub \<longleftrightarrow> map_get 0 (remainingNeeds st) (jobName j) = 0"
      using assms(2) j(1) by (simp add: stage_inv_def)
    moreover have "map_get False (queued st) (jobName j) \<longleftrightarrow> jobName j \<in> jepName ` set pub"
      using assms(2) marked_get [of "queued st"] by (simp add: stage_inv_def)
    ultimately show ?thesis using j(2) by (simp add: is_ready_def)
  qed
  moreover have "plan st = p" using assms(2) by (simp add: stage_inv_def)
  ultimately show ?thesis unfolding getReadyJobs_def by (simp add: ready_loop_none)
qed

lemma markJobSucceeded_configs:
  "markJobSucceeded name st = (newly, st1) \<Longrightarrow> jobConfigs st1 = jobConfigs st"
  by (rule markJobSucceeded_again(2))

lemma stage_invD:
  assumes "stage_inv jobs p st pub"
  shows "plan st = p" and "set (keys (completed st)) \<subseteq> jepName ` set pub" and "set pub \<subseteq> job_plan ` set jobs"
    and "distinct (map jepName pub)" and "marked (completed st)"
  using assms by (simp_all add: stage_inv_def)

text \<open>The report that completes a stage releases nothing in it.\<close>

lemma complete_releases_nothing:
  assumes "stage_plan_of jobs p" and "stage_inv jobs p st pub" and "name \<in> jepName ` set pub"
    and "name \<notin> set (keys (completed st))" and "markJobSucceeded name st = (newly, st1)" and "isStageComplete st1"
  shows "newly = []"
proof -
  have inv1: "stage_inv jobs p st1 (pub @ newly)" by (rule stage_inv_step [OF assms(1-3,5)])
  have "set (keys (completed st1)) = insert name (set (keys (completed st)))"
    by (rule completed_markJobSucceeded [OF assms(1-5)])
  then have all: "jobName ` set jobs \<subseteq> jepName ` set pub"
    using assms(3,6) stage_inv_complete [OF assms(1) inv1] stage_invD(2) [OF assms(2)] by auto
  have "jepName ` set newly \<subseteq> jobName ` set jobs"
    using stage_invD(3) [OF inv1] by fastforce
  also note all
  finally have "jepName ` set newly \<inter> jepName ` set pub = jepName ` set newly" by (rule Int_absorb2)
  then show ?thesis using stage_invD(4) [OF inv1] by (simp add: Int_commute)
qed

lemma next_after_nth:
  "distinct xs \<Longrightarrow> i < length xs \<Longrightarrow> next_after xs (xs ! i) = (if Suc i < length xs then Some (xs ! Suc i) else None)"
proof (induction xs arbitrary: i)
  case (Cons x xs)
  show ?case
  proof (cases xs)
    case (Cons y ys)
    show ?thesis
    proof (cases i)
      case (Suc k)
      then have "xs ! k \<in> set xs" "x \<notin> set xs" using Cons.prems by simp_all
      then have "x \<noteq> xs ! k" by blast
      with Suc \<open>xs = y # ys\<close> Cons.prems Cons.IH [of k] show ?thesis by simp
    qed (simp add: \<open>xs = y # ys\<close>)
  qed (use Cons.prems in simp)
qed simp

section \<open>One report, step by step\<close>

text \<open>What the handlers of a run leave alone in memory.\<close>

definition run_frame :: "nat \<Rightarrow> ('p, 'n) world \<Rightarrow> ('p, 'n) world \<Rightarrow> bool" where
  "run_frame ptr w w' \<longleftrightarrow>
     runtimes w' = runtimes w \<and> length (objects w') = length (objects w)
     \<and> stageOrder (objects w' ! ptr) = stageOrder (objects w ! ptr) \<and> rtRunInfo (objects w' ! ptr) = rtRunInfo (objects w ! ptr)"

lemma run_frame_refl [simp]: "run_frame ptr w w"
  and run_frame_trans: "run_frame ptr w w1 \<Longrightarrow> run_frame ptr w1 w2 \<Longrightarrow> run_frame ptr w w2"
  by (simp_all add: run_frame_def)

lemma run_frame_set_stage: "run_frame ptr w (set_stage ptr s st w)"
  by (cases "ptr < length (objects w)") (simp_all add: run_frame_def set_stage_def update_object_def list_update_beyond)

lemma run_frame_update [simp]:
  "run_frame ptr w (w'\<lparr>manager := m\<rparr>) = run_frame ptr w w'" "run_frame ptr w (w'\<lparr>network := net\<rparr>) = run_frame ptr w w'"
  "run_frame ptr w (w'\<lparr>clock := t\<rparr>) = run_frame ptr w w'" "run_frame ptr w (w'\<lparr>wdb := d\<rparr>) = run_frame ptr w w'"
  by (simp_all add: run_frame_def)

lemma get_stage_update [simp]:
  "get_stage ptr s (w\<lparr>manager := m\<rparr>) = get_stage ptr s w" "get_stage ptr s (w\<lparr>network := net\<rparr>) = get_stage ptr s w"
  "get_stage ptr s (w\<lparr>clock := t\<rparr>) = get_stage ptr s w" "get_stage ptr s (w\<lparr>wdb := d\<rparr>) = get_stage ptr s w"
  by (simp_all add: get_stage_def)

lemma deliver_append: "deliver_jobs (\<lambda>msg sent. sent @ [msg]) p s n jobs info sent = sent @ map (\<lambda>job. buildJobExecutionMessage n p s job info) jobs"
  by (induction jobs arbitrary: sent) (simp_all add: deliver_jobs_def)

type_synonym 'p logged_world = "('p, JobExecutionMessage list) world"

lemma report_released:
  assumes "known_job req status ptr st w" and "faults (wdb w) = []" and "goes_on req status st"
    and "markJobSucceeded (cbJob req) st = (newly, st1)" and "delivers env (\<lambda>msg sent. sent @ [msg])"
    and "pool_ready (length newly + c) (manager w)"
  obtains w1 where "HandleJobFinished env req w = after_job env req ptr st1 w1" and "run_frame ptr w w1"
    and "\<And>s. get_stage ptr s w1 = (if s = cbStage req then Some st1 else get_stage ptr s w)"
    and "network w1 = network w @ map (\<lambda>job. buildJobExecutionMessage (cbRunNo req) (cbPipeline req) (cbStage req) job
      (rtRunInfo (objects w ! ptr))) newly"
    and "wdb w1 = (wdb w)\<lparr>job_runs := finish_job_rows (eColl env) (cbPipeline req) (cbRunNo req) (cbStage req) (cbJob req)
      (clock w) status (job_runs (wdb w))\<rparr>" and "pool_ready c (manager w1)"
proof -
  let ?w = "w\<lparr>clock := clock w + 1, wdb := (wdb w)\<lparr>job_runs := finish_job_rows (eColl env) (cbPipeline req)
      (cbRunNo req) (cbStage req) (cbJob req) (clock w) status (job_runs (wdb w))\<rparr>\<rparr>"
  have st: "status \<in> {StatusSuccess, StatusFailed}" "ptr < length (objects w)" using assms(1) by (simp_all add: known_job_def)
  have "pool_ready (length newly + c) (manager ?w)" using assms(6) by simp
  from finish_in_stage_goes_on [OF assms(3) st(1) assms(4,5) this] obtain m where m: "pool_ready c m" and
    fin: "finish_in_stage env req status ptr st ?w = after_job env req ptr st1
      ((set_stage ptr (cbStage req) st1 ?w)\<lparr>manager := m, network := deliver_jobs (\<lambda>msg sent. sent @ [msg]) (cbPipeline req) (cbStage req)
        (cbRunNo req) newly (rtRunInfo (objects ?w ! ptr)) (network ?w)\<rparr>)" by blast
  have frame: "run_frame ptr w (set_stage ptr (cbStage req) st1 ?w)"
    by (rule run_frame_trans [OF _ run_frame_set_stage]) simp
  show ?thesis
    by (rule that [OF HandleJobFinished_known [OF assms(1,2), of env, unfolded fin]])
      (use st(2) m frame in \<open>simp_all add: deliver_append\<close>)
qed

text \<open>What follows the release, in the three cases.\<close>

lemma after_job_incomplete: "\<not> isStageComplete st \<Longrightarrow> after_job env req ptr st w = (Inr (), w)"
  by (simp add: after_job_def ret_def)

lemma after_job_last:
  assumes "isStageComplete st" and "nextStageName (objects w ! ptr) (cbStage req) = None" and "faults (wdb w) = []"
    and "uq_pipeline_runs (eColl env) (pipeline_runs (wdb w))" and "inactive_status (eColl env) StatusSuccess"
  obtains w' where "after_job env req ptr st w = (Inr (), w')" and "getPipelineRuntime (cbPipeline req) (cbRunNo req) w' = None"
    and "network w' = network w"
    and "wdb w' = (wdb w)\<lparr>stage_runs := finish_stage_rows (eColl env) (cbPipeline req) (cbRunNo req) (cbStage req)
        (clock w) StatusSuccess (stage_runs (wdb w)),
      pipeline_runs := finish_run_rows (eColl env) (cbPipeline req) (cbRunNo req) (clock w + 1) StatusSuccess (pipeline_runs (wdb w))\<rparr>"
proof -
  let ?w = "w\<lparr>clock := clock w + 2, wdb := (wdb w)\<lparr>stage_runs := finish_stage_rows (eColl env) (cbPipeline req) (cbRunNo req) (cbStage req)
        (clock w) StatusSuccess (stage_runs (wdb w)),
      pipeline_runs := finish_run_rows (eColl env) (cbPipeline req) (cbRunNo req) (clock w + 1) StatusSuccess (pipeline_runs (wdb w))\<rparr>\<rparr>"
  have "after_job env req ptr st w = (Inr (), deleteRuntime (cbPipeline req) (cbRunNo req) ?w)"
    using assms
    by (simp add: after_job_def andthen_Inr [OF finishStage_ok] advance_stage_def andthen_Inr [OF finishPipelineRun_ok]
        forget_runtime_def add.commute)
  then show ?thesis by (rule that) simp_all
qed

lemma after_job_next:
  assumes "isStageComplete st" and "nextStageName (objects w ! ptr) (cbStage req) = Some nxt" and "ptr < length (objects w)"
    and "get_stage ptr nxt w = Some nst" and "getReadyJobs nst = (ready, nst1)" and "faults (wdb w) = []"
    and "delivers env (\<lambda>msg sent. sent @ [msg])" and "pool_ready (length ready + c) (manager w)"
  obtains w' ts where "after_job env req ptr st w = (Inr (), w')" and "run_frame ptr w w'"
    and "\<And>s. get_stage ptr s w' = (if s = nxt then Some nst1 else get_stage ptr s w)"
    and "network w' = network w @ map (\<lambda>job. buildJobExecutionMessage (cbRunNo req) (cbPipeline req) nxt job (rtRunInfo (objects w ! ptr))) ready"
    and "pool_ready c (manager w')"
    and "wdb w' = (wdb w)\<lparr>stage_runs := fold (\<lambda>(s, t). finish_stage_rows (eColl env) (cbPipeline req) (cbRunNo req) s t StatusSuccess)
        ts (stage_runs (wdb w))\<rparr>"
    and "fst ` set ts = (if isStageComplete nst1 then {cbStage req, nxt} else {cbStage req})"
proof -
  let ?coll = "eColl env" and ?p = "cbPipeline req" and ?n = "cbRunNo req"
  let ?rows = "finish_stage_rows ?coll ?p ?n (cbStage req) (clock w) StatusSuccess (stage_runs (wdb w))"
  let ?w1 = "w\<lparr>clock := clock w + 1, wdb := (wdb w)\<lparr>stage_runs := ?rows\<rparr>\<rparr>"
  let ?w2 = "set_stage ptr nxt nst1 ?w1"
  have run: "after_job env req ptr st w = advance_stage env req ptr ?w1"
    using assms(1,6) by (simp add: after_job_def andthen_Inr [OF finishStage_ok])
  obtain m where m: "enqueueReadyJobs env ?p nxt ?n ready (rtRunInfo (objects w ! ptr)) ?w2
      = (Inr (), ?w2\<lparr>manager := m, network := network w @ map (\<lambda>job. buildJobExecutionMessage ?n ?p nxt job (rtRunInfo (objects w ! ptr))) ready\<rparr>)"
      "pool_ready c m"
    using enqueueReadyJobs_delivers [OF assms(7), of ready c ?w2 ?p nxt ?n "rtRunInfo (objects w ! ptr)"] assms(8)
    by (auto simp: deliver_append)
  let ?w3 = "?w2\<lparr>manager := m, network := network w @ map (\<lambda>job. buildJobExecutionMessage ?n ?p nxt job (rtRunInfo (objects w ! ptr))) ready\<rparr>"
  have adv: "advance_stage env req ptr ?w1
      = (if isStageComplete nst1 then finishStageWithMetrics env ?p ?n nxt StatusSuccess (startedAt nst1) ?w3 else (Inr (), ?w3))"
    using assms(2,4,5) m(1) by (simp add: advance_stage_def andthen_Inr ret_def Let_def nextStageName_def)
  have frame: "run_frame ptr w ?w2"
    by (rule run_frame_trans [OF _ run_frame_set_stage]) simp
  show ?thesis
  proof (cases "isStageComplete nst1")
    case True
    have "after_job env req ptr st w = (Inr (), ?w3\<lparr>clock := 2 + clock w, wdb := (wdb w)\<lparr>stage_runs :=
        finish_stage_rows ?coll ?p ?n nxt (clock w + 1) StatusSuccess ?rows\<rparr>\<rparr>)"
      using assms(6) True by (simp add: run adv finishStage_ok)
    then show ?thesis
      by (rule that [where ts = "[(cbStage req, clock w), (nxt, clock w + 1)]"]) (use assms(3) frame m(2) True in simp_all)
  next
    case False
    then have "after_job env req ptr st w = (Inr (), ?w3)" by (simp add: run adv)
    then show ?thesis
      by (rule that [where ts = "[(cbStage req, clock w)]"]) (use assms(3) frame m(2) False in simp_all)
  qed
qed

section \<open>The invariant of a run in memory\<close>

definition stage_names :: "Pipeline \<Rightarrow> string list" where
  "stage_names p = map stageName (pipelineStages p)"

text \<open>A verified pipeline whose names survive trimming, and services that work: every message is delivered to
  the log of the broker.\<close>

definition healthy :: "('p, JobExecutionMessage list) env \<Rightarrow> Pipeline \<Rightarrow> bool" where
  "healthy env p \<longleftrightarrow>
     wf_pipeline p \<and> range_order (eRangeStage env) \<and> delivers env (\<lambda>msg sent. sent @ [msg])
     \<and> inactive_status (eColl env) StatusSuccess \<and> inactive_status (eColl env) StatusFailed \<and> TrimSpace (pipelineName p) \<noteq> ''''
     \<and> (\<forall>s \<in> set (stage_names p). TrimSpace s \<noteq> '''') \<and> (\<forall>j \<in> set (pipelineJobs p). TrimSpace (jobName j) \<noteq> '''')"

text \<open>The database tells the stages, and the jobs of a stage, apart.\<close>

definition names_apart :: "(string \<Rightarrow> string) \<Rightarrow> Pipeline \<Rightarrow> bool" where
  "names_apart coll p \<longleftrightarrow>
     distinct (map coll (stage_names p))
     \<and> (\<forall>s \<in> set (stage_names p). distinct (map (coll \<circ> jobName) (jobsForStage s (Some p))))"

definition runnable :: "('p, JobExecutionMessage list) env \<Rightarrow> Pipeline \<Rightarrow> int \<Rightarrow> bool" where
  "runnable env p n \<longleftrightarrow> healthy env p \<and> names_apart (eColl env) p \<and> n \<noteq> 0"

definition configured :: "Pipeline \<Rightarrow> string \<Rightarrow> stageState \<Rightarrow> bool" where
  "configured p s st \<longleftrightarrow>
     (\<forall>j \<in> set (jobsForStage s (Some p)). allowFailures (map_get zero_config (jobConfigs st) (jobName j)) = jobFailures j)"

text \<open>The state of stage \<open>i\<close> while stage \<open>k\<close> is running: \<open>R\<close> are the jobs that passed, \<open>pub\<close> the published ones.\<close>

definition stage_ok ::
  "('p, 'n) env \<Rightarrow> Pipeline \<Rightarrow> (string \<times> string) set \<Rightarrow> (string \<Rightarrow> JobExecutionPlan list) \<Rightarrow> nat \<Rightarrow> nat \<Rightarrow> stageState \<Rightarrow> bool" where
  "stage_ok env p R pub k i st \<longleftrightarrow>
     (let s = stage_names p ! i; jobs = jobsForStage s (Some p); plan0 = BuildStagePlan (eRangeStage env) s (Some p) in
      configured p s st
      \<and> (if i \<le> k then stage_inv jobs plan0 st (pub s) \<and> (\<forall>m. m \<in> set (keys (completed st)) \<longleftrightarrow> (s, m) \<in> R)
           \<and> (isStageComplete st \<longleftrightarrow> i < k)
         else (\<exists>t c. st = (newStageState plan0)\<lparr>startedAt := t, jobConfigs := c\<rparr>) \<and> pub s = [] \<and> (\<forall>m. (s, m) \<notin> R)))"

definition stages_ok ::
  "('p, 'n) env \<Rightarrow> Pipeline \<Rightarrow> (string \<times> string) set \<Rightarrow> (string \<Rightarrow> JobExecutionPlan list) \<Rightarrow> nat \<Rightarrow> (string \<Rightarrow> stageState option) \<Rightarrow> bool" where
  "stages_ok env p R pub k g \<longleftrightarrow>
     k < length (stage_names p) \<and> (\<forall>i < length (stage_names p). \<exists>st. g (stage_names p ! i) = Some st \<and> stage_ok env p R pub k i st)"

text \<open>The log of published messages.\<close>

definition sent :: "Pipeline \<Rightarrow> int \<Rightarrow> runInfo \<Rightarrow> (string \<Rightarrow> JobExecutionPlan list) \<Rightarrow> JobExecutionMessage set" where
  "sent p n info pub = {buildJobExecutionMessage n (pipelineName p) s job info | s job. s \<in> set (stage_names p) \<and> job \<in> set (pub s)}"

definition log_ok ::
  "Pipeline \<Rightarrow> int \<Rightarrow> runInfo \<Rightarrow> (string \<Rightarrow> JobExecutionPlan list) \<Rightarrow> JobExecutionMessage list \<Rightarrow> bool" where
  "log_ok p n info pub net \<longleftrightarrow>
     (\<forall>s \<in> set (stage_names p). distinct (map jepName (pub s)) \<and> set (pub s) \<subseteq> job_plan ` set (jobsForStage s (Some p)))
     \<and> distinct net \<and> set net = sent p n info pub"

text \<open>What a row shows: its status, and whether it has an end time.\<close>

type_synonym entry = "string \<times> bool"

definition displays :: "entry \<Rightarrow> string \<Rightarrow> int option \<Rightarrow> bool" where
  "displays e status endTime \<longleftrightarrow> status = fst e \<and> (endTime \<noteq> None \<longleftrightarrow> snd e)"

definition run_row_shows :: "(string \<Rightarrow> string) \<Rightarrow> Pipeline \<Rightarrow> int \<Rightarrow> entry \<Rightarrow> run_row \<Rightarrow> bool" where
  "run_row_shows coll p n v r \<longleftrightarrow>
     (coll (rowPipeline r) = coll (pipelineName p) \<and> rowRunNo r = n \<longrightarrow> displays v (rowStatus r) (rowEndTime r))"

definition stage_row_shows :: "(string \<Rightarrow> string) \<Rightarrow> Pipeline \<Rightarrow> int \<Rightarrow> (string \<Rightarrow> entry) \<Rightarrow> StageRun \<Rightarrow> bool" where
  "stage_row_shows coll p n K r \<longleftrightarrow>
     (coll (srPipeline r) = coll (pipelineName p) \<and> srRunNo r = n \<longrightarrow>
        srStage r \<in> set (stage_names p) \<and> displays (K (srStage r)) (srStatus r) (srEndTime r))"

definition job_keys :: "Pipeline \<Rightarrow> (string \<times> string) set" where
  "job_keys p = (\<lambda>j. (jobStage j, jobName j)) ` set (pipelineJobs p)"

definition job_row_shows :: "(string \<Rightarrow> string) \<Rightarrow> Pipeline \<Rightarrow> int \<Rightarrow> (string \<times> string \<Rightarrow> entry) \<Rightarrow> JobRun \<Rightarrow> bool" where
  "job_row_shows coll p n J r \<longleftrightarrow>
     (coll (jrPipeline r) = coll (pipelineName p) \<and> jrRunNo r = n \<longrightarrow>
        (jrStage r, jrJob r) \<in> job_keys p \<and> displays (J (jrStage r, jrJob r)) (jrStatus r) (jrEndTime r))"

text \<open>The run, its stages and its jobs have rows.\<close>

definition has_rows :: "Pipeline \<Rightarrow> int \<Rightarrow> db \<Rightarrow> bool" where
  "has_rows p n db \<longleftrightarrow>
     (pipelineName p, n) \<in> (\<lambda>r. (rowPipeline r, rowRunNo r)) ` set (pipeline_runs db)
     \<and> (\<forall>s \<in> set (stage_names p). (pipelineName p, n, s) \<in> (\<lambda>r. (srPipeline r, srRunNo r, srStage r)) ` set (stage_runs db))
     \<and> (\<forall>j \<in> set (pipelineJobs p). (pipelineName p, n, jobStage j, jobName j)
          \<in> (\<lambda>r. (jrPipeline r, jrRunNo r, jrStage r, jrJob r)) ` set (job_runs db))"

definition rows_show ::
  "(string \<Rightarrow> string) \<Rightarrow> Pipeline \<Rightarrow> int \<Rightarrow> entry \<Rightarrow> (string \<Rightarrow> entry) \<Rightarrow> (string \<times> string \<Rightarrow> entry) \<Rightarrow> db \<Rightarrow> bool" where
  "rows_show coll p n v K J db \<longleftrightarrow>
     has_rows p n db \<and> (\<forall>r \<in> set (pipeline_runs db). run_row_shows coll p n v r)
     \<and> (\<forall>r \<in> set (stage_runs db). stage_row_shows coll p n K r) \<and> (\<forall>r \<in> set (job_runs db). job_row_shows coll p n J r)"

text \<open>The entries of the stages while the stages in \<open>D\<close> are complete.\<close>

definition done_entry :: "string set \<Rightarrow> string \<Rightarrow> entry" where
  "done_entry D s = (if s \<in> D then (StatusSuccess, True) else (StatusQueued, False))"

lemma done_entry_insert [simp]: "(done_entry D)(s := (StatusSuccess, True)) = done_entry (insert s D)"
  by (auto simp: done_entry_def)

definition run_base ::
  "('p, JobExecutionMessage list) env \<Rightarrow> Pipeline \<Rightarrow> int \<Rightarrow> nat \<Rightarrow> runInfo \<Rightarrow> (string \<times> string \<Rightarrow> entry) \<Rightarrow>
     (string \<Rightarrow> JobExecutionPlan list) \<Rightarrow> string set \<Rightarrow> 'p logged_world \<Rightarrow> bool" where
  "run_base env p n ptr info J pub D w \<longleftrightarrow>
     getPipelineRuntime (pipelineName p) n w = Some ptr \<and> ptr < length (objects w)
     \<and> stageOrder (objects w ! ptr) = stage_names p \<and> rtRunInfo (objects w ! ptr) = info
     \<and> log_ok p n info pub (network w) \<and> pool_ready (length (pipelineJobs p) - length (network w)) (manager w)
     \<and> faults (wdb w) = [] \<and> uq_pipeline_runs (eColl env) (pipeline_runs (wdb w))
     \<and> rows_show (eColl env) p n (StatusQueued, False) (done_entry D) J (wdb w)"

definition run_live ::
  "('p, JobExecutionMessage list) env \<Rightarrow> Pipeline \<Rightarrow> int \<Rightarrow> nat \<Rightarrow> runInfo \<Rightarrow> (string \<times> string) set \<Rightarrow> (string \<times> string \<Rightarrow> entry) \<Rightarrow>
     (string \<Rightarrow> JobExecutionPlan list) \<Rightarrow> nat \<Rightarrow> 'p logged_world \<Rightarrow> bool" where
  "run_live env p n ptr info R J pub k w \<longleftrightarrow>
     stages_ok env p R pub k (\<lambda>s. get_stage ptr s w) \<and> run_base env p n ptr info J pub (set (take k (stage_names p))) w"

text \<open>Published jobs have all their needs, and all jobs of all earlier stages, among the jobs that passed.\<close>

definition stage_before :: "Pipeline \<Rightarrow> string \<Rightarrow> string \<Rightarrow> bool" where
  "stage_before p s t \<longleftrightarrow> (\<exists>i k. i < k \<and> k < length (stage_names p) \<and> stage_names p ! i = s \<and> stage_names p ! k = t)"

definition waits_over :: "Pipeline \<Rightarrow> (string \<times> string) set \<Rightarrow> Job \<Rightarrow> bool" where
  "waits_over p R j \<longleftrightarrow>
     (\<forall>m \<in> set (jobNeeds j). (jobStage j, m) \<in> R)
     \<and> (\<forall>j' \<in> set (pipelineJobs p). stage_before p (jobStage j') (jobStage j) \<longrightarrow> (jobStage j', jobName j') \<in> R)"

definition in_order :: "Pipeline \<Rightarrow> (string \<times> string) set \<Rightarrow> (string \<Rightarrow> JobExecutionPlan list) \<Rightarrow> bool" where
  "in_order p R pub \<longleftrightarrow> (\<forall>j \<in> set (pipelineJobs p). job_plan j \<in> set (pub (jobStage j)) \<longrightarrow> waits_over p R j)"

section \<open>What the callbacks of a run mean\<close>

text \<open>The callbacks, and the verdict on a run: a failed run remembers the stage that failed it.\<close>

datatype run_event = JobStarted JobStatusCallbackRequest | JobFinished JobStatusCallbackRequest

datatype verdict = Going | Succeeded | Failed string

record run_view =
  rvVerdict :: verdict
  rvPassed :: "(string \<times> string) set"
  rvJobs :: "string \<times> string \<Rightarrow> entry"

definition may_fail :: "Pipeline \<Rightarrow> string \<Rightarrow> bool" where
  "may_fail p name \<longleftrightarrow> (\<exists>j \<in> set (pipelineJobs p). jobName j = name \<and> jobFailures j)"

definition finished_status :: "JobStatusCallbackRequest \<Rightarrow> bool" where
  "finished_status cb \<longleftrightarrow> TrimSpace (cbStatus cb) \<in> {StatusSuccess, StatusFailed}"

text \<open>A failed job that may not fail ends the run; any other report lets its job pass, and the run succeeds with
  its last job. Once there is a verdict, callbacks only change what is said of their own jobs. A callback that
  a job is finished, with another status, changes nothing.\<close>

definition judge :: "Pipeline \<Rightarrow> JobStatusCallbackRequest \<Rightarrow> run_view \<Rightarrow> run_view" where
  "judge p cb v =
     (if TrimSpace (cbStatus cb) = StatusFailed \<and> \<not> may_fail p (cbJob cb) then v\<lparr>rvVerdict := Failed (cbStage cb)\<rparr>
      else let R = insert (cbStage cb, cbJob cb) (rvPassed v) in
        v\<lparr>rvPassed := R, rvVerdict := (if job_keys p \<subseteq> R then Succeeded else Going)\<rparr>)"

fun run_step :: "Pipeline \<Rightarrow> run_event \<Rightarrow> run_view \<Rightarrow> run_view" where
  "run_step p (JobStarted cb) v =
     v\<lparr>rvJobs := (rvJobs v)((cbStage cb, cbJob cb) := (StatusRunning, snd (rvJobs v (cbStage cb, cbJob cb))))\<rparr>"
| "run_step p (JobFinished cb) v =
     (if \<not> finished_status cb then v
      else
        let v1 = v\<lparr>rvJobs := (rvJobs v)((cbStage cb, cbJob cb) := (TrimSpace (cbStatus cb), True))\<rparr> in
        if rvVerdict v = Going then judge p cb v1 else v1)"

definition run_begin :: run_view where
  "run_begin = \<lparr>rvVerdict = Going, rvPassed = {}, rvJobs = \<lambda>_. (StatusQueued, False)\<rparr>"

definition run_view_of :: "Pipeline \<Rightarrow> run_event list \<Rightarrow> run_view" where
  "run_view_of p evs = fold (run_step p) evs run_begin"

lemma run_view_simps [simp]:
  "run_view_of p [] = run_begin" "run_view_of p (evs @ [ev]) = run_step p ev (run_view_of p evs)"
  by (simp_all add: run_view_of_def)

text \<open>What the rows of the run and of its stages show.\<close>

definition run_entry :: "run_view \<Rightarrow> entry" where
  "run_entry v = (case rvVerdict v of Going \<Rightarrow> (StatusQueued, False) | Succeeded \<Rightarrow> (StatusSuccess, True) | Failed _ \<Rightarrow> (StatusFailed, True))"

definition stage_entry :: "Pipeline \<Rightarrow> run_view \<Rightarrow> string \<Rightarrow> entry" where
  "stage_entry p v s =
     (if rvVerdict v = Failed s then (StatusFailed, True)
      else if \<forall>j \<in> set (jobsForStage s (Some p)). (s, jobName j) \<in> rvPassed v then (StatusSuccess, True)
      else (StatusQueued, False))"

lemma entries_of_jobs [simp]: "run_entry (v\<lparr>rvJobs := J\<rparr>) = run_entry v" "stage_entry p (v\<lparr>rvJobs := J\<rparr>) = stage_entry p v"
  by (simp_all add: run_entry_def stage_entry_def fun_eq_iff)

definition recorded :: "(string \<Rightarrow> string) \<Rightarrow> Pipeline \<Rightarrow> int \<Rightarrow> run_view \<Rightarrow> db \<Rightarrow> bool" where
  "recorded coll p n v db \<longleftrightarrow> rows_show coll p n (run_entry v) (stage_entry p v) (rvJobs v) db"

text \<open>A run that has left the memory.\<close>

definition run_over ::
  "('p, JobExecutionMessage list) env \<Rightarrow> Pipeline \<Rightarrow> int \<Rightarrow> runInfo \<Rightarrow> run_view \<Rightarrow>
     (string \<Rightarrow> JobExecutionPlan list) \<Rightarrow> 'p logged_world \<Rightarrow> bool" where
  "run_over env p n info v pub w \<longleftrightarrow>
     getPipelineRuntime (pipelineName p) n w = None \<and> faults (wdb w) = [] \<and> log_ok p n info pub (network w)
     \<and> in_order p (rvPassed v) pub \<and> rvVerdict v \<noteq> Going
     \<and> (rvVerdict v = Succeeded \<longrightarrow> (\<forall>j \<in> set (pipelineJobs p). job_plan j \<in> set (pub (jobStage j))))
     \<and> recorded (eColl env) p n v (wdb w)"

subsection \<open>The log\<close>

lemma buildJobExecutionMessage_inj:
  "buildJobExecutionMessage n p s job info = buildJobExecutionMessage n p s' job' info \<longleftrightarrow> s = s' \<and> job = job'"
  by (auto simp: buildJobExecutionMessage_def)

lemma log_ok_length:
  assumes "log_ok p n info pub net"
  shows "length net \<le> length (pipelineJobs p)"
proof -
  let ?all = "(\<lambda>j. buildJobExecutionMessage n (pipelineName p) (jobStage j) (job_plan j) info) ` set (pipelineJobs p)"
  have "set net \<subseteq> ?all"
    using assms by (fastforce simp: log_ok_def sent_def jobsForStage_def)
  then have "card (set net) \<le> card ?all" by (intro card_mono) simp_all
  also have "\<dots> \<le> length (pipelineJobs p)" by (metis card_image_le card_length finite_set le_trans)
  finally show ?thesis using assms distinct_card [of net] by (simp add: log_ok_def)
qed

lemma sent_publish:
  "s \<in> set (stage_names p) \<Longrightarrow> sent p n info (pub(s := pub s @ new)) =
     sent p n info pub \<union> (\<lambda>job. buildJobExecutionMessage n (pipelineName p) s job info) ` set new"
  by (auto simp: sent_def split: if_splits)

lemma log_ok_publish:
  assumes "log_ok p n info pub net" and "s \<in> set (stage_names p)" and "distinct (map jepName (pub s @ new))"
    and "set (pub s @ new) \<subseteq> job_plan ` set (jobsForStage s (Some p))"
  shows "log_ok p n info (pub(s := pub s @ new)) (net @ map (\<lambda>job. buildJobExecutionMessage n (pipelineName p) s job info) new)"
proof -
  let ?msg = "\<lambda>job. buildJobExecutionMessage n (pipelineName p) s job info"
  have "distinct (map ?msg new)"
    using assms(3) by (simp add: distinct_map inj_on_def buildJobExecutionMessage_inj)
  moreover have "?msg ` set new \<inter> set net = {}"
    using assms(1,3) by (fastforce simp: log_ok_def sent_def buildJobExecutionMessage_inj)
  ultimately show ?thesis
    using assms by (auto simp: log_ok_def sent_publish)
qed

subsection \<open>The rows\<close>

lemma stage_apart:
  assumes "names_apart coll p" and "s \<in> set (stage_names p)" and "t \<in> set (stage_names p)"
  shows "coll s = coll t \<longleftrightarrow> s = t"
  using assms by (auto simp: names_apart_def distinct_map inj_on_def)

lemma job_apart:
  assumes "names_apart coll p" and "wf_pipeline p" and "(s, a) \<in> job_keys p" and "(t, b) \<in> job_keys p"
  shows "coll s = coll t \<and> coll a = coll b \<longleftrightarrow> (s, a) = (t, b)"
proof
  assume same: "coll s = coll t \<and> coll a = coll b"
  have stages: "s \<in> set (stage_names p)" "t \<in> set (stage_names p)"
    using assms(2-4) by (auto simp: job_keys_def wf_pipeline_def stage_names_def)
  with same have st: "s = t" using stage_apart [OF assms(1)] by simp
  from assms(3,4) obtain i j where "i \<in> set (jobsForStage s (Some p))" "a = jobName i" "j \<in> set (jobsForStage s (Some p))" "b = jobName j"
    by (auto simp: job_keys_def jobsForStage_def st)
  moreover have "inj_on (coll \<circ> jobName) (set (jobsForStage s (Some p)))"
    using assms(1) stages(1) by (simp add: names_apart_def distinct_map)
  ultimately have "i = j" using same by (simp add: inj_on_def)
  then show "(s, a) = (t, b)" using \<open>a = jobName i\<close> \<open>b = jobName j\<close> st by simp
qed simp

lemma has_rows_finish:
  "has_rows p n db \<Longrightarrow> has_rows p n (db\<lparr>job_runs := finish_job_rows coll q m s j t status (job_runs db)\<rparr>)"
  "has_rows p n db \<Longrightarrow> has_rows p n (db\<lparr>stage_runs := finish_stage_rows coll q m s t status (stage_runs db)\<rparr>)"
  "has_rows p n db \<Longrightarrow> has_rows p n (db\<lparr>pipeline_runs := finish_run_rows coll q m t status (pipeline_runs db)\<rparr>)"
  unfolding has_rows_def finish_job_rows_def finish_stage_rows_def finish_run_rows_def
  by (simp_all add: image_if_keys del: set_map image_set)

text \<open>An update of a job's row changes what is shown of this job.\<close>

lemma job_row_shows_update:
  assumes "names_apart coll p" and "wf_pipeline p" and "(s, j) \<in> job_keys p" and row: "job_row_shows coll p n J r"
    and change: "jrPipeline (change r) = jrPipeline r" "jrRunNo (change r) = jrRunNo r" "jrStage (change r) = jrStage r"
      "jrJob (change r) = jrJob r" "displays (J (s, j)) (jrStatus r) (jrEndTime r) \<Longrightarrow> displays e (jrStatus (change r)) (jrEndTime (change r))"
  shows "job_row_shows coll p n (J((s, j) := e))
    (if coll (jrPipeline r) = coll (pipelineName p) \<and> jrRunNo r = n \<and> coll (jrStage r) = coll s \<and> coll (jrJob r) = coll j
     then change r else r)"
proof (cases "coll (jrPipeline r) = coll (pipelineName p) \<and> jrRunNo r = n")
  case True
  then have key: "(jrStage r, jrJob r) \<in> job_keys p" and old: "displays (J (jrStage r, jrJob r)) (jrStatus r) (jrEndTime r)"
    using row by (simp_all add: job_row_shows_def)
  note apart = job_apart [OF assms(1,2) key assms(3)]
  show ?thesis
  proof (cases "(jrStage r, jrJob r) = (s, j)")
    case same: True
    then have "displays e (jrStatus (change r)) (jrEndTime (change r))" using old change(5) by simp
    with same True key change show ?thesis by (simp add: job_row_shows_def)
  next
    case False
    then have "\<not> (coll (jrStage r) = coll s \<and> coll (jrJob r) = coll j)" using apart by simp
    with False True key old show ?thesis by (auto simp: job_row_shows_def)
  qed
qed (auto simp: job_row_shows_def)

lemma stage_row_shows_update:
  assumes "names_apart coll p" and s: "s \<in> set (stage_names p)" and row: "stage_row_shows coll p n K r"
  shows "stage_row_shows coll p n (K(s := (status, True)))
    (if coll (srPipeline r) = coll (pipelineName p) \<and> srRunNo r = n \<and> coll (srStage r) = coll s
     then r\<lparr>srEndTime := Some t, srStatus := status\<rparr> else r)"
proof (cases "coll (srPipeline r) = coll (pipelineName p) \<and> srRunNo r = n")
  case True
  then have "srStage r \<in> set (stage_names p)" using row by (simp add: stage_row_shows_def)
  with stage_apart [OF assms(1) this s] row show ?thesis by (auto simp: stage_row_shows_def displays_def)
qed (auto simp: stage_row_shows_def)

lemma rows_show_job:
  assumes "names_apart coll p" and "wf_pipeline p" and "(s, j) \<in> job_keys p" and "rows_show coll p n v K J db"
  shows "rows_show coll p n v K (J((s, j) := (status, True)))
    (db\<lparr>job_runs := finish_job_rows coll (pipelineName p) n s j t status (job_runs db)\<rparr>)"
proof -
  have "\<forall>r \<in> set (finish_job_rows coll (pipelineName p) n s j t status (job_runs db)). job_row_shows coll p n (J((s, j) := (status, True))) r"
    unfolding finish_job_rows_def set_map
  proof (intro ballI, elim imageE, hypsubst)
    fix r assume "r \<in> set (job_runs db)"
    then have "job_row_shows coll p n J r" using assms(4) by (simp add: rows_show_def)
    then show "job_row_shows coll p n (J((s, j) := (status, True))) (if coll (jrPipeline r) = coll (pipelineName p) \<and> jrRunNo r = n
        \<and> coll (jrStage r) = coll s \<and> coll (jrJob r) = coll j then r\<lparr>jrEndTime := Some t, jrStatus := status\<rparr> else r)"
      by (intro job_row_shows_update [OF assms(1-3)]) (simp_all add: displays_def)
  qed
  then show ?thesis using assms(4) by (simp add: rows_show_def has_rows_finish)
qed

text \<open>The statement of \<open>markJobRunning\<close> sets the status and leaves the end time.\<close>

definition running_job_rows :: "(string \<Rightarrow> string) \<Rightarrow> string \<Rightarrow> int \<Rightarrow> string \<Rightarrow> string \<Rightarrow> JobRun list \<Rightarrow> JobRun list" where
  "running_job_rows coll p n s j =
     map (\<lambda>r. if coll (jrPipeline r) = coll p \<and> jrRunNo r = n \<and> coll (jrStage r) = coll s \<and> coll (jrJob r) = coll j
              then r\<lparr>jrStatus := StatusRunning\<rparr> else r)"

lemma rows_show_running:
  assumes "names_apart coll p" and "wf_pipeline p" and "(s, j) \<in> job_keys p" and "rows_show coll p n v K J db"
  shows "rows_show coll p n v K (J((s, j) := (StatusRunning, snd (J (s, j)))))
    (db\<lparr>job_runs := running_job_rows coll (pipelineName p) n s j (job_runs db)\<rparr>)"
proof -
  let ?J = "J((s, j) := (StatusRunning, snd (J (s, j))))"
  have "\<forall>r \<in> set (running_job_rows coll (pipelineName p) n s j (job_runs db)). job_row_shows coll p n ?J r"
    unfolding running_job_rows_def set_map
  proof (intro ballI, elim imageE, hypsubst)
    fix r assume "r \<in> set (job_runs db)"
    then have "job_row_shows coll p n J r" using assms(4) by (simp add: rows_show_def)
    then show "job_row_shows coll p n ?J (if coll (jrPipeline r) = coll (pipelineName p) \<and> jrRunNo r = n
        \<and> coll (jrStage r) = coll s \<and> coll (jrJob r) = coll j then r\<lparr>jrStatus := StatusRunning\<rparr> else r)"
      by (intro job_row_shows_update [OF assms(1-3)]) (simp_all add: displays_def)
  qed
  moreover have "has_rows p n (db\<lparr>job_runs := running_job_rows coll (pipelineName p) n s j (job_runs db)\<rparr>)"
    using assms(4) unfolding rows_show_def has_rows_def running_job_rows_def by (simp add: image_if_keys del: set_map image_set)
  ultimately show ?thesis using assms(4) by (simp add: rows_show_def)
qed

lemma rows_show_stage:
  assumes "names_apart coll p" and "s \<in> set (stage_names p)" and "rows_show coll p n v K J db"
  shows "rows_show coll p n v (K(s := (status, True))) J
    (db\<lparr>stage_runs := finish_stage_rows coll (pipelineName p) n s t status (stage_runs db)\<rparr>)"
proof -
  have "\<forall>r \<in> set (finish_stage_rows coll (pipelineName p) n s t status (stage_runs db)). stage_row_shows coll p n (K(s := (status, True))) r"
    unfolding finish_stage_rows_def set_map
  proof (intro ballI, elim imageE, hypsubst)
    fix r assume "r \<in> set (stage_runs db)"
    then have "stage_row_shows coll p n K r" using assms(3) by (simp add: rows_show_def)
    then show "stage_row_shows coll p n (K(s := (status, True))) (if coll (srPipeline r) = coll (pipelineName p) \<and> srRunNo r = n
        \<and> coll (srStage r) = coll s then r\<lparr>srEndTime := Some t, srStatus := status\<rparr> else r)"
      by (rule stage_row_shows_update [OF assms(1,2)])
  qed
  then show ?thesis using assms(3) by (simp add: rows_show_def has_rows_finish)
qed

lemma rows_show_stages:
  assumes "names_apart coll p" and "fst ` set ts \<subseteq> set (stage_names p)" and "rows_show coll p n v (done_entry D) J db"
  shows "rows_show coll p n v (done_entry (fst ` set ts \<union> D)) J
    (db\<lparr>stage_runs := fold (\<lambda>(s, t). finish_stage_rows coll (pipelineName p) n s t StatusSuccess) ts (stage_runs db)\<rparr>)"
  using assms(2,3)
proof (induction ts arbitrary: D db)
  case (Cons x ts)
  obtain s t where x: "x = (s, t)" by fastforce
  have s: "s \<in> set (stage_names p)" and ts: "fst ` set ts \<subseteq> set (stage_names p)" using Cons.prems(1) by (simp_all add: x)
  from Cons.IH [OF ts rows_show_stage [OF assms(1) s Cons.prems(2), of StatusSuccess t, unfolded done_entry_insert]]
  show ?case by (simp add: x insert_commute)
qed simp

lemma rows_show_run:
  assumes "rows_show coll p n v K J db"
  shows "rows_show coll p n (status, True) K J (db\<lparr>pipeline_runs := finish_run_rows coll (pipelineName p) n t status (pipeline_runs db)\<rparr>)"
proof -
  have "\<forall>r \<in> set (finish_run_rows coll (pipelineName p) n t status (pipeline_runs db)). run_row_shows coll p n (status, True) r"
    unfolding finish_run_rows_def set_map
  proof (intro ballI, elim imageE, hypsubst)
    fix r show "run_row_shows coll p n (status, True) (if coll (rowPipeline r) = coll (pipelineName p) \<and> rowRunNo r = n
        then r\<lparr>rowEndTime := Some t, rowStatus := status\<rparr> else r)"
      by (auto simp: run_row_shows_def displays_def)
  qed
  then show ?thesis using assms by (simp add: rows_show_def has_rows_finish)
qed

lemma rows_show_cong:
  "(\<And>s. s \<in> set (stage_names p) \<Longrightarrow> K s = K' s) \<Longrightarrow> rows_show coll p n v K J db = rows_show coll p n v K' J db"
  unfolding rows_show_def stage_row_shows_def by auto

subsection \<open>The stages\<close>

lemma runnable_plan:
  "runnable env p n \<Longrightarrow> stage_plan_of (jobsForStage s (Some p)) (BuildStagePlan (eRangeStage env) s (Some p))"
  by (intro stage_plan_of_BuildStagePlan) (simp_all add: runnable_def healthy_def wf_stage_jobs)

lemma runnable_names: "runnable env p n \<Longrightarrow> names_apart (eColl env) p \<and> wf_pipeline p"
  by (simp add: runnable_def healthy_def)

lemma runnable_stages:
  assumes "runnable env p n"
  shows "distinct (stage_names p)" and "s \<in> set (stage_names p) \<Longrightarrow> jobsForStage s (Some p) \<noteq> []"
  using assms by (auto simp: runnable_def healthy_def wf_pipeline_def stage_names_def jobsForStage_def filter_empty_conv)

lemma completed_mark:
  assumes "stage_plan_of jobs p" and "stage_inv jobs p st pub" and "name \<in> jepName ` set pub"
    and "markJobSucceeded name st = (newly, st1)"
  shows "set (keys (completed st1)) = insert name (set (keys (completed st)))"
proof (cases "name \<in> set (keys (completed st))")
  case True
  then have "map_get False (completed st) name" using marked_get [OF stage_invD(5) [OF assms(2)]] by simp
  then show ?thesis using assms(4) True by (auto simp: markJobSucceeded_def)
qed (use completed_markJobSucceeded [OF assms(1-3) _ assms(4)] in simp)

lemma stage_ok_other:
  "stage_names p ! i \<noteq> s \<Longrightarrow> stage_ok env p (insert (s, name) R) (pub(s := x)) k i st = stage_ok env p R pub k i st"
  by (simp add: stage_ok_def Let_def)

lemma stages_okD:
  assumes "stages_ok env p R pub k g" and "i < length (stage_names p)" and "g (stage_names p ! i) = Some st"
  shows "stage_ok env p R pub k i st"
  using assms by (auto simp: stages_ok_def)

lemma stage_ok_started:
  assumes "stage_ok env p R pub k i st" and "i \<le> k"
  shows "stage_inv (jobsForStage (stage_names p ! i) (Some p)) (BuildStagePlan (eRangeStage env) (stage_names p ! i) (Some p)) st
      (pub (stage_names p ! i))"
    and "m \<in> set (keys (completed st)) \<longleftrightarrow> (stage_names p ! i, m) \<in> R" and "isStageComplete st \<longleftrightarrow> i < k"
    and "configured p (stage_names p ! i) st"
  using assms by (simp_all add: stage_ok_def Let_def)

lemma stages_ok_release:
  assumes run: "runnable env p n" and ok: "stages_ok env p R pub k g" and s: "s = stage_names p ! k" and st: "g s = Some st"
    and name: "name \<in> jepName ` set (pub s)" and mark: "markJobSucceeded name st = (newly, st1)" and "\<not> isStageComplete st1"
  shows "stages_ok env p (insert (s, name) R) (pub(s := pub s @ newly)) k (g(s \<mapsto> st1))"
    and "stage_inv (jobsForStage s (Some p)) (BuildStagePlan (eRangeStage env) s (Some p)) st1 (pub s @ newly)"
proof -
  have k: "k < length (stage_names p)" using ok by (simp add: stages_ok_def)
  have st_ok: "stage_ok env p R pub k k st" using stages_okD [OF ok k] st s by simp
  note started = stage_ok_started [OF st_ok order.refl, folded s]
  show inv1: "stage_inv (jobsForStage s (Some p)) (BuildStagePlan (eRangeStage env) s (Some p)) st1 (pub s @ newly)"
    by (rule stage_inv_step [OF runnable_plan [OF run] started(1) name mark])
  have "configured p s st1" using started(4) markJobSucceeded_configs [OF mark] by (simp add: configured_def)
  moreover have "set (keys (completed st1)) = insert name (set (keys (completed st)))"
    by (rule completed_mark [OF runnable_plan [OF run] started(1) name mark])
  ultimately have here: "stage_ok env p (insert (s, name) R) (pub(s := pub s @ newly)) k k st1"
    using inv1 started(2) assms(7) by (simp add: stage_ok_def Let_def flip: s)
  have "\<exists>st'. (g(s \<mapsto> st1)) (stage_names p ! i) = Some st' \<and> stage_ok env p (insert (s, name) R) (pub(s := pub s @ newly)) k i st'"
    if i: "i < length (stage_names p)" for i
  proof (cases "i = k")
    case False
    then have "stage_names p ! i \<noteq> s" using runnable_stages(1) [OF run] i k by (simp add: s nth_eq_iff_index_eq)
    then show ?thesis using ok i by (simp add: stages_ok_def stage_ok_other)
  qed (use here s in simp)
  then show "stages_ok env p (insert (s, name) R) (pub(s := pub s @ newly)) k (g(s \<mapsto> st1))"
    using k by (simp add: stages_ok_def)
qed

lemma stage_ok_later:
  assumes "stage_ok env p R pub k i st" and "k < i"
  obtains t c where "st = (newStageState (BuildStagePlan (eRangeStage env) (stage_names p ! i) (Some p)))\<lparr>startedAt := t, jobConfigs := c\<rparr>"
    and "pub (stage_names p ! i) = []" and "\<And>m. (stage_names p ! i, m) \<notin> R" and "configured p (stage_names p ! i) st"
  using assms by (auto simp: stage_ok_def Let_def)

lemma stages_ok_newly:
  assumes run: "runnable env p n" and ok: "stages_ok env p R pub k g" and s: "s = stage_names p ! k" and st: "g s = Some st"
    and name: "name \<in> jepName ` set (pub s)" and mark: "markJobSucceeded name st = (newly, st1)" and full: "isStageComplete st1"
  shows "newly = []"
proof -
  have k: "k < length (stage_names p)" using ok by (simp add: stages_ok_def)
  have "stage_ok env p R pub k k st" using stages_okD [OF ok k] st s by simp
  note started = stage_ok_started [OF this order.refl, folded s]
  have "name \<notin> set (keys (completed st))"
  proof
    assume "name \<in> set (keys (completed st))"
    then have "st1 = st" using mark marked_get [OF stage_invD(5) [OF started(1)]] by (simp add: markJobSucceeded_def)
    with full started(3) show False by simp
  qed
  then show ?thesis by (rule complete_releases_nothing [OF runnable_plan [OF run] started(1) name _ mark full])
qed

lemma stages_ok_advance:
  assumes run: "runnable env p n" and ok: "stages_ok env p R pub k g" and s: "s = stage_names p ! k" and st: "g s = Some st"
    and name: "name \<in> jepName ` set (pub s)" and mark: "markJobSucceeded name st = (newly, st1)" and full: "isStageComplete st1"
    and nxt: "Suc k < length (stage_names p)" "nxt = stage_names p ! Suc k" and nst: "g nxt = Some nst"
    and ready: "getReadyJobs nst = (ready, nst1)"
  shows "stages_ok env p (insert (s, name) R) (pub(nxt := ready)) (Suc k) (g(s \<mapsto> st1, nxt \<mapsto> nst1))"
    and "stage_inv (jobsForStage nxt (Some p)) (BuildStagePlan (eRangeStage env) nxt (Some p)) nst1 ready"
    and "\<not> isStageComplete nst1" and "pub nxt = []"
proof -
  have k: "k < length (stage_names p)" using ok by (simp add: stages_ok_def)
  have st_ok: "stage_ok env p R pub k k st" using stages_okD [OF ok k] st s by simp
  note started = stage_ok_started [OF st_ok order.refl, folded s]
  note newly = stages_ok_newly [OF run ok s st name mark full]
  have inv1: "stage_inv (jobsForStage s (Some p)) (BuildStagePlan (eRangeStage env) s (Some p)) st1 (pub s)"
    using stage_inv_step [OF runnable_plan [OF run] started(1) name mark] newly by simp
  have "configured p s st1" using started(4) markJobSucceeded_configs [OF mark] by (simp add: configured_def)
  have comp: "set (keys (completed st1)) = insert name (set (keys (completed st)))"
    by (rule completed_mark [OF runnable_plan [OF run] started(1) name mark])
  have ne: "s \<noteq> nxt" using runnable_stages(1) [OF run] k nxt by (simp add: s nth_eq_iff_index_eq)
  have nst_ok: "stage_ok env p R pub k (Suc k) nst" using stages_okD [OF ok nxt(1)] nst nxt(2) by simp
  obtain t c where fresh: "nst = (newStageState (BuildStagePlan (eRangeStage env) nxt (Some p)))\<lparr>startedAt := t, jobConfigs := c\<rparr>"
      and later: "pub nxt = []" "\<And>m. (nxt, m) \<notin> R" "configured p nxt nst"
    by (rule stage_ok_later [OF nst_ok lessI, folded nxt(2)]) (rule that)
  note ready1 = getReadyJobs_first [OF runnable_plan [OF run] ready [unfolded fresh]]
  show inv2: "stage_inv (jobsForStage nxt (Some p)) (BuildStagePlan (eRangeStage env) nxt (Some p)) nst1 ready" by (rule ready1(1))
  have "jobsForStage nxt (Some p) \<noteq> []" using runnable_stages(2) [OF run] nxt by simp
  then show open_stage: "\<not> isStageComplete nst1"
    using stage_inv_complete [OF runnable_plan [OF run] inv2] ready1(3) by simp
  show "pub nxt = []" by (rule later(1))
  have "configured p nxt nst1" using later(3) ready1(2) fresh by (simp add: configured_def)
  then have ok2: "stage_ok env p (insert (s, name) R) (pub(nxt := ready)) (Suc k) (Suc k) nst1"
    using inv2 open_stage ready1(3) later(2) ne by (simp add: stage_ok_def Let_def flip: nxt(2))
  have ok1: "stage_ok env p (insert (s, name) R) (pub(nxt := ready)) (Suc k) k st1"
    using inv1 \<open>configured p s st1\<close> comp started(2) full ne by (simp add: stage_ok_def Let_def flip: s)
  have "\<exists>st'. (g(s \<mapsto> st1, nxt \<mapsto> nst1)) (stage_names p ! i) = Some st' \<and> stage_ok env p (insert (s, name) R) (pub(nxt := ready)) (Suc k) i st'"
    if i: "i < length (stage_names p)" for i
  proof -
    consider "i = k" | "i = Suc k" | "i \<noteq> k" "i \<noteq> Suc k" by blast
    then show ?thesis
    proof cases
      case 3
      then have other: "stage_names p ! i \<noteq> s" "stage_names p ! i \<noteq> nxt"
        using runnable_stages(1) [OF run] i k nxt by (simp_all add: s nth_eq_iff_index_eq)
      obtain st' where "g (stage_names p ! i) = Some st'" "stage_ok env p R pub k i st'" using ok i by (auto simp: stages_ok_def)
      with other 3 show ?thesis by (auto simp: stage_ok_def Let_def)
    qed (use ok1 ok2 s nxt ne in simp_all)
  qed
  then show "stages_ok env p (insert (s, name) R) (pub(nxt := ready)) (Suc k) (g(s \<mapsto> st1, nxt \<mapsto> nst1))"
    using nxt(1) by (simp add: stages_ok_def)
qed

text \<open>Late reports of a stage that is already complete change nothing.\<close>

lemma stages_ok_repeat:
  assumes run: "runnable env p n" and ok: "stages_ok env p R pub k g" and i: "i < k" and s: "s = stage_names p ! i"
    and st: "g s = Some st" and name: "name \<in> jepName ` set (pub s)"
  shows "markJobSucceeded name st = ([], st)" and "isStageComplete st" and "(s, name) \<in> R"
proof -
  have len: "i < length (stage_names p)" using ok i by (simp add: stages_ok_def)
  have "stage_ok env p R pub k i st" using stages_okD [OF ok len] st s by simp
  note started = stage_ok_started [OF this less_imp_le [OF i], folded s]
  show full: "isStageComplete st" using started(3) i by simp
  have "name \<in> jobName ` set (jobsForStage s (Some p))" using name stage_invD(3) [OF started(1)] by fastforce
  then have "name \<in> set (keys (completed st))" using full stage_inv_complete [OF runnable_plan [OF run] started(1)] by simp
  then show "(s, name) \<in> R" "markJobSucceeded name st = ([], st)"
    using started(2) marked_get [OF stage_invD(5) [OF started(1)]] by (simp_all add: markJobSucceeded_def)
qed

lemma stages_ok_ready_again:
  assumes "runnable env p n" and "stages_ok env p R pub k g" and "i \<le> k" and "g (stage_names p ! i) = Some st"
  shows "getReadyJobs st = ([], st)" and "isStageComplete st \<longleftrightarrow> i < k"
proof -
  have "i < length (stage_names p)" using assms(2,3) by (simp add: stages_ok_def)
  from stage_ok_started [OF stages_okD [OF assms(2) this assms(4)] assms(3)]
  show "getReadyJobs st = ([], st)" "isStageComplete st \<longleftrightarrow> i < k"
    using getReadyJobs_again [OF runnable_plan [OF assms(1)]] by blast+
qed

section \<open>Reports of a run\<close>

text \<open>A callback about a published message.\<close>

definition about_message :: "JobExecutionMessage list \<Rightarrow> JobStatusCallbackRequest \<Rightarrow> bool" where
  "about_message net cb \<longleftrightarrow>
     (\<exists>msg \<in> set net. cbPipeline cb = jmPipelineName msg \<and> cbRunNo cb = jmRunNo msg \<and> cbStage cb = jmStage msg \<and> cbJob cb = jepName (jmJob msg))"

text \<open>A message of the log names a job of the pipeline.\<close>

lemma about_log:
  assumes "about_message net cb" and "log_ok p n info pub net"
  obtains job j where "cbStage cb \<in> set (stage_names p)" and "job \<in> set (pub (cbStage cb))" and "cbJob cb = jepName job"
    and "cbPipeline cb = pipelineName p" and "cbRunNo cb = n" and "j \<in> set (jobsForStage (cbStage cb) (Some p))" and "job = job_plan j"
proof -
  from assms obtain s job where msg: "s \<in> set (stage_names p)" "job \<in> set (pub s)" "cbStage cb = s" "cbJob cb = jepName job"
      "cbPipeline cb = pipelineName p" "cbRunNo cb = n"
    by (auto simp: about_message_def log_ok_def sent_def buildJobExecutionMessage_def)
  moreover obtain j where "j \<in> set (jobsForStage s (Some p))" "job = job_plan j"
    using assms(2) msg(1,2) by (fastforce simp: log_ok_def)
  ultimately show ?thesis by (intro that) auto
qed

definition run_after ::
  "('p, JobExecutionMessage list) env \<Rightarrow> Pipeline \<Rightarrow> int \<Rightarrow> nat \<Rightarrow> runInfo \<Rightarrow> run_view \<Rightarrow> 'p logged_world \<Rightarrow> bool" where
  "run_after env p n ptr info v w \<longleftrightarrow>
     rvVerdict v = Going \<and> (\<exists>pub k. run_live env p n ptr info (rvPassed v) (rvJobs v) pub k w) \<or> (\<exists>pub. run_over env p n info v pub w)"

lemma about_key:
  assumes "about_message net cb" and "log_ok p n info pub net"
  shows "(cbStage cb, cbJob cb) \<in> job_keys p" and "cbStage cb \<in> set (stage_names p)" and "cbPipeline cb = pipelineName p" and "cbRunNo cb = n"
proof -
  obtain job j where "cbStage cb \<in> set (stage_names p)" "cbJob cb = jepName job" "cbPipeline cb = pipelineName p" "cbRunNo cb = n"
      "j \<in> set (jobsForStage (cbStage cb) (Some p))" "job = job_plan j"
    by (rule about_log [OF assms])
  then show "(cbStage cb, cbJob cb) \<in> job_keys p" "cbStage cb \<in> set (stage_names p)" "cbPipeline cb = pipelineName p" "cbRunNo cb = n"
    by (force simp: job_keys_def jobsForStage_def)+
qed

text \<open>A callback that a job is finished, about a published message of a run in memory: it is known, and whether it lets the
  run go on is decided by the pipeline.\<close>

lemma report_known:
  assumes run: "runnable env p n" and live: "run_live env p n ptr info R J pub k w" and about: "about_message (network w) cb"
    and status: "finished_status cb"
  obtains i st where "i \<le> k" "i < length (stage_names p)" "cbStage cb = stage_names p ! i" "cbPipeline cb = pipelineName p" "cbRunNo cb = n"
    "cbJob cb \<in> jepName ` set (pub (cbStage cb))" "get_stage ptr (cbStage cb) w = Some st"
    "known_job cb (TrimSpace (cbStatus cb)) ptr st w"
    "allowFailures (map_get zero_config (jobConfigs st) (cbJob cb)) = may_fail p (cbJob cb)"
proof -
  have log: "log_ok p n info pub (network w)" using live by (simp add: run_live_def run_base_def)
  define s where "s = cbStage cb"
  obtain job j where msg: "s \<in> set (stage_names p)" "job \<in> set (pub s)" "cbJob cb = jepName job"
      "cbPipeline cb = pipelineName p" "cbRunNo cb = n" and j: "j \<in> set (jobsForStage s (Some p))" "job = job_plan j"
    unfolding s_def by (rule about_log [OF about log])
  then obtain i where i: "i < length (stage_names p)" "s = stage_names p ! i" by (metis in_set_conv_nth)
  obtain st where st: "get_stage ptr s w = Some st" "stage_ok env p R pub k i st"
    using live i by (auto simp: run_live_def stages_ok_def)
  have "i \<le> k" using st(2) msg(2) i(2) by (cases "i \<le> k") (auto simp: stage_ok_def Let_def)
  have jp: "j \<in> set (pipelineJobs p)" using j by (simp add: jobsForStage_def)
  have "\<not> missing_fields cb" using run msg jp j(2) by (simp add: runnable_def healthy_def missing_fields_def s_def)
  then have known: "known_job cb (TrimSpace (cbStatus cb)) ptr st w"
    using live st(1) msg status by (auto simp: known_job_def run_live_def run_base_def finished_status_def s_def)
  have "allowFailures (map_get zero_config (jobConfigs st) (jobName j)) = jobFailures j"
    using stage_ok_started(4) [OF st(2) \<open>i \<le> k\<close>] j(1) i(2) by (simp add: configured_def)
  moreover have "j' = j" if "j' \<in> set (pipelineJobs p)" "jobName j' = jobName j" for j'
    using run that jp by (auto simp: runnable_def healthy_def wf_pipeline_def distinct_map inj_on_def)
  ultimately have "allowFailures (map_get zero_config (jobConfigs st) (cbJob cb)) = may_fail p (cbJob cb)"
    using msg(3) j(2) jp by (auto simp: may_fail_def)
  with \<open>i \<le> k\<close> i msg st known show ?thesis unfolding s_def by (intro that) auto
qed

text \<open>The report lets the run go on.\<close>

definition passes :: "Pipeline \<Rightarrow> JobStatusCallbackRequest \<Rightarrow> bool" where
  "passes p cb \<longleftrightarrow> finished_status cb \<and> \<not> (TrimSpace (cbStatus cb) = StatusFailed \<and> \<not> may_fail p (cbJob cb))"

lemma stage_all_published:
  assumes "stage_plan_of jobs p" and "stage_inv jobs p st pub" and "isStageComplete st" and "j \<in> set jobs"
  shows "job_plan j \<in> set pub" and "jobName j \<in> set (keys (completed st))"
proof -
  show fin: "jobName j \<in> set (keys (completed st))" using stage_inv_complete [OF assms(1,2)] assms(3,4) by simp
  then obtain job where "job \<in> set pub" "jepName job = jobName j" using stage_invD(2) [OF assms(2)] by fastforce
  moreover from this(1) obtain j' where "j' \<in> set jobs" "job = job_plan j'" using stage_invD(3) [OF assms(2)] by blast
  moreover have "inj_on jobName (set jobs)" using assms(1) by (simp add: stage_plan_of_def distinct_map)
  ultimately show "job_plan j \<in> set pub" using assms(4) by (auto dest: inj_onD)
qed

lemma report_first_step:
  assumes run: "runnable env p n" and live: "run_live env p n ptr info R J pub k w" and about: "about_message (network w) cb"
    and pass: "passes p cb"
  obtains i st newly st1 w1 where "i \<le> k" "i < length (stage_names p)" "cbStage cb = stage_names p ! i" "cbPipeline cb = pipelineName p"
    "cbRunNo cb = n" "cbJob cb \<in> jepName ` set (pub (cbStage cb))" "get_stage ptr (cbStage cb) w = Some st"
    "markJobSucceeded (cbJob cb) st = (newly, st1)" "HandleJobFinished env cb w = after_job env cb ptr st1 w1"
    "(\<lambda>s. get_stage ptr s w1) = (\<lambda>s. get_stage ptr s w)(cbStage cb \<mapsto> st1)"
    "run_base env p n ptr info (J((cbStage cb, cbJob cb) := (TrimSpace (cbStatus cb), True))) (pub(cbStage cb := pub (cbStage cb) @ newly))
      (set (take k (stage_names p))) w1"
proof -
  let ?s = "cbStage cb" and ?m = "cbJob cb" and ?N = "length (pipelineJobs p)"
  obtain i st where i: "i \<le> k" "i < length (stage_names p)" "?s = stage_names p ! i" "cbPipeline cb = pipelineName p" "cbRunNo cb = n"
      and name: "?m \<in> jepName ` set (pub ?s)" and st: "get_stage ptr ?s w = Some st"
      and known: "known_job cb (TrimSpace (cbStatus cb)) ptr st w" and may: "allowFailures (map_get zero_config (jobConfigs st) ?m) = may_fail p ?m"
    using report_known [OF run live about] pass by (metis passes_def)
  have on: "goes_on cb (TrimSpace (cbStatus cb)) st" using pass may by (auto simp: goes_on_def passes_def finished_status_def)
  have ok: "stages_ok env p R pub k (\<lambda>s. get_stage ptr s w)"
    and base: "run_base env p n ptr info J pub (set (take k (stage_names p))) w" using live by (simp_all add: run_live_def)
  note base = base [unfolded run_base_def]
  have env: "delivers env (\<lambda>msg sent. sent @ [msg])" using run by (simp add: runnable_def healthy_def)
  obtain newly st1 where mark: "markJobSucceeded ?m st = (newly, st1)" by fastforce
  have started: "stage_inv (jobsForStage ?s (Some p)) (BuildStagePlan (eRangeStage env) ?s (Some p)) st (pub ?s)"
    using stage_ok_started(1) [OF stages_okD [OF ok i(2)] i(1)] st i(3) by simp
  note inv1 = stage_inv_step [OF runnable_plan [OF run] started name mark]
  have log: "log_ok p n info pub (network w)" and info: "rtRunInfo (objects w ! ptr) = info" using base by simp_all
  have s_in: "?s \<in> set (stage_names p)" using i by simp
  have log1: "log_ok p n info (pub(?s := pub ?s @ newly)) (network w @ map (\<lambda>job. buildJobExecutionMessage n (pipelineName p) ?s job info) newly)"
    using stage_invD(3,4) [OF inv1] by (intro log_ok_publish [OF log s_in])
  let ?c = "?N - length (network w) - length newly"
  have "length newly + ?c = ?N - length (network w)" using log_ok_length [OF log1] by simp
  then have pool: "pool_ready (length newly + ?c) (manager w)" and up: "faults (wdb w) = []" using base by simp_all
  from report_released [OF known up on mark env pool] obtain w1 where
    h: "HandleJobFinished env cb w = after_job env cb ptr st1 w1" and f1: "run_frame ptr w w1"
    and g1: "\<And>s. get_stage ptr s w1 = (if s = ?s then Some st1 else get_stage ptr s w)"
    and n1: "network w1 = network w @ map (\<lambda>job. buildJobExecutionMessage n (pipelineName p) ?s job info) newly"
    and d1: "wdb w1 = (wdb w)\<lparr>job_runs := finish_job_rows (eColl env) (pipelineName p) n ?s ?m (clock w) (TrimSpace (cbStatus cb)) (job_runs (wdb w))\<rparr>"
    and p1: "pool_ready ?c (manager w1)"
    unfolding i(4,5) info by metis
  let ?J = "J((?s, ?m) := (TrimSpace (cbStatus cb), True))"
  have "rows_show (eColl env) p n (StatusQueued, False) (done_entry (set (take k (stage_names p)))) ?J (wdb w1)"
    using base runnable_names [OF run] about_key(1) [OF about log] unfolding d1 by (intro rows_show_job) simp_all
  moreover have "?N - length (network w1) = ?c" by (simp add: n1)
  ultimately have "run_base env p n ptr info ?J (pub(?s := pub ?s @ newly)) (set (take k (stage_names p))) w1"
    using base f1 log1 p1 d1 n1 by (simp add: run_base_def run_frame_def getPipelineRuntime_def)
  moreover have "(\<lambda>s. get_stage ptr s w1) = (\<lambda>s. get_stage ptr s w)(?s \<mapsto> st1)" using g1 by (auto simp: fun_eq_iff)
  ultimately show ?thesis by (rule that [OF i name st mark h, rotated])
qed

text \<open>The ends of a run: its last stage is complete, or a job has failed it.\<close>

lemma recordedI:
  assumes "rows_show coll p n (run_entry v) K J db" and "J = rvJobs v" and "\<And>s. s \<in> set (stage_names p) \<Longrightarrow> K s = stage_entry p v s"
  shows "recorded coll p n v db"
  unfolding recorded_def using assms rows_show_cong [OF assms(3), where coll = coll and n = n and v = "run_entry v" and J = J and db = db] by simp

lemma base_last:
  assumes run: "runnable env p n" and base: "run_base env p n ptr info (rvJobs v) pub D w" and "isStageComplete st"
    and "next_after (stage_names p) (cbStage cb) = None" and cb: "cbPipeline cb = pipelineName p" "cbRunNo cb = n"
    and D: "insert (cbStage cb) D = set (stage_names p)" and v: "rvVerdict v = Succeeded" "job_keys p \<subseteq> rvPassed v"
    and order: "in_order p (rvPassed v) pub" and pub: "\<forall>j \<in> set (pipelineJobs p). job_plan j \<in> set (pub (jobStage j))"
  obtains w' where "after_job env cb ptr st w = (Inr (), w')" and "run_over env p n info v pub w'"
proof -
  note base = base [unfolded run_base_def]
  have last: "nextStageName (objects w ! ptr) (cbStage cb) = None" "faults (wdb w) = []"
      "uq_pipeline_runs (eColl env) (pipeline_runs (wdb w))" "inactive_status (eColl env) StatusSuccess"
    using assms(1,4) base by (simp_all add: nextStageName_def runnable_def healthy_def)
  obtain w' where w': "after_job env cb ptr st w = (Inr (), w')" "getPipelineRuntime (pipelineName p) n w' = None"
      "network w' = network w" "wdb w' = (wdb w)\<lparr>stage_runs := finish_stage_rows (eColl env) (pipelineName p) n (cbStage cb)
        (clock w) StatusSuccess (stage_runs (wdb w)),
      pipeline_runs := finish_run_rows (eColl env) (pipelineName p) n (clock w + 1) StatusSuccess (pipeline_runs (wdb w))\<rparr>"
    by (rule after_job_last [OF assms(3) last, unfolded cb])
  have s: "cbStage cb \<in> set (stage_names p)" using D by blast
  from base runnable_names [OF run] have "rows_show (eColl env) p n (StatusQueued, False) (done_entry (set (stage_names p))) (rvJobs v)
      ((wdb w)\<lparr>stage_runs := finish_stage_rows (eColl env) (pipelineName p) n (cbStage cb) (clock w) StatusSuccess (stage_runs (wdb w))\<rparr>)"
    unfolding D [symmetric] done_entry_insert [symmetric] by (intro rows_show_stage s) simp_all
  from rows_show_run [OF this, of StatusSuccess "clock w + 1"]
  have "rows_show (eColl env) p n (run_entry v) (done_entry (set (stage_names p))) (rvJobs v) (wdb w')" by (simp add: w'(4) run_entry_def v(1))
  moreover have "done_entry (set (stage_names p)) s = stage_entry p v s" if "s \<in> set (stage_names p)" for s
    using that v by (auto simp: done_entry_def stage_entry_def jobsForStage_def job_keys_def)
  ultimately have "recorded (eColl env) p n v (wdb w')" by (rule recordedI [OF _ refl])
  moreover have "log_ok p n info pub (network w')" "faults (wdb w') = []" using base by (simp_all add: w'(3,4))
  ultimately have "run_over env p n info v pub w'"
    using w'(2) v(1) order pub by (simp add: run_over_def)
  with w'(1) show ?thesis by (rule that)
qed

lemma base_next:
  assumes "runnable env p n" and base: "run_base env p n ptr info J pub D w" and "isStageComplete st"
    and "next_after (stage_names p) (cbStage cb) = Some nxt" and cb: "cbPipeline cb = pipelineName p" "cbRunNo cb = n"
    and nst: "get_stage ptr nxt w = Some nst" "getReadyJobs nst = (ready, nst1)" and nxt: "nxt \<in> set (stage_names p)"
    and new: "distinct (map jepName (pub nxt @ ready))" "set (pub nxt @ ready) \<subseteq> job_plan ` set (jobsForStage nxt (Some p))"
    and D: "cbStage cb \<in> set (stage_names p)" "D' = (if isStageComplete nst1 then {cbStage cb, nxt} else {cbStage cb}) \<union> D"
  obtains w' where "after_job env cb ptr st w = (Inr (), w')" and "run_base env p n ptr info J (pub(nxt := pub nxt @ ready)) D' w'"
    and "(\<lambda>s. get_stage ptr s w') = (\<lambda>s. get_stage ptr s w)(nxt \<mapsto> nst1)"
proof -
  note base = base [unfolded run_base_def]
  let ?N = "length (pipelineJobs p)" and ?new = "map (\<lambda>job. buildJobExecutionMessage n (pipelineName p) nxt job info) ready"
  have env: "delivers env (\<lambda>msg sent. sent @ [msg])" using assms(1) by (simp add: runnable_def healthy_def)
  have log: "log_ok p n info (pub(nxt := pub nxt @ ready)) (network w @ ?new)" using base by (intro log_ok_publish nxt new) simp
  let ?c = "?N - length (network w) - length ready"
  have "length ready + ?c = ?N - length (network w)" using log_ok_length [OF log] by simp
  then have pool: "pool_ready (length ready + ?c) (manager w)" using base by simp
  have next_name: "nextStageName (objects w ! ptr) (cbStage cb) = Some nxt" and ptr: "ptr < length (objects w)" and up: "faults (wdb w) = []"
    and info: "rtRunInfo (objects w ! ptr) = info"
    using assms(4) base by (simp_all add: nextStageName_def)
  obtain w' ts where w': "after_job env cb ptr st w = (Inr (), w')" "run_frame ptr w w'"
      "\<And>s. get_stage ptr s w' = (if s = nxt then Some nst1 else get_stage ptr s w)" "network w' = network w @ ?new" "pool_ready ?c (manager w')"
      "wdb w' = (wdb w)\<lparr>stage_runs := fold (\<lambda>(s, t). finish_stage_rows (eColl env) (pipelineName p) n s t StatusSuccess) ts (stage_runs (wdb w))\<rparr>"
      "fst ` set ts = (if isStageComplete nst1 then {cbStage cb, nxt} else {cbStage cb})"
    using after_job_next [OF assms(3) next_name ptr nst up env pool] unfolding cb info by metis
  have "fst ` set ts \<subseteq> set (stage_names p)" using nxt D(1) by (simp add: w'(7))
  then have "rows_show (eColl env) p n (StatusQueued, False) (done_entry (fst ` set ts \<union> D)) J (wdb w')"
    using base runnable_names [OF assms(1)] unfolding w'(6) by (intro rows_show_stages) simp_all
  moreover have "?N - length (network w') = ?c" by (simp add: w'(4))
  ultimately have "run_base env p n ptr info J (pub(nxt := pub nxt @ ready)) D' w'"
    using base w'(2,4,5,6) log by (simp add: run_base_def run_frame_def getPipelineRuntime_def D(2) w'(7))
  moreover have "(\<lambda>s. get_stage ptr s w') = (\<lambda>s. get_stage ptr s w)(nxt \<mapsto> nst1)" using w'(3) by (auto simp: fun_eq_iff)
  ultimately show ?thesis by (rule that [OF w'(1)])
qed

lemma stages_all_done:
  assumes run: "runnable env p n" and ok: "stages_ok env p R pub k g" and i: "i < k" and j: "j \<in> set (jobsForStage (stage_names p ! i) (Some p))"
  shows "(stage_names p ! i, jobName j) \<in> R" and "job_plan j \<in> set (pub (stage_names p ! i))"
proof -
  have len: "i < length (stage_names p)" using ok i by (simp add: stages_ok_def)
  obtain st where st: "stage_ok env p R pub k i st" using ok len by (auto simp: stages_ok_def)
  note started = stage_ok_started [OF st less_imp_le [OF i]]
  from stage_all_published [OF runnable_plan [OF run] started(1) _ j] started(2,3) i
  show "(stage_names p ! i, jobName j) \<in> R" "job_plan j \<in> set (pub (stage_names p ! i))" by simp_all
qed

lemma report_last:
  assumes run: "runnable env p n" and ok: "stages_ok env p R pub k g" and last: "Suc k = length (stage_names p)"
    and s: "s = stage_names p ! k" and st: "g s = Some st" and name: "name \<in> jepName ` set (pub s)"
    and mark: "markJobSucceeded name st = (newly, st1)" and full: "isStageComplete st1" and j: "j \<in> set (pipelineJobs p)"
  shows "(jobStage j, jobName j) \<in> insert (s, name) R \<and> job_plan j \<in> set ((pub(s := pub s @ newly)) (jobStage j))"
proof -
  have "jobStage j \<in> set (stage_names p)" using run j by (auto simp: runnable_def healthy_def wf_pipeline_def stage_names_def)
  then obtain i where i: "i < length (stage_names p)" "jobStage j = stage_names p ! i" by (metis in_set_conv_nth)
  have j': "j \<in> set (jobsForStage (jobStage j) (Some p))" using j by (simp add: jobsForStage_def)
  show ?thesis
  proof (cases "i = k")
    case True
    then have js: "jobStage j = s" using i s by simp
    have k: "k < length (stage_names p)" using ok by (simp add: stages_ok_def)
    have "stage_ok env p R pub k k st" using stages_okD [OF ok k] st s by simp
    note started = stage_ok_started [OF this order.refl, folded s]
    note inv1 = stage_inv_step [OF runnable_plan [OF run] started(1) name mark]
    have "set (keys (completed st1)) = insert name (set (keys (completed st)))"
      by (rule completed_mark [OF runnable_plan [OF run] started(1) name mark])
    with stage_all_published [OF runnable_plan [OF run] inv1 full j' [unfolded js]] started(2) js show ?thesis by auto
  next
    case False
    then have "i < k" using i(1) last by simp
    from stages_all_done [OF run ok this j' [unfolded i(2)]] show ?thesis by (auto simp: i(2))
  qed
qed

text \<open>What the stages say about the jobs that passed: the stage that runs is open, the stages before it are done, and the
  published jobs are in order.\<close>

lemma stages_ok_open:
  assumes run: "runnable env p n" and ok: "stages_ok env p R pub k g"
  obtains j where "j \<in> set (jobsForStage (stage_names p ! k) (Some p))" and "job_plan j \<in> set (pub (stage_names p ! k))"
    and "(stage_names p ! k, jobName j) \<notin> R"
proof -
  have k: "k < length (stage_names p)" using ok by (simp add: stages_ok_def)
  obtain st where st: "stage_ok env p R pub k k st" using ok k by (auto simp: stages_ok_def)
  let ?s = "stage_names p ! k"
  note started = stage_ok_started [OF st order.refl]
  have "\<not> jobName ` set (jobsForStage ?s (Some p)) \<subseteq> set (keys (completed st))"
  proof
    assume "jobName ` set (jobsForStage ?s (Some p)) \<subseteq> set (keys (completed st))"
    moreover have "jepName ` set (pub ?s) \<subseteq> jobName ` set (jobsForStage ?s (Some p))" using stage_invD(3) [OF started(1)] by fastforce
    ultimately have "set (keys (completed st)) = jobName ` set (jobsForStage ?s (Some p))"
      using order.trans [OF stage_invD(2) [OF started(1)]] by (intro equalityI)
    with started(3) show False using stage_inv_complete [OF runnable_plan [OF run] started(1)] by simp
  qed
  from stage_inv_progress [OF runnable_plan [OF run] started(1) this] started(2)
  obtain job where job: "job \<in> set (pub ?s)" "(?s, jepName job) \<notin> R" by blast
  obtain j where "j \<in> set (jobsForStage ?s (Some p))" "job = job_plan j" using stage_invD(3) [OF started(1)] job(1) by blast
  with job show ?thesis by (intro that) auto
qed

lemma stages_ok_done:
  assumes run: "runnable env p n" and ok: "stages_ok env p R pub k g" and s: "s \<in> set (stage_names p)"
  shows "s \<in> set (take k (stage_names p)) \<longleftrightarrow> (\<forall>j \<in> set (jobsForStage s (Some p)). (s, jobName j) \<in> R)"
proof -
  obtain i where i: "i < length (stage_names p)" "s = stage_names p ! i" using s by (metis in_set_conv_nth)
  have "s \<in> set (take k (stage_names p)) \<longleftrightarrow> i < k"
    using runnable_stages(1) [OF run] i by (auto simp: in_set_conv_nth nth_eq_iff_index_eq)
  moreover have "\<exists>j \<in> set (jobsForStage s (Some p)). (s, jobName j) \<notin> R" if "i = k"
    using stages_ok_open [OF run ok] that i(2) by metis
  moreover have "\<exists>j \<in> set (jobsForStage s (Some p)). (s, jobName j) \<notin> R" if "k < i"
  proof -
    obtain st where "stage_ok env p R pub k i st" using ok i by (auto simp: stages_ok_def)
    then have "\<And>m. (s, m) \<notin> R" using that i(2) by (simp add: stage_ok_def Let_def)
    then show ?thesis using runnable_stages(2) [OF run s] by (cases "jobsForStage s (Some p)") auto
  qed
  moreover have "\<forall>j \<in> set (jobsForStage s (Some p)). (s, jobName j) \<in> R" if "i < k"
    using stages_all_done(1) [OF run ok that] i(2) by blast
  ultimately show ?thesis by (meson linorder_neqE_nat)
qed

lemma stages_ok_order:
  assumes run: "runnable env p n" and ok: "stages_ok env p R pub k g"
  shows "in_order p R pub"
  unfolding in_order_def waits_over_def
proof (intro ballI impI conjI)
  fix j assume j: "j \<in> set (pipelineJobs p)" and job: "job_plan j \<in> set (pub (jobStage j))"
  have "jobStage j \<in> set (stage_names p)" using run j by (auto simp: runnable_def healthy_def wf_pipeline_def stage_names_def)
  then obtain i where i: "i < length (stage_names p)" "jobStage j = stage_names p ! i" by (metis in_set_conv_nth)
  then obtain st where st: "stage_ok env p R pub k i st" using ok by (auto simp: stages_ok_def)
  have ik: "i \<le> k" using st job i(2) by (cases "i \<le> k") (auto simp: stage_ok_def Let_def)
  note started = stage_ok_started [OF st ik, folded i(2)]
  have "jobName j \<in> jepName ` set (pub (jobStage j))" using job by force
  moreover have "j \<in> set (jobsForStage (jobStage j) (Some p))" using j by (simp add: jobsForStage_def)
  ultimately have "open_needs (set (keys (completed st))) j = 0" using started(1) by (simp add: stage_inv_def)
  then show "(jobStage j, m) \<in> R" if "m \<in> set (jobNeeds j)" for m using started(2) that by (auto simp: open_needs_0)
  fix j' assume j': "j' \<in> set (pipelineJobs p)" "stage_before p (jobStage j') (jobStage j)"
  then obtain a b where "a < b" "b < length (stage_names p)" "stage_names p ! a = jobStage j'" "stage_names p ! b = jobStage j"
    by (auto simp: stage_before_def)
  moreover from this have "b = i" using runnable_stages(1) [OF run] i by (simp add: nth_eq_iff_index_eq)
  ultimately have "a < k" "stage_names p ! a = jobStage j'" using ik by simp_all
  with stages_all_done(1) [OF run ok, of a j'] j'(1) show "(jobStage j', jobName j') \<in> R" by (simp add: jobsForStage_def)
qed

lemma all_in_order:
  assumes run: "runnable env p n" and all: "job_keys p \<subseteq> R"
  shows "in_order p R pub"
  unfolding in_order_def waits_over_def
proof (intro ballI impI conjI)
  fix j m assume "j \<in> set (pipelineJobs p)" "m \<in> set (jobNeeds j)"
  then obtain k where "k \<in> set (pipelineJobs p)" "jobName k = m" "jobStage k = jobStage j"
    using run by (fastforce simp: runnable_def healthy_def wf_pipeline_def)
  with all show "(jobStage j, m) \<in> R" by (force simp: job_keys_def)
qed (use all in \<open>auto simp: job_keys_def\<close>)

lemma live_after:
  assumes "runnable env p n" and "run_live env p n ptr info (rvPassed v) (rvJobs v) pub k w"
    and "rvVerdict v = (if job_keys p \<subseteq> rvPassed v then Succeeded else Going)"
  shows "run_after env p n ptr info v w"
proof -
  have "stages_ok env p (rvPassed v) pub k (\<lambda>s. get_stage ptr s w)" using assms(2) by (simp add: run_live_def)
  from stages_ok_open [OF assms(1) this] obtain j where "j \<in> set (jobsForStage (stage_names p ! k) (Some p))" "(stage_names p ! k, jobName j) \<notin> rvPassed v"
    by blast
  then have "\<not> job_keys p \<subseteq> rvPassed v" by (auto simp: job_keys_def jobsForStage_def)
  with assms(2,3) show ?thesis by (auto simp: run_after_def)
qed

text \<open>The failure of a job that may not fail ends the run, whatever its stage.\<close>

lemma finish_in_stage_fails:
  assumes "known_job cb StatusFailed ptr st w" and "faults (wdb w) = []" and "uq_pipeline_runs (eColl env) (pipeline_runs (wdb w))"
    and "\<not> allowFailures (map_get zero_config (jobConfigs st) (cbJob cb))" and "inactive_status (eColl env) StatusFailed"
  obtains w' where "HandleJobFinished env cb w = (Inr (), w')" and "getPipelineRuntime (cbPipeline cb) (cbRunNo cb) w' = None"
    and "network w' = network w"
    and "wdb w' = (wdb w)\<lparr>job_runs := finish_job_rows (eColl env) (cbPipeline cb) (cbRunNo cb) (cbStage cb) (cbJob cb)
        (clock w) StatusFailed (job_runs (wdb w)),
      stage_runs := finish_stage_rows (eColl env) (cbPipeline cb) (cbRunNo cb) (cbStage cb) (clock w + 1) StatusFailed (stage_runs (wdb w)),
      pipeline_runs := finish_run_rows (eColl env) (cbPipeline cb) (cbRunNo cb) (clock w + 2) StatusFailed (pipeline_runs (wdb w))\<rparr>"
proof -
  let ?jobs = "finish_job_rows (eColl env) (cbPipeline cb) (cbRunNo cb) (cbStage cb) (cbJob cb) (clock w) StatusFailed (job_runs (wdb w))"
  let ?w1 = "set_stage ptr (cbStage cb) (markJobTerminal (cbJob cb) st) (w\<lparr>clock := clock w + 1, wdb := (wdb w)\<lparr>job_runs := ?jobs\<rparr>\<rparr>)"
  let ?w = "?w1\<lparr>clock := clock w + 3, wdb := (wdb w)\<lparr>job_runs := ?jobs,
      stage_runs := finish_stage_rows (eColl env) (cbPipeline cb) (cbRunNo cb) (cbStage cb) (clock w + 1) StatusFailed (stage_runs (wdb w)),
      pipeline_runs := finish_run_rows (eColl env) (cbPipeline cb) (cbRunNo cb) (clock w + 2) StatusFailed (pipeline_runs (wdb w))\<rparr>\<rparr>"
  have "HandleJobFinished env cb w = (Inr (), deleteRuntime (cbPipeline cb) (cbRunNo cb) ?w)"
    unfolding HandleJobFinished_known [OF assms(1,2)] finish_in_stage_def Let_def
    using assms(2-5)
    by (simp add: andthen_Inr [OF finishStage_ok] andthen_Inr [OF finishPipelineRun_ok] forget_runtime_def)
      (simp add: add.commute)
  then show ?thesis by (rule that) simp_all
qed

lemma report_fails:
  assumes run: "runnable env p n" and live: "run_live env p n ptr info (rvPassed v) (rvJobs v) pub k w" and about: "about_message (network w) cb"
    and failed: "TrimSpace (cbStatus cb) = StatusFailed" "\<not> may_fail p (cbJob cb)" and going: "rvVerdict v = Going"
  obtains w' where "HandleJobFinished env cb w = (Inr (), w')" and "run_over env p n info (run_step p (JobFinished cb) v) pub w'"
    and "network w' = network w"
proof -
  let ?s = "cbStage cb" and ?coll = "eColl env" and ?v = "run_step p (JobFinished cb) v"
  let ?J = "(rvJobs v)((?s, cbJob cb) := (StatusFailed, True))" and ?D = "set (take k (stage_names p))"
  have status: "finished_status cb" using failed(1) by (simp add: finished_status_def)
  obtain st where known: "known_job cb StatusFailed ptr st w" "\<not> allowFailures (map_get zero_config (jobConfigs st) (cbJob cb))"
    using report_known [OF run live about status] failed by metis
  note base = live [unfolded run_live_def run_base_def]
  have ok: "stages_ok env p (rvPassed v) pub k (\<lambda>s. get_stage ptr s w)" and log: "log_ok p n info pub (network w)"
    and up: "faults (wdb w) = []" and uq: "uq_pipeline_runs ?coll (pipeline_runs (wdb w))"
    and rows: "rows_show ?coll p n (StatusQueued, False) (done_entry ?D) (rvJobs v) (wdb w)" using base by simp_all
  have inactive: "inactive_status ?coll StatusFailed" using run by (simp add: runnable_def healthy_def)
  note key = about_key [OF about log]
  obtain w' where w': "HandleJobFinished env cb w = (Inr (), w')" "getPipelineRuntime (pipelineName p) n w' = None" "network w' = network w"
    "wdb w' = (wdb w)\<lparr>job_runs := finish_job_rows ?coll (pipelineName p) n ?s (cbJob cb) (clock w) StatusFailed (job_runs (wdb w)),
      stage_runs := finish_stage_rows ?coll (pipelineName p) n ?s (clock w + 1) StatusFailed (stage_runs (wdb w)),
      pipeline_runs := finish_run_rows ?coll (pipelineName p) n (clock w + 2) StatusFailed (pipeline_runs (wdb w))\<rparr>"
    by (rule finish_in_stage_fails [OF known(1) up uq known(2) inactive, unfolded key(3,4)])
  have v: "rvVerdict ?v = Failed ?s" "rvPassed ?v = rvPassed v" "rvJobs ?v = ?J"
    using status failed going by (simp_all add: judge_def)
  have names: "names_apart ?coll p" "wf_pipeline p" using runnable_names [OF run] by simp_all
  from rows_show_run [OF rows_show_stage [OF names(1) key(2) rows_show_job [OF names key(1) rows], of StatusFailed StatusFailed "clock w + 1" "clock w"], of StatusFailed "clock w + 2"]
  have "rows_show ?coll p n (run_entry ?v) ((done_entry ?D)(?s := (StatusFailed, True))) ?J (wdb w')"
    unfolding w'(4) by (simp add: run_entry_def v(1) del: run_step.simps)
  moreover have "((done_entry ?D)(?s := (StatusFailed, True))) s = stage_entry p ?v s" if "s \<in> set (stage_names p)" for s
    unfolding stage_entry_def v using stages_ok_done [OF run ok that] by (simp add: done_entry_def)
  ultimately have "recorded ?coll p n ?v (wdb w')" by (rule recordedI [OF _ v(3) [symmetric]])
  then have "run_over env p n info ?v pub w'"
    unfolding run_over_def v(1,2) using w'(2-4) up log stages_ok_order [OF run ok] by simp
  then show ?thesis by (rule that [OF w'(1) _ w'(3)])
qed

lemma report_live:
  assumes run: "runnable env p n" and live: "run_live env p n ptr info (rvPassed v) (rvJobs v) pub k w" and about: "about_message (network w) cb"
    and pass: "passes p cb" and going: "rvVerdict v = Going"
  obtains w' where "HandleJobFinished env cb w = (Inr (), w')" and "run_after env p n ptr info (run_step p (JobFinished cb) v) w'"
proof -
  define R J v' where "R = rvPassed v" and "J = (rvJobs v)((cbStage cb, cbJob cb) := (TrimSpace (cbStatus cb), True))" and "v' = run_step p (JobFinished cb) v"
  let ?names = "stage_names p" and ?s = "cbStage cb" and ?g = "\<lambda>s. get_stage ptr s w"
  let ?R = "insert (?s, cbJob cb) R"
  obtain i st newly st1 w1 where i: "i \<le> k" "i < length ?names" "?s = ?names ! i" and cb: "cbPipeline cb = pipelineName p" "cbRunNo cb = n"
      and name: "cbJob cb \<in> jepName ` set (pub ?s)" and st: "?g ?s = Some st" and mark: "markJobSucceeded (cbJob cb) st = (newly, st1)"
      and h: "HandleJobFinished env cb w = after_job env cb ptr st1 w1" and g1: "(\<lambda>s. get_stage ptr s w1) = ?g(?s \<mapsto> st1)"
      and base1: "run_base env p n ptr info J (pub(?s := pub ?s @ newly)) (set (take k ?names)) w1"
    unfolding J_def by (rule report_first_step [OF run live about pass])
  have v': "rvPassed v' = ?R" "rvJobs v' = J" "rvVerdict v' = (if job_keys p \<subseteq> ?R then Succeeded else Going)"
    using pass going by (auto simp: v'_def R_def J_def passes_def judge_def Let_def)
  have ok: "stages_ok env p R pub k ?g" using live by (simp add: run_live_def R_def)
  have k: "k < length ?names" using ok by (simp add: stages_ok_def)
  note dist = runnable_stages(1) [OF run]
  have nxt: "next_after ?names ?s = (if Suc i < length ?names then Some (?names ! Suc i) else None)"
    unfolding i(3) by (rule next_after_nth [OF dist i(2)])
  consider (open_stage) "\<not> isStageComplete st1" | (repeat_report) "isStageComplete st1" "i < k"
    | (advance) "isStageComplete st1" "i = k" "Suc k < length ?names" | (ends) "isStageComplete st1" "i = k" "Suc k = length ?names"
    using i(1) k by linarith
  then show ?thesis
  proof cases
    case open_stage
    have "i = k" using stages_ok_repeat(1,2) [OF run ok _ i(3) st name] mark open_stage i(1) by fastforce
    with i(3) have s: "?s = ?names ! k" by simp
    have "run_live env p n ptr info ?R J (pub(?s := pub ?s @ newly)) k w1"
      unfolding run_live_def g1 using stages_ok_release(1) [OF run ok s st name mark open_stage] base1 by simp
    from live_after [OF run this [folded v'(1,2)] v'(3) [folded v'(1)]] show ?thesis
      using that h after_job_incomplete [OF open_stage, of env cb ptr w1] unfolding v'_def by metis
  next
    case ends
    have s: "?s = ?names ! k" using ends(2) i(3) by simp
    have "next_after ?names ?s = None" using nxt ends(2,3) by simp
    moreover have "insert ?s (set (take k ?names)) = set ?names"
      using ends(3) by (metis s k list.set(2) rev.simps set_rev take_Suc_conv_app_nth take_all_iff order.refl Un_insert_right set_append sup_bot_right list.set(1))
    moreover note all = report_last [OF run ok ends(3) s st name mark ends(1)]
    then have keys: "job_keys p \<subseteq> rvPassed v'" by (auto simp: job_keys_def v'(1))
    moreover from keys have "rvVerdict v' = Succeeded" using v'(1,3) by simp
    ultimately obtain w' where "after_job env cb ptr st1 w1 = (Inr (), w')" "run_over env p n info v' (pub(?s := pub ?s @ newly)) w'"
      using base_last [OF run base1 [folded v'(2)] ends(1) _ cb _ _ _ all_in_order [OF run keys]] all by metis
    then show ?thesis using that h unfolding v'_def by (auto simp: run_after_def simp del: run_step.simps)
  next
    case advance
    have s: "?s = ?names ! k" using advance(2) i(3) by simp
    let ?n = "?names ! Suc k"
    have ne: "?n \<noteq> ?s" using dist k advance(3) by (simp add: s nth_eq_iff_index_eq)
    obtain nst where nst: "?g ?n = Some nst" using ok advance(3) by (auto simp: stages_ok_def)
    obtain ready nst1 where ready: "getReadyJobs nst = (ready, nst1)" by fastforce
    note adv = stages_ok_advance [OF run ok s st name mark advance(1,3) refl nst ready]
    have "newly = []"
      by (rule stages_ok_newly [OF run ok s st name mark advance(1)])
    then have base1: "run_base env p n ptr info J pub (set (take k ?names)) w1" using base1 by simp
    have w1n: "get_stage ptr ?n w1 = Some nst" using fun_cong [OF g1, of ?n] nst ne by simp
    have new: "distinct (map jepName (pub ?n @ ready))" "set (pub ?n @ ready) \<subseteq> job_plan ` set (jobsForStage ?n (Some p))"
      using stage_invD(3,4) [OF adv(2)] adv(4) by simp_all
    have s_in: "?s \<in> set ?names" using k by (simp add: s)
    have K: "set (take (Suc k) ?names) = (if isStageComplete nst1 then {?s, ?n} else {?s}) \<union> set (take k ?names)"
      using adv(3) by (simp add: take_Suc_conv_app_nth [OF k] s)
    have nx: "next_after ?names ?s = Some ?n" "?n \<in> set ?names" using nxt advance by simp_all
    obtain w' where w': "after_job env cb ptr st1 w1 = (Inr (), w')"
        "run_base env p n ptr info J (pub(?n := pub ?n @ ready)) (set (take (Suc k) ?names)) w'"
        "(\<lambda>s. get_stage ptr s w') = (\<lambda>s. get_stage ptr s w1)(?n \<mapsto> nst1)"
      by (rule base_next [OF run base1 advance(1) nx(1) cb w1n ready nx(2) new s_in K])
    have "run_live env p n ptr info ?R J (pub(?n := ready)) (Suc k) w'"
      unfolding run_live_def w'(3) g1 using adv(1) w'(2) adv(4) by simp
    from live_after [OF run this [folded v'(1,2)] v'(3) [folded v'(1)]] show ?thesis using that h w'(1) unfolding v'_def by (simp del: run_step.simps)
  next
    case repeat_report
    note rr = stages_ok_repeat [OF run ok repeat_report(2) i(3) st name]
    have same: "newly = []" "st1 = st" "?R = R" using rr mark by auto
    let ?n = "?names ! Suc i"
    have si: "Suc i < length ?names" "Suc i \<le> k" using repeat_report(2) k by simp_all
    obtain nst where nst: "?g ?n = Some nst" using ok si(1) by (auto simp: stages_ok_def)
    note again = stages_ok_ready_again [OF run ok si(2) nst]
    have g1: "(\<lambda>s. get_stage ptr s w1) = ?g" using g1 st same(2) by (auto simp: fun_eq_iff)
    have base1: "run_base env p n ptr info J pub (set (take k ?names)) w1" using base1 same by simp
    have w1n: "get_stage ptr ?n w1 = Some nst" using fun_cong [OF g1, of ?n] nst by simp
    have new: "distinct (map jepName (pub ?n @ []))" "set (pub ?n @ []) \<subseteq> job_plan ` set (jobsForStage ?n (Some p))"
      using stage_invD(3,4) [OF stage_ok_started(1) [OF stages_okD [OF ok si(1) nst] si(2)]] by simp_all
    have K: "set (take k ?names) = (if isStageComplete nst then {?s, ?n} else {?s}) \<union> set (take k ?names)"
      using again(2) nth_in_take [OF repeat_report(2) k] nth_in_take [of "Suc i" k ?names] k i(3) by auto
    have nx: "next_after ?names ?s = Some ?n" "?n \<in> set ?names" using nxt si by simp_all
    have s_in: "?s \<in> set ?names" using i by simp
    have full: "isStageComplete st" by (rule rr(2))
    obtain w' where w': "after_job env cb ptr st w1 = (Inr (), w')" "run_base env p n ptr info J (pub(?n := pub ?n @ [])) (set (take k ?names)) w'"
        "(\<lambda>s. get_stage ptr s w') = (\<lambda>s. get_stage ptr s w1)(?n \<mapsto> nst)"
      by (rule base_next [OF run base1 full nx(1) cb w1n again(1) nx(2) new s_in K])
    have "(\<lambda>s. get_stage ptr s w') = ?g" unfolding w'(3) g1 using nst by (auto simp: fun_eq_iff)
    then have "run_live env p n ptr info ?R J pub k w'" using w'(2) ok same(3) by (simp add: run_live_def)
    from live_after [OF run this [folded v'(1,2)] v'(3) [folded v'(1)]] show ?thesis using that h w'(1) same unfolding v'_def by (simp del: run_step.simps)
  qed
qed

text \<open>Reports after the end, and the start of a job at any time, only touch job rows and start times.\<close>

lemma about_fields:
  assumes "runnable env p n" and "about_message net cb" and "log_ok p n info pub net"
  shows "\<not> missing_fields cb"
proof -
  obtain job j where "cbStage cb \<in> set (stage_names p)" "cbJob cb = jepName job" "cbPipeline cb = pipelineName p" "cbRunNo cb = n"
      "j \<in> set (jobsForStage (cbStage cb) (Some p))" "job = job_plan j"
    by (rule about_log [OF assms(2,3)])
  then show ?thesis using assms(1) by (simp add: runnable_def healthy_def missing_fields_def jobsForStage_def)
qed

lemma over_publishes_nothing:
  assumes run: "runnable env p n" and over: "run_over env p n info v pub w" and about: "about_message (network w) cb"
  shows "if finished_status cb then fst (HandleJobFinished env cb w) = Inr () else HandleJobFinished env cb w = (Inl (Errorf (''invalid finished status '' @ quoted (cbStatus cb))), w)"
    and "network (snd (HandleJobFinished env cb w)) = network w"
    and "run_over env p n info (run_step p (JobFinished cb) v) pub (snd (HandleJobFinished env cb w))"
proof -
  let ?s = "cbStage cb" and ?status = "TrimSpace (cbStatus cb)"
  have log: "log_ok p n info pub (network w)" and up: "faults (wdb w) = []" and out: "getPipelineRuntime (pipelineName p) n w = None"
    using over by (simp_all add: run_over_def)
  note key = about_key [OF about log]
  have ok: "\<not> missing_fields cb" by (rule about_fields [OF run about log])
  let ?d = "(wdb w)\<lparr>job_runs := finish_job_rows (eColl env) (pipelineName p) n ?s (cbJob cb) (clock w) ?status (job_runs (wdb w))\<rparr>"
  let ?J = "(rvJobs v)((?s, cbJob cb) := (?status, True))"
  have h: "HandleJobFinished env cb w = (if finished_status cb then (Inr (), w\<lparr>clock := clock w + 1, wdb := ?d\<rparr>)
      else (Inl (Errorf (''invalid finished status '' @ quoted (cbStatus cb))), w))"
    using ok out finishJob_ok [OF up, of env "pipelineName p" n ?s "cbJob cb" ?status]
    by (auto simp: HandleJobFinished_def key(3,4) andthen_def getPipelineRuntime_def finished_status_def fail_def)
  show "if finished_status cb then fst (HandleJobFinished env cb w) = Inr () else HandleJobFinished env cb w = (Inl (Errorf (''invalid finished status '' @ quoted (cbStatus cb))), w)"
    "network (snd (HandleJobFinished env cb w)) = network w" by (simp_all add: h)
  have "rows_show (eColl env) p n (run_entry v) (stage_entry p v) ?J ?d"
    using over runnable_names [OF run] key(1) by (intro rows_show_job) (simp_all add: run_over_def recorded_def)
  then show "run_over env p n info (run_step p (JobFinished cb) v) pub (snd (HandleJobFinished env cb w))"
    using over by (simp add: h run_over_def recorded_def Let_def getPipelineRuntime_def)
qed

lemma HandleJobStarted_effect:
  assumes "\<not> missing_fields cb" and "faults (wdb w) = []"
  obtains w' where "HandleJobStarted env cb w = (Inr (), w')" and "network w' = network w" and "manager w' = manager w"
    and "runtimes w' = runtimes w" and "length (objects w') = length (objects w)"
    and "\<And>ptr s. get_stage ptr s w' = get_stage ptr s w" and "\<And>ptr. run_frame ptr w w'"
    and "wdb w' = (wdb w)\<lparr>job_runs := running_job_rows (eColl env) (cbPipeline cb) (cbRunNo cb) (cbStage cb) (cbJob cb) (job_runs (wdb w))\<rparr>"
proof -
  let ?w = "w\<lparr>wdb := (wdb w)\<lparr>job_runs := running_job_rows (eColl env) (cbPipeline cb) (cbRunNo cb) (cbStage cb) (cbJob cb) (job_runs (wdb w))\<rparr>\<rparr>"
  have mark: "markJobRunning env (cbPipeline cb) (cbRunNo cb) (cbStage cb) (cbJob cb) w = (Inr (), ?w)"
    using assms(2) by (simp add: markJobRunning_def with_db_def UpdateJob_def sql_update_job_def running_job_rows_def)
  let ?start = "\<lambda>ptr. (update_object ptr (\<lambda>rt. rt\<lparr>jobStartTimes := map_set (cbStage cb, cbJob cb) (clock w) (jobStartTimes rt)\<rparr>) (?w\<lparr>clock := clock w + 1\<rparr>))"
  have h: "HandleJobStarted env cb w = (Inr (), case getPipelineRuntime (cbPipeline cb) (cbRunNo cb) w of None \<Rightarrow> ?w | Some ptr \<Rightarrow> ?start ptr)"
    using assms(1) by (simp add: HandleJobStarted_def andthen_def mark noteJobStarted_def getPipelineRuntime_def time_Now_def split: option.split)
  have obj: "stageStates (objects (?start q) ! ptr) = stageStates (objects w ! ptr)" "stageOrder (objects (?start q) ! ptr) = stageOrder (objects w ! ptr)"
      "rtRunInfo (objects (?start q) ! ptr) = rtRunInfo (objects w ! ptr)" for q ptr
    by (cases "q < length (objects w)"; cases "q = ptr"; simp add: update_object_def list_update_beyond)+
  show ?thesis
    by (rule that [OF h]; cases "getPipelineRuntime (cbPipeline cb) (cbRunNo cb) w")
      (auto simp: get_stage_def run_frame_def obj [unfolded update_object_def, simplified] update_object_def)
qed

end
