(* ===== verification/Run_To_End.thy ===== *)
theory Run_To_End
  imports Run_Reports
begin

text \<open>
  A whole run, from the request to its end: the histories of callbacks that a run can have after
  \<open>Service.Run\<close> and its first dispatch, the order in which jobs are published in all of them, and
  that the orchestrator, its memory and its database follow the automaton \<open>run_step\<close> of what the callbacks mean.
\<close>

lemma started_live:
  assumes run: "runnable env p n" and live: "run_live env p n ptr info R J pub k w" and about: "about_message (network w) cb"
  shows "\<exists>w'. HandleJobStarted env cb w = (Inr (), w')
    \<and> run_live env p n ptr info R (J((cbStage cb, cbJob cb) := (StatusRunning, snd (J (cbStage cb, cbJob cb))))) pub k w'"
proof -
  note base = live [unfolded run_live_def run_base_def]
  have log: "log_ok p n info pub (network w)" using base by simp
  note key = about_key [OF about log]
  have "\<not> missing_fields cb" "faults (wdb w) = []" using about_fields [OF run about log] base by blast+
  then obtain w' where w': "HandleJobStarted env cb w = (Inr (), w')" "network w' = network w" "manager w' = manager w"
      "runtimes w' = runtimes w" "length (objects w') = length (objects w)" "\<And>ptr s. get_stage ptr s w' = get_stage ptr s w"
      "\<And>ptr. run_frame ptr w w'" "wdb w' = (wdb w)\<lparr>job_runs := running_job_rows (eColl env) (pipelineName p) n (cbStage cb) (cbJob cb) (job_runs (wdb w))\<rparr>"
    unfolding key(3,4) [symmetric] by (rule HandleJobStarted_effect) blast
  have "rows_show (eColl env) p n (StatusQueued, False) (done_entry (set (take k (stage_names p))))
      (J((cbStage cb, cbJob cb) := (StatusRunning, snd (J (cbStage cb, cbJob cb))))) (wdb w')"
    unfolding w'(8) using base runnable_names [OF run] key(1) by (intro rows_show_running) simp_all
  with base w'(2-8) have "run_live env p n ptr info R (J((cbStage cb, cbJob cb) := (StatusRunning, snd (J (cbStage cb, cbJob cb))))) pub k w'"
    by (simp add: run_live_def run_base_def run_frame_def getPipelineRuntime_def)
  with w'(1) show ?thesis by blast
qed

lemma started_over:
  assumes run: "runnable env p n" and over: "run_over env p n info v pub w" and about: "about_message (network w) cb"
  shows "\<exists>w'. HandleJobStarted env cb w = (Inr (), w') \<and> run_over env p n info (run_step p (JobStarted cb) v) pub w' \<and> network w' = network w"
proof -
  have log: "log_ok p n info pub (network w)" and rows: "rows_show (eColl env) p n (run_entry v) (stage_entry p v) (rvJobs v) (wdb w)"
    using over by (simp_all add: run_over_def recorded_def)
  note key = about_key [OF about log]
  have "\<not> missing_fields cb" "faults (wdb w) = []" using about_fields [OF run about log] over by (simp_all add: run_over_def)
  then obtain w' where w': "HandleJobStarted env cb w = (Inr (), w')" "network w' = network w" "runtimes w' = runtimes w"
      "wdb w' = (wdb w)\<lparr>job_runs := running_job_rows (eColl env) (pipelineName p) n (cbStage cb) (cbJob cb) (job_runs (wdb w))\<rparr>"
    unfolding key(3,4) [symmetric] by (rule HandleJobStarted_effect) blast
  have "recorded (eColl env) p n (run_step p (JobStarted cb) v) (wdb w')"
    unfolding recorded_def w'(4) using runnable_names [OF run] rows_show_running [OF _ _ key(1) rows] by simp
  with over w'(2-4) have "run_over env p n info (run_step p (JobStarted cb) v) pub w'"
    by (simp add: run_over_def getPipelineRuntime_def)
  with w'(1,2) show ?thesis by blast
qed

section \<open>Histories of a run\<close>

text \<open>The callbacks of one run, in any order the workers produce them: a job may be reported as started or
  as finished, with any status, once its message has been published, and every callback may be repeated and late.\<close>

fun callback_of :: "run_event \<Rightarrow> JobStatusCallbackRequest" where
  "callback_of (JobStarted cb) = cb"
| "callback_of (JobFinished cb) = cb"

fun handle_event :: "('p, 'n) env \<Rightarrow> run_event \<Rightarrow> ('p, 'n, unit) handler" where
  "handle_event env (JobStarted cb) = HandleJobStarted env cb"
| "handle_event env (JobFinished cb) = HandleJobFinished env cb"

inductive run_history ::
  "('p, JobExecutionMessage list) env \<Rightarrow> 'p logged_world \<Rightarrow> run_event list \<Rightarrow> 'p logged_world \<Rightarrow> bool"
  for env w0 where
  dispatched: "run_history env w0 [] w0"
| callback: "run_history env w0 evs w \<Longrightarrow> about_message (network w) (callback_of ev) \<Longrightarrow> handle_event env ev w = (r, w')
    \<Longrightarrow> run_history env w0 (evs @ [ev]) w'"

text \<open>A finished callback is accepted exactly when its status is one of a finished job.\<close>

fun acceptable :: "run_event \<Rightarrow> bool" where
  "acceptable (JobStarted cb) = True"
| "acceptable (JobFinished cb) = finished_status cb"

lemma invalid_status_refused:
  "\<not> finished_status cb \<Longrightarrow> \<exists>e. HandleJobFinished env cb w = (Inl e, w)"
  by (simp add: HandleJobFinished_def finished_status_def fail_def Let_def)

text \<open>One callback, as the automaton sees it.\<close>

lemma live_event:
  assumes run: "runnable env p n" and going: "rvVerdict v = Going" and live: "run_live env p n ptr info (rvPassed v) (rvJobs v) pub k w"
    and about: "about_message (network w) (callback_of ev)"
  shows "fst (handle_event env ev w) = Inr () \<longleftrightarrow> acceptable ev"
    and "run_after env p n ptr info (run_step p ev v) (snd (handle_event env ev w))"
proof -
  have "(fst (handle_event env ev w) = Inr () \<longleftrightarrow> acceptable ev) \<and> run_after env p n ptr info (run_step p ev v) (snd (handle_event env ev w))"
  proof (cases ev)
    case (JobStarted cb)
    from started_live [OF run live, of cb] about JobStarted obtain w' where "HandleJobStarted env cb w = (Inr (), w')"
      "run_live env p n ptr info (rvPassed v) (rvJobs (run_step p ev v)) pub k w'" by auto
    with JobStarted going show ?thesis by (auto simp: run_after_def)
  next
    case (JobFinished cb)
    with about have about: "about_message (network w) cb" by simp
    consider "\<not> finished_status cb" | "passes p cb" | "TrimSpace (cbStatus cb) = StatusFailed" "\<not> may_fail p (cbJob cb)"
      by (auto simp: passes_def)
    then show ?thesis
    proof cases
      case 1
      from invalid_status_refused [OF 1, of env w] obtain e where e: "HandleJobFinished env cb w = (Inl e, w)" by blast
      have "run_after env p n ptr info v w" using going live by (auto simp: run_after_def)
      with e 1 show ?thesis by (simp add: JobFinished)
    next
      case 2
      from report_live [OF run live about 2 going] obtain w' where "HandleJobFinished env cb w = (Inr (), w')"
        "run_after env p n ptr info (run_step p (JobFinished cb) v) w'" by blast
      with 2 show ?thesis by (simp add: JobFinished passes_def del: run_step.simps)
    next
      case 3
      from report_fails [OF run live about 3 going] obtain w' where "HandleJobFinished env cb w = (Inr (), w')"
        "run_over env p n info (run_step p (JobFinished cb) v) pub w'" by blast
      with 3 show ?thesis by (auto simp: JobFinished run_after_def finished_status_def simp del: run_step.simps)
    qed
  qed
  then show "fst (handle_event env ev w) = Inr () \<longleftrightarrow> acceptable ev" "run_after env p n ptr info (run_step p ev v) (snd (handle_event env ev w))"
    by blast+
qed

lemma over_event:
  assumes run: "runnable env p n" and over: "run_over env p n info v pub w" and about: "about_message (network w) (callback_of ev)"
  shows "fst (handle_event env ev w) = Inr () \<longleftrightarrow> acceptable ev" and "network (snd (handle_event env ev w)) = network w"
    and "run_over env p n info (run_step p ev v) pub (snd (handle_event env ev w))"
proof -
  have "(fst (handle_event env ev w) = Inr () \<longleftrightarrow> acceptable ev) \<and> network (snd (handle_event env ev w)) = network w
    \<and> run_over env p n info (run_step p ev v) pub (snd (handle_event env ev w))"
  proof (cases ev)
    case (JobStarted cb)
    with about have "about_message (network w) cb" by simp
    from started_over [OF run over this] JobStarted show ?thesis by (auto simp del: run_step.simps)
  next
    case (JobFinished cb)
    with about have "about_message (network w) cb" by simp
    from over_publishes_nothing [OF run over this] JobFinished show ?thesis by (auto simp del: run_step.simps split: if_splits)
  qed
  then show "fst (handle_event env ev w) = Inr () \<longleftrightarrow> acceptable ev" "network (snd (handle_event env ev w)) = network w"
    "run_over env p n info (run_step p ev v) pub (snd (handle_event env ev w))" by blast+
qed

lemma event_keeps:
  assumes run: "runnable env p n" and after: "run_after env p n ptr info v w" and about: "about_message (network w) (callback_of ev)"
  shows "fst (handle_event env ev w) = Inr () \<longleftrightarrow> acceptable ev"
    and "run_after env p n ptr info (run_step p ev v) (snd (handle_event env ev w))"
    and "rvVerdict v \<noteq> Going \<Longrightarrow> network (snd (handle_event env ev w)) = network w"
proof -
  from after consider (live) pub k where "rvVerdict v = Going" "run_live env p n ptr info (rvPassed v) (rvJobs v) pub k w"
    | (over) pub where "run_over env p n info v pub w" by (auto simp: run_after_def)
  then have "(fst (handle_event env ev w) = Inr () \<longleftrightarrow> acceptable ev) \<and> run_after env p n ptr info (run_step p ev v) (snd (handle_event env ev w))
    \<and> (rvVerdict v \<noteq> Going \<longrightarrow> network (snd (handle_event env ev w)) = network w)"
  proof cases
    case live
    then show ?thesis using live_event [OF run live about] by simp
  next
    case over
    then show ?thesis using over_event [OF run over about] by (auto simp: run_after_def)
  qed
  then show "fst (handle_event env ev w) = Inr () \<longleftrightarrow> acceptable ev"
    "run_after env p n ptr info (run_step p ev v) (snd (handle_event env ev w))"
    "rvVerdict v \<noteq> Going \<Longrightarrow> network (snd (handle_event env ev w)) = network w" by blast+
qed

lemma run_history_keeps:
  assumes "run_history env w0 evs w" and "runnable env p n" and "run_after env p n ptr info run_begin w0"
  shows "run_after env p n ptr info (run_view_of p evs) w"
  using assms(1)
proof (induction rule: run_history.induct)
  case dispatched
  show ?case using assms(3) by simp
next
  case (callback evs w ev r w')
  from event_keeps(2) [OF assms(2) callback.IH callback.hyps(2)] callback.hyps(3) show ?case by simp
qed

text \<open>What a verdict, and a job that passed, go back to.\<close>

lemma run_step_causes:
  "rvVerdict (run_step p ev v) = Failed s \<Longrightarrow> rvVerdict v = Failed s
     \<or> (\<exists>cb. ev = JobFinished cb \<and> cbStage cb = s \<and> TrimSpace (cbStatus cb) = StatusFailed \<and> \<not> may_fail p (cbJob cb))"
  "x \<in> rvPassed (run_step p ev v) \<Longrightarrow> x \<in> rvPassed v \<or> (\<exists>cb. ev = JobFinished cb \<and> x = (cbStage cb, cbJob cb) \<and> passes p cb)"
  "rvVerdict (run_step p ev v) = Succeeded \<Longrightarrow> rvVerdict v = Succeeded \<or> job_keys p \<subseteq> rvPassed (run_step p ev v)"
  by (cases ev; auto simp: judge_def passes_def Let_def split: if_splits)+

lemma run_view_causes:
  "rvVerdict (run_view_of p evs) = Failed s \<Longrightarrow>
     \<exists>cb. JobFinished cb \<in> set evs \<and> cbStage cb = s \<and> TrimSpace (cbStatus cb) = StatusFailed \<and> \<not> may_fail p (cbJob cb)"
  "x \<in> rvPassed (run_view_of p evs) \<Longrightarrow> \<exists>cb. JobFinished cb \<in> set evs \<and> x = (cbStage cb, cbJob cb) \<and> passes p cb"
proof (induction evs rule: rev_induct)
  case (snoc ev evs)
  { case 1 with snoc.IH(1) show ?case using run_step_causes(1) [of p ev "run_view_of p evs" s] by auto }
  { case 2 with snoc.IH(2) show ?case using run_step_causes(2) [of x p ev "run_view_of p evs"] by auto }
qed (simp_all add: run_begin_def)

lemma run_view_success: "rvVerdict (run_view_of p evs) = Succeeded \<Longrightarrow> job_keys p \<subseteq> rvPassed (run_view_of p evs)"
proof (induction evs rule: rev_induct)
  case (snoc ev evs)
  show ?case
  proof (cases "rvVerdict (run_view_of p evs) = Succeeded")
    case True
    then have "rvPassed (run_step p ev (run_view_of p evs)) = rvPassed (run_view_of p evs)" by (cases ev) (simp_all add: Let_def)
    with snoc.IH [OF True] show ?thesis by simp
  next
    case False
    with run_step_causes(3) [of p ev "run_view_of p evs"] snoc.prems show ?thesis by simp
  qed
qed (simp add: run_begin_def)

section \<open>The start of a run\<close>

lemma initial_stage_configured:
  assumes "wf_pipeline p" and "set (sepJobs s) = job_plan ` set (jobsForStage (sepName s) (Some p))"
  shows "configured p (sepName s) (initial_stage env p (buildJobConfigs (Some p)) s t)"
  unfolding configured_def
proof
  fix j assume j: "j \<in> set (jobsForStage (sepName s) (Some p))"
  then have jp: "j \<in> set (pipelineJobs p)" "jobStage j = sepName s" by (simp_all add: jobsForStage_def)
  let ?cfg = "\<lambda>j. \<lparr>allowFailures = jobFailures j, cfgNeeds = jobNeeds j\<rparr>"
  have same: "j' = j" if "j' \<in> set (pipelineJobs p)" "jobName j' = jobName j" for j'
    using assms(1) that jp by (auto simp: wf_pipeline_def distinct_map inj_on_def)
  have "map_get zero_config (buildJobConfigs (Some p)) (sepName s, jobName j) = ?cfg j"
    unfolding buildJobConfigs_def option.case using jp same by (intro map_get_fold) force+
  then have "map_get zero_config (jobConfigs (initial_stage env p (buildJobConfigs (Some p)) s t)) (jobName j) = ?cfg j"
    using assms(2) j unfolding initial_stage_def by simp (intro map_get_fold, auto simp: image_image)
  then show "allowFailures (map_get zero_config (jobConfigs (initial_stage env p (buildJobConfigs (Some p)) s t)) (jobName j)) = jobFailures j"
    by simp
qed

text \<open>What has to hold before a run: the request is valid, nothing of it is in flight, and the queue is empty.\<close>

definition startable ::
  "('p, JobExecutionMessage list) env \<Rightarrow> RunRequest \<Rightarrow> PipelinePlan \<Rightarrow> 'p logged_world \<Rightarrow> bool" where
  "startable env req pp w \<longleftrightarrow>
     (let p = ppPipeline pp; name = pipelineName p;
          inp = run_input env name (newRunInfo req) (buildRunRequestKey (eSha256 env) req name) (clock w) in
      prepareRun env req = Inr pp \<and> healthy env p \<and> range_order (eRangePlan env) \<and> eBetween env = id
      \<and> eColl env (eTraceID env) \<noteq> eColl env ''''
      \<and> names_apart (eColl env) p
      \<and> store_inv (eColl env) (wdb w) \<and> faults (wdb w) = [] \<and> rows_belong (eColl env) (wdb w)
      \<and> (\<forall>r \<in> set (pipeline_runs (wdb w)). \<not> in_flight (eColl env) inp r) \<and> has_number (eColl env) name (wdb w)
      \<and> network w = [] \<and> goroutines w = [] \<and> pool_ready (length (pipelineJobs p)) (manager w))"

lemma prepareRun_plan:
  assumes "prepareRun env req = Inr pp" and "wf_pipeline (ppPipeline pp)" and "range_order (eRangePlan env)"
  shows "map sepName (epStages (ppExecutionPlan pp)) = stage_names (ppPipeline pp)"
    and "s \<in> set (epStages (ppExecutionPlan pp)) \<Longrightarrow>
      \<exists>js. sepJobs s = map job_plan js \<and> mset js = mset (jobsForStage (sepName s) (Some (ppPipeline pp)))"
proof -
  have plan: "ppExecutionPlan pp = \<lparr>epStages = map (\<lambda>stage. buildStagePlan (eRangePlan env) stage (ppPipeline pp)) (pipelineStages (ppPipeline pp))\<rparr>"
    using assms(1) by (auto simp: prepareRun_def GenerateExecutionPlan_def split: if_splits option.splits sum.splits prod.splits)
  show "map sepName (epStages (ppExecutionPlan pp)) = stage_names (ppPipeline pp)"
    by (simp add: plan buildStagePlan_def stage_names_def)
  show "\<exists>js. sepJobs s = map job_plan js \<and> mset js = mset (jobsForStage (sepName s) (Some (ppPipeline pp)))"
    if "s \<in> set (epStages (ppExecutionPlan pp))"
    using that schedule_wf_stage(1) [OF assms(2,3)] by (auto simp: plan buildStagePlan_def)
qed

lemma rows_show_new:
  assumes wf: "wf_pipeline p" and belong: "rows_belong coll db" and fresh: "\<forall>r \<in> set (pipeline_runs db). coll (rowPipeline r) = coll (pipelineName p) \<longrightarrow> rowRunNo r < n"
    and names: "map sepName stages = stage_names p"
    and jobs: "\<And>s. s \<in> set stages \<Longrightarrow> set (sepJobs s) = job_plan ` set (jobsForStage (sepName s) (Some p))"
    and srows: "stage_runs db' = stage_runs db @ srows" "list_all2 (queued_stage (pipelineName p) n) srows stages"
    and jrows: "job_runs db' = job_runs db @ jrows" "list_all2 (queued_job (pipelineName p) n cfgs) jrows (concat (map stage_jobs stages))"
    and run: "pipeline_runs db' = pipeline_runs db @ [new_run_row coll inp n]" "criPipeline inp = pipelineName p" "criStatus inp = StatusQueued"
  shows "rows_show coll p n (StatusQueued, False) (done_entry {}) (\<lambda>_. (StatusQueued, False)) db'"
proof -
  have "stage_row_shows coll p n (done_entry {}) r" if r: "r \<in> set (stage_runs db')" for r
  proof (cases "r \<in> set srows")
    case True
    from list_all2_ex [OF srows(2) this] obtain s where "s \<in> set stages" "srStage r = sepName s" "srEndTime r = None" "srStatus r = StatusQueued"
      by (auto simp: queued_stage_def)
    moreover have "set (stage_names p) = sepName ` set stages" by (simp flip: names)
    ultimately show ?thesis by (simp add: stage_row_shows_def displays_def done_entry_def)
  next
    case False
    with r srows(1) belong fresh show ?thesis by (fastforce simp: stage_row_shows_def rows_belong_def)
  qed
  moreover have "job_row_shows coll p n (\<lambda>_. (StatusQueued, False)) r" if r: "r \<in> set (job_runs db')" for r
  proof (cases "r \<in> set jrows")
    case True
    from list_all2_ex [OF jrows(2) this] obtain s j where "s \<in> set stages" "j \<in> set (jobsForStage (sepName s) (Some p))" "jrStage r = sepName s"
        "jrJob r = jobName j" "jrEndTime r = None" "jrStatus r = StatusQueued"
      using jobs by (fastforce simp: stage_jobs_def queued_job_def)
    then show ?thesis by (force simp: job_row_shows_def displays_def job_keys_def jobsForStage_def)
  next
    case False
    with r jrows(1) belong fresh show ?thesis by (fastforce simp: job_row_shows_def rows_belong_def)
  qed
  moreover have "run_row_shows coll p n (StatusQueued, False) r" if r: "r \<in> set (pipeline_runs db')" for r
  proof (cases "r \<in> set (pipeline_runs db)")
    case True
    with fresh show ?thesis by (auto simp: run_row_shows_def)
  next
    case False
    with r run(1) have "r = new_run_row coll inp n" by simp
    then show ?thesis using run(3) by (simp add: run_row_shows_def displays_def new_run_row_def)
  qed
  moreover have "has_rows p n db'"
    unfolding has_rows_def
  proof (intro conjI ballI)
    show "(pipelineName p, n) \<in> (\<lambda>r. (rowPipeline r, rowRunNo r)) ` set (pipeline_runs db')"
      using run by (simp add: new_run_row_def)
    fix s assume "s \<in> set (stage_names p)"
    then obtain sp where sp: "sp \<in> set stages" "s = sepName sp" by (auto simp flip: names)
    from list_all2_ex_left [OF srows(2) sp(1)] obtain r where "r \<in> set srows" "queued_stage (pipelineName p) n r sp" by blast
    then show "(pipelineName p, n, s) \<in> (\<lambda>r. (srPipeline r, srRunNo r, srStage r)) ` set (stage_runs db')"
      using sp(2) srows(1) by (force simp: queued_stage_def)
  next
    fix j assume j: "j \<in> set (pipelineJobs p)"
    then have "jobStage j \<in> set (stage_names p)" using wf by (auto simp: wf_pipeline_def stage_names_def)
    then obtain sp where sp: "sp \<in> set stages" "jobStage j = sepName sp" by (auto simp flip: names)
    then have "(jobStage j, job_plan j) \<in> set (concat (map stage_jobs stages))"
      using j jobs [OF sp(1)] by (auto simp: stage_jobs_def jobsForStage_def)
    from list_all2_ex_left [OF jrows(2) this] obtain r where "r \<in> set jrows" "queued_job (pipelineName p) n cfgs r (jobStage j, job_plan j)"
      by blast
    then show "(pipelineName p, n, jobStage j, jobName j) \<in> (\<lambda>r. (jrPipeline r, jrRunNo r, jrStage r, jrJob r)) ` set (job_runs db')"
      using jrows(1) by (force simp: queued_job_def)
  qed
  ultimately show ?thesis by (simp add: rows_show_def)
qed

lemma stages_ok_start:
  assumes run: "runnable env p n" and names: "map sepName stages = stage_names p"
    and jobs: "\<And>s. s \<in> set stages \<Longrightarrow> set (sepJobs s) = job_plan ` set (jobsForStage (sepName s) (Some p))"
    and init: "\<forall>s \<in> set stages. \<exists>t. g (sepName s) = Some (initial_stage env p (buildJobConfigs (Some p)) s t)"
    and first: "s0 = hd (stage_names p)" "g s0 = Some st" "getReadyJobs st = (ready, st1)"
  shows "stages_ok env p {} ((\<lambda>_. [])(s0 := ready)) 0 (g(s0 \<mapsto> st1))" and "ready \<noteq> []"
    and "stage_inv (jobsForStage s0 (Some p)) (BuildStagePlan (eRangeStage env) s0 (Some p)) st1 ready"
proof -
  have wf: "wf_pipeline p" using run by (simp add: runnable_def healthy_def)
  have ne: "stage_names p \<noteq> []" using wf by (simp add: wf_pipeline_def stage_names_def)
  then have s0: "s0 = stage_names p ! 0" "s0 \<in> set (stage_names p)" by (simp_all add: first(1) hd_conv_nth)
  have fresh: "\<exists>t c. g s = Some ((newStageState (BuildStagePlan (eRangeStage env) s (Some p)))\<lparr>startedAt := t, jobConfigs := c\<rparr>)
      \<and> configured p s (the (g s))" if s: "s \<in> set (stage_names p)" for s
  proof -
    obtain sp where sp: "sp \<in> set stages" "s = sepName sp" using s by (auto simp flip: names)
    then obtain t where "g s = Some (initial_stage env p (buildJobConfigs (Some p)) sp t)" using init by blast
    with initial_stage_configured [OF wf jobs [OF sp(1)]] sp(2) show ?thesis by (auto simp: initial_stage_def)
  qed
  obtain t c where st: "st = (newStageState (BuildStagePlan (eRangeStage env) s0 (Some p)))\<lparr>startedAt := t, jobConfigs := c\<rparr>" "configured p s0 st"
    using fresh [OF s0(2)] first(2) by auto
  note ready = getReadyJobs_first [OF runnable_plan [OF run] first(3) [unfolded st(1)]]
  show inv: "stage_inv (jobsForStage s0 (Some p)) (BuildStagePlan (eRangeStage env) s0 (Some p)) st1 ready" by (rule ready(1))
  have some: "jobsForStage s0 (Some p) \<noteq> []" by (rule runnable_stages(2) [OF run s0(2)])
  then have "\<not> jobName ` set (jobsForStage s0 (Some p)) \<subseteq> set (keys (completed st1))" using ready(3) by simp
  with stage_inv_progress [OF runnable_plan [OF run] inv] show "ready \<noteq> []" by auto
  have "\<not> isStageComplete st1" using stage_inv_complete [OF runnable_plan [OF run] inv] ready(3) some by simp
  moreover have "configured p s0 st1" using st ready(2) by (simp add: configured_def)
  ultimately have here: "stage_ok env p {} ((\<lambda>_. [])(s0 := ready)) 0 0 st1"
    using inv ready(3) by (simp add: stage_ok_def Let_def flip: s0(1))
  have "\<exists>st'. (g(s0 \<mapsto> st1)) (stage_names p ! i) = Some st' \<and> stage_ok env p {} ((\<lambda>_. [])(s0 := ready)) 0 i st'"
    if i: "i < length (stage_names p)" for i
  proof (cases "i = 0")
    case False
    have other: "stage_names p ! i \<noteq> s0" using runnable_stages(1) [OF run] i False ne by (simp add: s0(1) nth_eq_iff_index_eq del: neq0_conv)
    have "stage_names p ! i \<in> set (stage_names p)" using i by simp
    from fresh [OF this] obtain t c where "g (stage_names p ! i) =
        Some ((newStageState (BuildStagePlan (eRangeStage env) (stage_names p ! i) (Some p)))\<lparr>startedAt := t, jobConfigs := c\<rparr>)"
        "configured p (stage_names p ! i) (the (g (stage_names p ! i)))" by blast
    with other False show ?thesis by (auto simp: stage_ok_def Let_def intro!: exI [of _ t] exI [of _ c])
  qed (use here s0(1) in simp)
  then show "stages_ok env p {} ((\<lambda>_. [])(s0 := ready)) 0 (g(s0 \<mapsto> st1))" using ne by (simp add: stages_ok_def)
qed

lemma log_ok_Nil [simp]: "log_ok p n info (\<lambda>_. []) []"
  by (simp add: log_ok_def sent_def)

text \<open>After \<open>Run\<close> and the dispatch it leaves to its goroutine, the run is in memory and nothing is reported yet.\<close>

lemma start_live:
  assumes start: "startable env req pp w" and p: "p = ppPipeline pp"
  obtains n w1 where "Run env req w
      = (Inr \<lparr>rrPipeline = pipelineName p, rrRunNo = n, rrStatus = StatusQueued, rrErrors = [], rrMessage = ''''\<rparr>, w1)"
    and "runnable env p n" and "run_after env p n (length (objects w)) (newRunInfo req) run_begin (run_goroutine env w1)"
proof -
  let ?name = "pipelineName p" and ?coll = "eColl env" and ?ptr = "length (objects w)" and ?info = "newRunInfo req" and ?N = "length (pipelineJobs p)"
  let ?inp = "run_input env ?name ?info (buildRunRequestKey (eSha256 env) req ?name) (clock w)"
  let ?stages = "epStages (ppExecutionPlan pp)"
  note s = start [unfolded startable_def Let_def, folded p]
  have wf: "wf_pipeline p" using s by (simp add: healthy_def)
  have "prepareRun env req = Inr pp" "range_order (eRangePlan env)" using s by simp_all
  note plan = prepareRun_plan [OF this(1) wf [unfolded p] this(2), folded p]
  have jobs: "set (sepJobs sp) = job_plan ` set (jobsForStage (sepName sp) (Some p))" if "sp \<in> set ?stages" for sp
    using plan(2) [OF that] by (metis list.set_map set_mset_mset)
  have "distinct (map (?coll \<circ> jepName) (sepJobs sp))" if sp: "sp \<in> set ?stages" for sp
  proof -
    obtain js where js: "sepJobs sp = map job_plan js" "mset js = mset (jobsForStage (sepName sp) (Some p))" using plan(2) [OF sp] by blast
    have "sepName sp \<in> set (stage_names p)" using sp by (simp flip: plan(1))
    then have "distinct (map (?coll \<circ> jobName) (jobsForStage (sepName sp) (Some p)))" using s by (simp add: names_apart_def)
    then show ?thesis using js by (metis (no_types, lifting) comp_assoc comp_def jepName_job_plan list.map_comp map_eq_conv mset_eq_imp_distinct_iff mset_map)
  qed
  moreover have "distinct (map (?coll \<circ> sepName) ?stages)" using s by (simp add: names_apart_def flip: plan(1))
  ultimately have names: "distinct_names ?coll ?stages" by (simp add: distinct_names_def)
  have ne: "stage_names p \<noteq> []" "?stages \<noteq> []" using wf plan(1) by (auto simp: wf_pipeline_def stage_names_def)
  have hyps: "store_inv ?coll (wdb w)" "faults (wdb w) = []" "rows_belong ?coll (wdb w)"
      "\<forall>r \<in> set (pipeline_runs (wdb w)). \<not> in_flight ?coll ?inp r" "eBetween env = id" "has_number ?coll ?name (wdb w)"
      "?coll (eTraceID env) \<noteq> ?coll ''''" "prepareRun env req = Inr pp"
    using s by blast+
  obtain n srows jrows w1 where run: "Run env req w = (Inr \<lparr>rrPipeline = ?name, rrRunNo = n, rrStatus = StatusQueued, rrErrors = [], rrMessage = ''''\<rparr>, w1)"
    and fresh: "\<forall>r \<in> set (pipeline_runs (wdb w)). ?coll (rowPipeline r) = ?coll ?name \<longrightarrow> rowRunNo r < n" and n: "1 \<le> n"
    and prow: "pipeline_runs (wdb w1) = pipeline_runs (wdb w) @ [new_run_row ?coll ?inp n]"
    and srows: "stage_runs (wdb w1) = stage_runs (wdb w) @ srows" "list_all2 (queued_stage ?name n) srows ?stages"
    and jrows: "job_runs (wdb w1) = job_runs (wdb w) @ jrows" "list_all2 (queued_job ?name n (buildJobConfigs (Some p))) jrows (concat (map stage_jobs ?stages))"
    and mem: "getPipelineRuntime ?name n w1 = Some ?ptr" "length (objects w1) = Suc ?ptr"
    and obj: "\<exists>states. objects w1 ! ?ptr = \<lparr>rtPipeline = ?name, rtRunNo = n, stageOrder = map sepName ?stages, stageStates = states,
      rtRunInfo = ?info, pipelineStart = clock w, jobStartTimes = [], executionPlan = ppExecutionPlan pp\<rparr>"
    and init: "\<forall>s \<in> set ?stages. \<exists>t. get_stage ?ptr (sepName s) w1 = Some (initial_stage env p (buildJobConfigs (Some p)) s t)"
    and rest: "network w1 = network w" "goroutines w1 = goroutines w @ [?ptr]" "manager w1 = manager w" "faults (wdb w1) = []"
      "uq_pipeline_runs ?coll (pipeline_runs (wdb w1))"
    by (rule Run_new [OF hyps(8) refl refl ne(2) names refl hyps(1-3) _ hyps(5), folded p]) (use hyps in blast)+
  have runnable: "runnable env p n" using s n by (simp add: runnable_def)
  obtain s0 stages' where st0: "?stages = s0 # stages'" using ne(2) by (cases ?stages) auto
  obtain st where st: "get_stage ?ptr (sepName s0) w1 = Some st" using init st0 by auto
  obtain ready st1 where ready: "getReadyJobs st = (ready, st1)" by fastforce
  have hd0: "sepName s0 = hd (stage_names p)" by (simp add: st0 flip: plan(1))
  note ok = stages_ok_start [OF runnable plan(1) jobs init hd0 st ready]
  have in0: "sepName s0 \<in> set (stage_names p)" using ne(1) by (simp add: hd0)
  have log: "log_ok p n ?info ((\<lambda>_. [])(sepName s0 := ready)) (map (\<lambda>job. buildJobExecutionMessage n ?name (sepName s0) job ?info) ready)"
    using log_ok_publish [OF log_ok_Nil in0, of ready n ?info] stage_invD(3,4) [OF ok(3)] by simp
  let ?c = "?N - length ready"
  have "length ready + ?c = ?N" using log_ok_length [OF log] by simp
  then have pool: "pool_ready (length ready + ?c) (manager w1)" using s rest(3) by simp
  have "goroutines w1 = ?ptr # []" "epStages (executionPlan (objects w1 ! ?ptr)) = s0 # stages'" "?ptr < length (objects w1)"
      "delivers env (\<lambda>msg sent. sent @ [msg])"
    using rest(2) s obj st0 mem(2) by (auto simp: healthy_def)
  from run_goroutine_ready [OF this(1-3) st ready ok(2) this(4) pool] obtain m where m: "pool_ready ?c m"
    "run_goroutine env w1 = (set_stage ?ptr (sepName s0) st1 w1)\<lparr>goroutines := [], manager := m,
      network := map (\<lambda>job. buildJobExecutionMessage n ?name (sepName s0) job ?info) ready\<rparr>"
    using obj rest(1) s by (auto simp: deliver_append)
  let ?w = "run_goroutine env w1"
  have frame: "run_frame ?ptr w1 ?w" using run_frame_set_stage [of ?ptr w1] by (simp add: m(2) run_frame_def)
  have "(\<lambda>s. get_stage ?ptr s ?w) = (\<lambda>s. get_stage ?ptr s w1)(sepName s0 \<mapsto> st1)"
    using mem(2) by (auto simp: fun_eq_iff m(2) get_stage_def set_stage_def update_object_def)
  moreover have "rows_show ?coll p n (StatusQueued, False) (done_entry {}) (rvJobs run_begin) (wdb ?w)"
    using rows_show_new [OF wf hyps(3) fresh plan(1) jobs srows jrows prow] by (simp add: m(2) run_input_def run_begin_def)
  moreover have "network ?w = map (\<lambda>job. buildJobExecutionMessage n ?name (sepName s0) job ?info) ready" "manager ?w = m" "wdb ?w = wdb w1"
    by (simp_all add: m(2))
  ultimately have "run_live env p n ?ptr ?info {} (rvJobs run_begin) ((\<lambda>_. [])(sepName s0 := ready)) 0 ?w"
    using ok(1) frame mem obj rest(4,5) log m(1) plan(1) by (auto simp: run_live_def run_base_def run_frame_def getPipelineRuntime_def)
  then show ?thesis by (intro that [OF run runnable]) (auto simp: run_after_def run_begin_def)
qed

section \<open>What every history of a run satisfies\<close>

definition message_of :: "Pipeline \<Rightarrow> int \<Rightarrow> Job \<Rightarrow> JobExecutionMessage \<Rightarrow> bool" where
  "message_of p n j msg \<longleftrightarrow>
     jmPipelineName msg = pipelineName p \<and> jmRunNo msg = n \<and> jmStage msg = jobStage j \<and> jmJob msg = job_plan j"

lemma sent_in_log:
  "log_ok p n info pub net \<Longrightarrow> s \<in> set (stage_names p) \<Longrightarrow> job \<in> set (pub s) \<Longrightarrow> buildJobExecutionMessage n (pipelineName p) s job info \<in> set net"
  unfolding log_ok_def sent_def by blast

lemma log_in_order:
  assumes log: "log_ok p n info pub net" and order: "in_order p R pub" and msg: "msg \<in> set net"
  shows "\<exists>j \<in> set (pipelineJobs p). message_of p n j msg \<and> waits_over p R j"
proof -
  from msg log obtain s job where m: "msg = buildJobExecutionMessage n (pipelineName p) s job info" "s \<in> set (stage_names p)" "job \<in> set (pub s)"
    by (auto simp: log_ok_def sent_def)
  then obtain j where j: "j \<in> set (jobsForStage s (Some p))" "job = job_plan j" using log by (fastforce simp: log_ok_def)
  then have jp: "j \<in> set (pipelineJobs p)" "jobStage j = s" by (simp_all add: jobsForStage_def)
  have "message_of p n j msg" using m(1) j(2) jp(2) by (simp add: message_of_def buildJobExecutionMessage_def)
  with order jp m(3) j(2) show ?thesis by (auto simp: in_order_def)
qed

lemma run_after_log:
  assumes run: "runnable env p n" and after: "run_after env p n ptr info v w"
  obtains pub where "log_ok p n info pub (network w)" and "in_order p (rvPassed v) pub"
  using after stages_ok_order [OF run] that unfolding run_after_def run_live_def run_base_def run_over_def by blast

text \<open>The rows, the memory and the published messages of a run follow what its callbacks mean.\<close>

lemma run_after_meaning:
  assumes run: "runnable env p n" and after: "run_after env p n ptr info v w"
  shows "recorded (eColl env) p n v (wdb w)" and "getPipelineRuntime (pipelineName p) n w \<noteq> None \<longleftrightarrow> rvVerdict v = Going"
    and "rvVerdict v = Going \<Longrightarrow> \<exists>msg \<in> set (network w). (jmStage msg, jepName (jmJob msg)) \<notin> rvPassed v"
    and "rvVerdict v = Succeeded \<Longrightarrow> \<forall>j \<in> set (pipelineJobs p). \<exists>msg \<in> set (network w). message_of p n j msg"
proof -
  from after consider (live) pub k where "rvVerdict v = Going" "run_live env p n ptr info (rvPassed v) (rvJobs v) pub k w"
    | (over) pub where "run_over env p n info v pub w" by (auto simp: run_after_def)
  then have "recorded (eColl env) p n v (wdb w) \<and> (getPipelineRuntime (pipelineName p) n w \<noteq> None \<longleftrightarrow> rvVerdict v = Going)
    \<and> (rvVerdict v = Going \<longrightarrow> (\<exists>msg \<in> set (network w). (jmStage msg, jepName (jmJob msg)) \<notin> rvPassed v))
    \<and> (rvVerdict v = Succeeded \<longrightarrow> (\<forall>j \<in> set (pipelineJobs p). \<exists>msg \<in> set (network w). message_of p n j msg))"
  proof cases
    case live
    have ok: "stages_ok env p (rvPassed v) pub k (\<lambda>s. get_stage ptr s w)" and base: "run_base env p n ptr info (rvJobs v) pub (set (take k (stage_names p))) w"
      using live(2) by (simp_all add: run_live_def)
    note base = base [unfolded run_base_def]
    have "done_entry (set (take k (stage_names p))) s = stage_entry p v s" if "s \<in> set (stage_names p)" for s
      using stages_ok_done [OF run ok that] live(1) by (simp add: done_entry_def stage_entry_def)
    moreover have "rows_show (eColl env) p n (run_entry v) (done_entry (set (take k (stage_names p)))) (rvJobs v) (wdb w)"
      using base live(1) by (simp add: run_entry_def)
    ultimately have rows: "recorded (eColl env) p n v (wdb w)" by (intro recordedI [OF _ refl])
    obtain j where j: "job_plan j \<in> set (pub (stage_names p ! k))" "(stage_names p ! k, jobName j) \<notin> rvPassed v"
      by (rule stages_ok_open [OF run ok])
    have "stage_names p ! k \<in> set (stage_names p)" using ok by (simp add: stages_ok_def)
    moreover have "log_ok p n info pub (network w)" using base by simp
    ultimately have "buildJobExecutionMessage n (pipelineName p) (stage_names p ! k) (job_plan j) info \<in> set (network w)"
      using j(1) by (intro sent_in_log)
    with j(2) have "\<exists>msg \<in> set (network w). (jmStage msg, jepName (jmJob msg)) \<notin> rvPassed v"
      by (force simp: buildJobExecutionMessage_def)
    with rows show ?thesis using live(1) base by simp
  next
    case over
    note o = over [unfolded run_over_def]
    have "\<exists>msg \<in> set (network w). message_of p n j msg" if j: "j \<in> set (pipelineJobs p)" "rvVerdict v = Succeeded" for j
    proof -
      have "jobStage j \<in> set (stage_names p)"
        using run j(1) by (auto simp: runnable_def healthy_def wf_pipeline_def stage_names_def)
      moreover have "log_ok p n info pub (network w)" "job_plan j \<in> set (pub (jobStage j))" using o j by simp_all
      ultimately have "buildJobExecutionMessage n (pipelineName p) (jobStage j) (job_plan j) info \<in> set (network w)" by (intro sent_in_log)
      then show ?thesis by (rule bexI [rotated]) (simp add: message_of_def buildJobExecutionMessage_def)
    qed
    with o show ?thesis by simp
  qed
  then show "recorded (eColl env) p n v (wdb w)" "getPipelineRuntime (pipelineName p) n w \<noteq> None \<longleftrightarrow> rvVerdict v = Going"
    "rvVerdict v = Going \<Longrightarrow> \<exists>msg \<in> set (network w). (jmStage msg, jepName (jmJob msg)) \<notin> rvPassed v"
    "rvVerdict v = Succeeded \<Longrightarrow> \<forall>j \<in> set (pipelineJobs p). \<exists>msg \<in> set (network w). message_of p n j msg" by blast+
qed

text \<open>C2. Jobs run in order, however callbacks are delayed or repeated and whatever they say: with a broker and a database
  that do not fail, after \<open>Run\<close> and the dispatch of its goroutine, in every history of callbacks about published messages
  (failures of required jobs, invalid statuses, repeated and late ones included), no message is published twice, and every published
  message is a job of the pipeline of which all needs, and all jobs of all earlier stages, have passed before: each of
  them has been reported as successful, or as failed where it may fail. After the failure of a job that may not fail, and
  after the end of the run, callbacks publish nothing more.\<close>

theorem run_in_order:
  assumes "startable env req pp w" and "p = ppPipeline pp" and "Run env req w = (Inr resp, w1)"
    and "run_history env (run_goroutine env w1) evs w'"
  shows "distinct (network w')
    \<and> (\<forall>msg \<in> set (network w'). \<exists>j \<in> set (pipelineJobs p). message_of p (rrRunNo resp) j msg \<and> waits_over p (rvPassed (run_view_of p evs)) j)
    \<and> (\<forall>x \<in> rvPassed (run_view_of p evs). \<exists>cb. JobFinished cb \<in> set evs \<and> x = (cbStage cb, cbJob cb) \<and> passes p cb)
    \<and> (\<forall>ev. rvVerdict (run_view_of p evs) \<noteq> Going \<and> about_message (network w') (callback_of ev) \<longrightarrow>
         network (snd (handle_event env ev w')) = network w')"
proof -
  from start_live [OF assms(1,2)] assms(3) have run: "runnable env p (rrRunNo resp)"
    "run_after env p (rrRunNo resp) (length (objects w)) (newRunInfo req) run_begin (run_goroutine env w1)" by fastforce+
  note after = run_history_keeps [OF assms(4) run]
  obtain pub where log: "log_ok p (rrRunNo resp) (newRunInfo req) pub (network w')" and order: "in_order p (rvPassed (run_view_of p evs)) pub"
    by (rule run_after_log [OF run(1) after])
  have "distinct (network w')" using log by (simp add: log_ok_def)
  with log_in_order [OF log order] run_view_causes(2) event_keeps(3) [OF run(1) after] show ?thesis by blast
qed

text \<open>C1. The orchestrator does what its callbacks mean, to the end of the run: with a broker and a database that do not fail, in
  every history of callbacks about published messages, whatever they report, the memory and the rows of the run are those
  of the automaton \<open>run_step\<close>. Every callback is accepted, except a finished one whose status is not one of a finished job. The run is in memory as long as
  there is no verdict, and then some published job has not passed, so the run never stops making progress. It succeeds
  exactly when all its jobs have passed, and all of them were published; it fails when a job that may not fail was reported as failed. The rows
  of the run, of each stage and of each job have the statuses of the automaton (for a job, that of the last
  callback about it) and end times exactly when they are finished.\<close>

theorem run_reaches_end:
  assumes "startable env req pp w" and "p = ppPipeline pp" and "Run env req w = (Inr resp, w1)"
    and "run_history env (run_goroutine env w1) evs w'" and "v = run_view_of p evs"
  shows "(\<forall>ev. about_message (network w') (callback_of ev) \<longrightarrow> (fst (handle_event env ev w') = Inr () \<longleftrightarrow> acceptable ev))
    \<and> recorded (eColl env) p (rrRunNo resp) v (wdb w')
    \<and> (getPipelineRuntime (pipelineName p) (rrRunNo resp) w' \<noteq> None \<longleftrightarrow> rvVerdict v = Going)
    \<and> (case rvVerdict v of
         Going \<Rightarrow> \<exists>msg \<in> set (network w'). (jmStage msg, jepName (jmJob msg)) \<notin> rvPassed v
       | Succeeded \<Rightarrow> job_keys p \<subseteq> rvPassed v \<and> (\<forall>j \<in> set (pipelineJobs p). \<exists>msg \<in> set (network w'). message_of p (rrRunNo resp) j msg)
       | Failed s \<Rightarrow> \<exists>cb. JobFinished cb \<in> set evs \<and> cbStage cb = s \<and> TrimSpace (cbStatus cb) = StatusFailed \<and> \<not> may_fail p (cbJob cb))"
proof -
  from start_live [OF assms(1,2)] assms(3) have run: "runnable env p (rrRunNo resp)"
    "run_after env p (rrRunNo resp) (length (objects w)) (newRunInfo req) run_begin (run_goroutine env w1)" by fastforce+
  note after = run_history_keeps [OF assms(4) run, folded assms(5)]
  note meaning = run_after_meaning [OF run(1) after]
  have "case rvVerdict v of
         Going \<Rightarrow> \<exists>msg \<in> set (network w'). (jmStage msg, jepName (jmJob msg)) \<notin> rvPassed v
       | Succeeded \<Rightarrow> job_keys p \<subseteq> rvPassed v \<and> (\<forall>j \<in> set (pipelineJobs p). \<exists>msg \<in> set (network w'). message_of p (rrRunNo resp) j msg)
       | Failed s \<Rightarrow> \<exists>cb. JobFinished cb \<in> set evs \<and> cbStage cb = s \<and> TrimSpace (cbStatus cb) = StatusFailed \<and> \<not> may_fail p (cbJob cb)"
    using meaning(3,4) run_view_success [of p evs] run_view_causes(1) [of p evs] by (simp add: assms(5) split: verdict.split)
  with meaning(1,2) event_keeps(1) [OF run(1) after] show ?thesis by blast
qed

text \<open>The names of stages and jobs have to survive trimming: a callback with a blank name is refused, so a run with such a
  job cannot end.\<close>

lemma blank_names_refused:
  "TrimSpace (cbStage cb) = '''' \<or> TrimSpace (cbJob cb) = '''' \<Longrightarrow>
     (\<exists>e. HandleJobFinished env cb w = (Inl e, w)) \<and> (\<exists>e. HandleJobStarted env cb w = (Inl e, w))"
  by (auto simp: HandleJobFinished_def HandleJobStarted_def missing_fields_def fail_def)

section \<open>The claims on the demonstration run\<close>

lemma demo_plan: "map_sum id ppPipeline (prepareRun demo_env demo_request) = Inr demo_pipeline"
  by code_simp

lemma demo_startable: "\<exists>pp. ppPipeline pp = demo_pipeline \<and> startable demo_env demo_request pp demo_world0"
proof -
  obtain pp where pp: "prepareRun demo_env demo_request = Inr pp" "ppPipeline pp = demo_pipeline"
    using demo_plan by (cases "prepareRun demo_env demo_request") auto
  have wf: "wf_pipeline demo_pipeline"
    using Verify_Nil [OF range_order_rev, of demo_verifier] demo_verified by (simp add: demo_verifier_def NewPipelineVerifier_def)
  have "healthy demo_env demo_pipeline"
  proof -
    have "TrimSpace (pipelineName demo_pipeline) \<noteq> ''''" "\<forall>s \<in> set (stage_names demo_pipeline). TrimSpace s \<noteq> ''''"
      "\<forall>j \<in> set (pipelineJobs demo_pipeline). TrimSpace (jobName j) \<noteq> ''''" by code_simp+
    then show ?thesis
      using wf demo_env_delivers by (simp add: healthy_def) (simp add: demo_env_def range_order_def inactive_status_def status_defs)
  qed
  moreover have "names_apart (eColl demo_env) demo_pipeline" "pool_ready (length (pipelineJobs demo_pipeline)) (manager demo_world0)" by code_simp+
  ultimately have "startable demo_env demo_request pp demo_world0"
    using pp store_inv_empty range_order_rev
    by (simp add: startable_def) (simp add: demo_world0_def demo_env_def empty_db_def rows_belong_def has_number_def)
  with pp(2) show ?thesis by blast
qed

lemma demo_run: "Run demo_env demo_request demo_world0
    = (Inr \<lparr>rrPipeline = ''demo'', rrRunNo = 1, rrStatus = StatusQueued, rrErrors = [], rrMessage = ''''\<rparr>, snd (Run demo_env demo_request demo_world0))"
proof -
  have "fst (Run demo_env demo_request demo_world0) = Inr \<lparr>rrPipeline = ''demo'', rrRunNo = 1, rrStatus = StatusQueued, rrErrors = [], rrMessage = ''''\<rparr>"
    by code_simp
  then show ?thesis by (metis prod.collapse)
qed

definition demo_world3 :: "(string, JobExecutionMessage list) world" where
  "demo_world3 = snd (HandleJobFinished demo_env (demo_report ''test'' ''unit'' ''success'') demo_world2)"

definition demo_failed_world :: "(string, JobExecutionMessage list) world" where
  "demo_failed_world = snd (HandleJobFinished demo_env (demo_report ''build'' ''link'' ''failed'') demo_world1)"

text \<open>A run that succeeds, and one that fails in its first stage: \<open>link\<close> may not fail.\<close>

definition demo_events :: "run_event list" where
  "demo_events = [JobFinished (demo_report ''build'' ''compile'' ''success''), JobFinished (demo_report ''build'' ''link'' ''success''),
     JobFinished (demo_report ''test'' ''unit'' ''success'')]"

definition demo_failed_events :: "run_event list" where
  "demo_failed_events = [JobFinished (demo_report ''build'' ''compile'' ''success''), JobFinished (demo_report ''build'' ''link'' ''failed'')]"

lemma demo_reports:
  "about_message (network demo_world) (demo_report ''build'' ''compile'' ''success'')"
  "about_message (network demo_world1) (demo_report ''build'' ''link'' ''success'')"
  "about_message (network demo_world1) (demo_report ''build'' ''link'' ''failed'')"
  "about_message (network demo_world2) (demo_report ''test'' ''unit'' ''success'')"
  by code_simp+

lemma demo_history:
  "run_history demo_env demo_world [JobFinished (demo_report ''build'' ''compile'' ''success'')] demo_world1"
  "run_history demo_env demo_world demo_events demo_world3"
  "run_history demo_env demo_world demo_failed_events demo_failed_world"
proof -
  have step: "run_history demo_env demo_world (evs @ [JobFinished cb]) (snd (HandleJobFinished demo_env cb w))"
    if "run_history demo_env demo_world evs w" "about_message (network w) cb" for evs cb w
    using callback [OF that(1), of "JobFinished cb"] that(2) by (metis callback_of.simps(2) handle_event.simps(2) prod.collapse)
  from step [OF dispatched demo_reports(1), folded demo_world1_def]
  show one: "run_history demo_env demo_world [JobFinished (demo_report ''build'' ''compile'' ''success'')] demo_world1" by simp
  from step [OF step [OF one demo_reports(2), folded demo_world2_def] demo_reports(4), folded demo_world3_def]
  show "run_history demo_env demo_world demo_events demo_world3" by (simp add: demo_events_def)
  from step [OF one demo_reports(3), folded demo_failed_world_def]
  show "run_history demo_env demo_world demo_failed_events demo_failed_world" by (simp add: demo_failed_events_def)
qed

lemma demo_verdicts:
  "rvVerdict (run_view_of demo_pipeline demo_events) = Succeeded"
  "rvVerdict (run_view_of demo_pipeline demo_failed_events) = Failed ''build''"
  by code_simp+

lemma demo_failed_run:
  "getPipelineRuntime ''demo'' 1 demo_failed_world = None"
  "map rowStatus (pipeline_runs (wdb demo_failed_world)) = [''failed'']"
  "map (\<lambda>r. (srStage r, srStatus r)) (stage_runs (wdb demo_failed_world)) = [(''build'', ''failed''), (''test'', ''queued'')]"
  by code_simp+

lemma run_in_order_witness:
  "distinct (network demo_world1) \<and> (\<exists>msg j. msg \<in> set (network demo_world1) \<and> jepName (jmJob msg) = ''link''
     \<and> j \<in> set (pipelineJobs demo_pipeline) \<and> message_of demo_pipeline 1 j msg
     \<and> waits_over demo_pipeline (rvPassed (run_view_of demo_pipeline [JobFinished (demo_report ''build'' ''compile'' ''success'')])) j)"
proof -
  obtain pp where pp: "demo_pipeline = ppPipeline pp" "startable demo_env demo_request pp demo_world0" using demo_startable by metis
  have "map (jepName \<circ> jmJob) (network demo_world1) = [''compile'', ''link'']" by code_simp
  then obtain first_msg msg where "network demo_world1 = [first_msg, msg]" "jepName (jmJob msg) = ''link''" by auto
  then have msg: "msg \<in> set (network demo_world1)" "jepName (jmJob msg) = ''link''" by simp_all
  note order = run_in_order [OF pp(2,1) demo_run demo_history(1) [unfolded demo_world_def]]
  then obtain j where "j \<in> set (pipelineJobs demo_pipeline)" "message_of demo_pipeline 1 j msg"
      "waits_over demo_pipeline (rvPassed (run_view_of demo_pipeline [JobFinished (demo_report ''build'' ''compile'' ''success'')])) j"
    using msg(1) by fastforce
  with msg order show ?thesis by auto
qed

lemma run_reaches_end_witness:
  "getPipelineRuntime ''demo'' 1 demo_world3 = None
    \<and> recorded id demo_pipeline 1 (run_view_of demo_pipeline demo_events) (wdb demo_world3)
    \<and> job_keys demo_pipeline \<subseteq> rvPassed (run_view_of demo_pipeline demo_events)
    \<and> getPipelineRuntime ''demo'' 1 demo_failed_world = None
    \<and> recorded id demo_pipeline 1 (run_view_of demo_pipeline demo_failed_events) (wdb demo_failed_world)"
proof -
  obtain pp where pp: "demo_pipeline = ppPipeline pp" "startable demo_env demo_request pp demo_world0" using demo_startable by metis
  have name: "pipelineName demo_pipeline = ''demo''" "eColl demo_env = id" by (simp_all add: demo_pipeline_def demo_env_def)
  from run_reaches_end [OF pp(2,1) demo_run demo_history(2) [unfolded demo_world_def] refl] demo_verdicts(1)
  have "getPipelineRuntime ''demo'' 1 demo_world3 = None" "recorded id demo_pipeline 1 (run_view_of demo_pipeline demo_events) (wdb demo_world3)"
    "job_keys demo_pipeline \<subseteq> rvPassed (run_view_of demo_pipeline demo_events)" by (simp_all add: name)
  moreover from run_reaches_end [OF pp(2,1) demo_run demo_history(3) [unfolded demo_world_def] refl] demo_verdicts(2)
  have "getPipelineRuntime ''demo'' 1 demo_failed_world = None"
    "recorded id demo_pipeline 1 (run_view_of demo_pipeline demo_failed_events) (wdb demo_failed_world)" by (simp_all add: name)
  ultimately show ?thesis by blast
qed

end
