(* ===== verification/Observability.thy ===== *)
theory Observability
  imports Http Gostd
begin

text \<open>
  \<open>internal/observability\<close>: the set-up and shutdown of traces, metrics and logs (\<open>otel.go\<close>,
  \<open>observability.go\<close>), the loggers a request carries (\<open>logger.go\<close>), the names of tracers and
  spans (\<open>tracer.go\<close>, \<open>http.go\<close>) and the middleware around the HTTP handlers. The OpenTelemetry
  libraries are parameters: whether an exporter can be created, what a provider returns from
  \<open>Shutdown\<close>, and the handler wrapper. Shown: a failed set-up shuts down every provider it had created, and a
  shutdown closes each provider once.
\<close>

section \<open>Traces, metrics and logs of a process\<close>

datatype provider = TracerProvider | MeterProvider | LoggerProvider

text \<open>The process-wide state of the libraries. \<open>otCreated\<close> and \<open>otClosed\<close> record the providers made and the calls of
  their \<open>Shutdown\<close>; \<open>shutdownFuncs\<close> is the variable that the closure returned by \<open>setupOTel\<close> shares.\<close>

record otel =
  shutdownFuncs :: "provider list"
  otCreated :: "provider list"
  otClosed :: "provider list"
  textMapPropagator :: "string list"
  globalProviders :: "provider list"
  slogBridge :: "string option"

record otelEnv =
  oeResource :: "goerr option"
  oeExporter :: "provider \<Rightarrow> goerr option"
  oeShutdown :: "provider \<Rightarrow> goerr option"

definition instrumentationBaseScope :: string where
  "instrumentationBaseScope = ''github.com/xueyulinn/cicd-system''"

text \<open>\<open>errors.Join\<close> of two errors that may be nil.\<close>

definition errors_Join :: "goerr option \<Rightarrow> goerr option \<Rightarrow> goerr option" where
  "errors_Join a b =
     (case (a, b) of
        (None, None) \<Rightarrow> None
      | (Some e, None) \<Rightarrow> Some e
      | (None, Some e) \<Rightarrow> Some e
      | (Some e, Some f) \<Rightarrow> Some \<lparr>Error = Error e @ [CHR 0x0A] @ Error f, chain = chain e @ chain f\<rparr>)"

definition otel_shutdown :: "otelEnv \<Rightarrow> otel \<Rightarrow> goerr option \<times> otel" where
  "otel_shutdown oe s =
     (fold (\<lambda>fn joinErr. errors_Join joinErr (oeShutdown oe fn)) (shutdownFuncs s) None,
      s\<lparr>shutdownFuncs := [], otClosed := otClosed s @ shutdownFuncs s\<rparr>)"

definition handleErr :: "otelEnv \<Rightarrow> goerr \<Rightarrow> otel \<Rightarrow> goerr option \<times> otel" where
  "handleErr oe inErr s = (let (err, s1) = otel_shutdown oe s in (errors_Join (Some inErr) err, s1))"

definition newPropagator :: "string list" where
  "newPropagator = [''tracecontext'', ''baggage'']"

definition new_provider :: "otelEnv \<Rightarrow> provider \<Rightarrow> otel \<Rightarrow> (goerr + provider) \<times> otel" where
  "new_provider oe p s =
     (case oeExporter oe p of
        Some err \<Rightarrow> (Inl err, s)
      | None \<Rightarrow> (Inr p, s\<lparr>otCreated := otCreated s @ [p]\<rparr>))"

definition newTracerProvider :: "otelEnv \<Rightarrow> otel \<Rightarrow> (goerr + provider) \<times> otel" where
  "newTracerProvider oe = new_provider oe TracerProvider"

definition newMeterProvider :: "otelEnv \<Rightarrow> otel \<Rightarrow> (goerr + provider) \<times> otel" where
  "newMeterProvider oe = new_provider oe MeterProvider"

definition newLoggerProvider :: "otelEnv \<Rightarrow> otel \<Rightarrow> (goerr + provider) \<times> otel" where
  "newLoggerProvider oe = new_provider oe LoggerProvider"

text \<open>\<open>shutdownFuncs = append(shutdownFuncs, p.Shutdown)\<close> and the registration as the global provider.\<close>

definition register :: "provider \<Rightarrow> otel \<Rightarrow> otel" where
  "register p s = s\<lparr>shutdownFuncs := shutdownFuncs s @ [p], globalProviders := globalProviders s @ [p]\<rparr>"

text \<open>The steps of \<open>setupOTel\<close> for one provider: on an error everything registered before is shut down. The result
  is the error, if any, that \<open>setupOTel\<close> returns.\<close>

definition set_up ::
  "otelEnv \<Rightarrow> (otelEnv \<Rightarrow> otel \<Rightarrow> (goerr + provider) \<times> otel) \<Rightarrow> (otel \<Rightarrow> goerr option \<times> otel) \<Rightarrow> otel \<Rightarrow> goerr option \<times> otel" where
  "set_up oe new go_on s =
     (case new oe s of
        (Inl err, s1) \<Rightarrow> handleErr oe err s1
      | (Inr p, s1) \<Rightarrow> go_on (register p s1))"

definition setupOTel :: "otelEnv \<Rightarrow> otel \<Rightarrow> goerr option \<times> otel" where
  "setupOTel oe s0 =
     (let s = s0\<lparr>shutdownFuncs := []\<rparr> in
      case oeResource oe of
        Some err \<Rightarrow> (Some err, s)
      | None \<Rightarrow>
          set_up oe newTracerProvider (set_up oe newMeterProvider (set_up oe newLoggerProvider
            (\<lambda>s. (None, s\<lparr>slogBridge := Some instrumentationBaseScope\<rparr>))))
          (s\<lparr>textMapPropagator := newPropagator\<rparr>))"

definition metricsBootStrap :: "otel \<Rightarrow> otel" where
  "metricsBootStrap s = s"

definition Bootstrap :: "otelEnv \<Rightarrow> otel \<Rightarrow> (goerr + unit) \<times> otel" where
  "Bootstrap oe s =
     (case setupOTel oe s of
        (Some err, s1) \<Rightarrow> (Inl err, s1)
      | (None, s1) \<Rightarrow> (Inr (), metricsBootStrap s1))"

section \<open>Loggers\<close>

datatype attribute = StringAttr string string | IntAttr string int

record logger =
  attrs :: "attribute list"

record span_context =
  scTraceID :: string
  scSpanID :: string

text \<open>A context carries a logger and a span, if it has been given one; an invalid span context is \<open>None\<close>.\<close>

record go_context =
  ctxLogger :: "logger option"
  ctxSpan :: "span_context option"

definition logger_With :: "attribute list \<Rightarrow> logger \<Rightarrow> logger" where
  "logger_With kvs l = l\<lparr>attrs := attrs l @ kvs\<rparr>"

definition ContextWithLogger :: "go_context \<Rightarrow> logger \<Rightarrow> go_context" where
  "ContextWithLogger ctx l = ctx\<lparr>ctxLogger := Some l\<rparr>"

definition L_logger :: "logger \<Rightarrow> go_context \<Rightarrow> logger" where
  "L_logger slogDefault ctx = (case ctxLogger ctx of Some l \<Rightarrow> l | None \<Rightarrow> slogDefault)"

definition WithTraceContext :: "go_context \<Rightarrow> logger \<Rightarrow> logger" where
  "WithTraceContext ctx l =
     (case ctxSpan ctx of
        None \<Rightarrow> l
      | Some sc \<Rightarrow> logger_With [StringAttr ''trace_id'' (scTraceID sc), StringAttr ''span_id'' (scSpanID sc)] l)"

definition WithPipelineContext :: "logger \<Rightarrow> string \<Rightarrow> int \<Rightarrow> logger" where
  "WithPipelineContext l pipeline runNo = logger_With [StringAttr ''pipeline'' pipeline, IntAttr ''run_no'' runNo] l"

definition WithReportQueryContext :: "logger \<Rightarrow> ReportQuery \<Rightarrow> logger" where
  "WithReportQueryContext l0 query =
     (let l1 = logger_With [StringAttr ''pipeline'' (qPipeline query)] l0;
          l2 = (case qRun query of None \<Rightarrow> l1 | Some r \<Rightarrow> logger_With [IntAttr ''run_no'' r] l1);
          l3 = (if qStage query \<noteq> '''' then logger_With [StringAttr ''stage'' (qStage query)] l2 else l2)
      in if qJob query \<noteq> '''' then logger_With [StringAttr ''job'' (qJob query)] l3 else l3)"

datatype level = LevelDebug | LevelInfo | LevelWarn | LevelError

definition slogLevelFromEnv :: "(string \<Rightarrow> string) \<Rightarrow> level" where
  "slogLevelFromEnv getenv =
     (let v = getenv ''LOG_LEVEL'' in
      if v \<in> {''DEBUG'', ''debug''} then LevelDebug
      else if v \<in> {''WARN'', ''warn''} then LevelWarn
      else if v \<in> {''ERROR'', ''error''} then LevelError
      else LevelInfo)"

text \<open>\<open>getSpanTraceId\<close> of the orchestrator's \<open>persistence.go\<close>: the trace id of the current span, empty without one.\<close>

definition getSpanTraceId :: "go_context \<Rightarrow> string" where
  "getSpanTraceId ctx = (case ctxSpan ctx of None \<Rightarrow> '''' | Some sc \<Rightarrow> scTraceID sc)"

section \<open>Tracers and spans\<close>

text \<open>The name of the tracer that \<open>Tracer\<close> asks the library for.\<close>

definition Tracer :: "string \<Rightarrow> string" where
  "Tracer scope =
     (let normalized = TrimPrefix (TrimPrefix (TrimSpace scope) ''./'') ''/'' in
      if normalized = '''' then instrumentationBaseScope
      else if HasPrefix normalized instrumentationBaseScope then normalized
      else instrumentationBaseScope @ ''/'' @ normalized)"

text \<open>\<open>serviceTracer\<close> of the orchestrator and of the worker: the tracer of the service, or that of its scope.\<close>

definition orchestrator_serviceTracer :: "string option \<Rightarrow> string" where
  "orchestrator_serviceTracer tracer = (case tracer of Some t \<Rightarrow> t | None \<Rightarrow> Tracer ''internal/services/orchestrator'')"

definition worker_serviceTracer :: "string option \<Rightarrow> string" where
  "worker_serviceTracer tracer = (case tracer of Some t \<Rightarrow> t | None \<Rightarrow> Tracer ''internal/services/worker'')"

text \<open>The span name formatter of both \<open>NewInstrumentedHTTPClient\<close> and \<open>TracingMiddleware\<close>.\<close>

definition span_name :: "string \<Rightarrow> http_request \<Rightarrow> string" where
  "span_name operation r =
     (let method = TrimSpace (hrMethod r); trimmed = TrimSpace (hrPath r);
          path = (if trimmed = '''' then ''/'' else trimmed)
      in if method = '''' then path else method @ '' '' @ path)"

record instrumentedClient =
  icSpanName :: "string \<Rightarrow> http_request \<Rightarrow> string"
  icAttributes :: "attribute list"
  icTimeout :: int

definition NewInstrumentedHTTPClient :: "string \<Rightarrow> int \<Rightarrow> instrumentedClient" where
  "NewInstrumentedHTTPClient downstream timeout =
     \<lparr>icSpanName = span_name, icAttributes = [StringAttr ''http.downstream'' downstream], icTimeout = timeout\<rparr>"

type_synonym 'w http_handler = "http_request \<Rightarrow> 'w \<Rightarrow> http_response \<times> 'w"

definition HTTPMetricsMiddleware :: "'w http_handler \<Rightarrow> 'w http_handler" where
  "HTTPMetricsMiddleware handler = (\<lambda>r w. handler r w)"

text \<open>The filter of \<open>TracingMiddleware\<close>: probes are not traced.\<close>

definition traced :: "http_request \<Rightarrow> bool" where
  "traced r \<longleftrightarrow> hrPath r \<notin> {''/metrics'', ''/health'', ''/ready''}"

text \<open>\<open>otelhttp.NewHandler\<close>, with the formatter and the filter as its options, is the parameter \<open>NewHandler\<close>.\<close>

type_synonym 'w otelhttp =
  "'w http_handler \<Rightarrow> string \<Rightarrow> (string \<Rightarrow> http_request \<Rightarrow> string) \<Rightarrow> (http_request \<Rightarrow> bool) \<Rightarrow> 'w http_handler"

definition TracingMiddleware :: "'w otelhttp \<Rightarrow> string \<Rightarrow> 'w http_handler \<Rightarrow> 'w http_handler" where
  "TracingMiddleware NewHandler serviceName handler = NewHandler handler serviceName span_name traced"

section \<open>Providers are closed\<close>

lemma errors_Join_simps [simp]:
  "errors_Join None b = b" "errors_Join a None = a" "errors_Join a b = None \<longleftrightarrow> a = None \<and> b = None"
  by (simp_all add: errors_Join_def split: option.split)

lemma errors_Join_Is:
  "errors_Join a b = Some e \<Longrightarrow> errors_Is e s \<longleftrightarrow> (\<exists>x \<in> set_option a \<union> set_option b. errors_Is x s)"
  by (auto simp: errors_Join_def errors_Is_def split: option.splits)

text \<open>Every provider made is shut down already or waits for the shutdown.\<close>

definition otel_inv :: "otel \<Rightarrow> bool" where
  "otel_inv s \<longleftrightarrow> otCreated s = otClosed s @ shutdownFuncs s"

lemma otel_shutdown_simps [simp]:
  "shutdownFuncs (snd (otel_shutdown oe s)) = []" "otClosed (snd (otel_shutdown oe s)) = otClosed s @ shutdownFuncs s"
  "otCreated (snd (otel_shutdown oe s)) = otCreated s"
  by (simp_all add: otel_shutdown_def)

lemma otel_shutdown_inv: "otel_inv s \<Longrightarrow> otel_inv (snd (otel_shutdown oe s))"
  by (simp add: otel_inv_def)

text \<open>One step of the set-up.\<close>

lemma set_up_cases:
  assumes "\<And>oe. new oe = new_provider oe p"
  shows "set_up oe new go_on s =
    (case oeExporter oe p of
       Some err \<Rightarrow> handleErr oe err s
     | None \<Rightarrow> go_on (register p (s\<lparr>otCreated := otCreated s @ [p]\<rparr>)))"
  by (simp add: set_up_def assms new_provider_def split: option.split)

lemmas setup_steps = set_up_cases [OF newTracerProvider_def] set_up_cases [OF newMeterProvider_def] set_up_cases [OF newLoggerProvider_def]

definition all_providers :: "provider list" where
  "all_providers = [TracerProvider, MeterProvider, LoggerProvider]"

definition can_export :: "otelEnv \<Rightarrow> provider \<Rightarrow> bool" where
  "can_export oe p \<longleftrightarrow> oeExporter oe p = None"

lemma Bootstrap_cases:
  "Bootstrap oe s = (r, s') \<Longrightarrow>
     (case r of
        Inr _ \<Rightarrow> oeResource oe = None \<and> list_all (can_export oe) all_providers \<and> shutdownFuncs s' = all_providers
          \<and> otCreated s' = otCreated s @ all_providers \<and> otClosed s' = otClosed s \<and> slogBridge s' = Some instrumentationBaseScope
      | Inl e \<Rightarrow> shutdownFuncs s' = [] \<and>
          (if oeResource oe = None
           then otCreated s' = otCreated s @ takeWhile (can_export oe) all_providers
             \<and> otClosed s' = otClosed s @ takeWhile (can_export oe) all_providers \<and> \<not> list_all (can_export oe) all_providers
           else otCreated s' = otCreated s \<and> otClosed s' = otClosed s))"
  by (auto simp: Bootstrap_def setupOTel_def setup_steps handleErr_def otel_shutdown_def register_def metricsBootStrap_def
      all_providers_def can_export_def Let_def split: option.splits)

text \<open>What a service process relies on: the set-up either fails and leaves nothing open, or succeeds, and the shutdown
  leaves nothing open.\<close>

locale telemetry =
  fixes boot :: "'o \<Rightarrow> (goerr + unit) \<times> 'o" and shut :: "'o \<Rightarrow> goerr option \<times> 'o" and pending :: "'o \<Rightarrow> 'q list"
    and inv :: "'o \<Rightarrow> bool"
  assumes boot_fails: "boot s = (Inl e, s') \<Longrightarrow> pending s' = []"
    and boot_inv: "inv s \<Longrightarrow> pending s = [] \<Longrightarrow> inv (snd (boot s))" and shut_inv: "inv s \<Longrightarrow> inv (snd (shut s))"
    and shut_all: "pending (snd (shut s)) = []"
    and shut_again: "pending s = [] \<Longrightarrow> shut s = (None, s)"
begin

lemma shut_twice: "shut (snd (shut s)) = (None, snd (shut s))"
  by (rule shut_again [OF shut_all])

end

interpretation otel_telemetry: telemetry "Bootstrap oe" "otel_shutdown oe" shutdownFuncs otel_inv for oe
proof
  show "otel_inv (snd (Bootstrap oe s))" if "otel_inv s" "shutdownFuncs s = []" for s
    using Bootstrap_cases [OF surjective_pairing, of oe s] that
    by (auto simp: otel_inv_def split: sum.splits if_splits)
  show "shutdownFuncs s' = []" if "Bootstrap oe s = (Inl e, s')" for s e s'
    using Bootstrap_cases [OF that] by simp
  show "otel_shutdown oe s = (None, s)" if "shutdownFuncs s = []" for s
    using that by (cases s) (simp add: otel_shutdown_def)
qed (simp_all add: otel_shutdown_inv)

text \<open>C18. No provider is lost: when the set-up of the telemetry fails, exactly the providers created before the
  failure have been shut down, in their order, and nothing is left to shut down; when it succeeds all three are
  open, the first call of the shutdown closes each of them once, and further calls do nothing.\<close>

theorem Bootstrap_all_or_nothing:
  "case Bootstrap oe s of
     (Inl e, s') \<Rightarrow>
       (\<exists>made. otCreated s' = otCreated s @ made \<and> otClosed s' = otClosed s @ made
          \<and> made = (if oeResource oe = None then takeWhile (can_export oe) all_providers else []))
       \<and> otel_shutdown oe s' = (None, s')
   | (Inr _, s') \<Rightarrow>
       (case otel_shutdown oe s' of (err, s'') \<Rightarrow>
          otCreated s' = otCreated s @ all_providers \<and> otClosed s' = otClosed s \<and> otClosed s'' = otClosed s @ all_providers
          \<and> (err = None \<longleftrightarrow> (\<forall>p. oeShutdown oe p = None)) \<and> otel_shutdown oe s'' = (None, s''))"
proof -
  obtain r s' where b: "Bootstrap oe s = (r, s')" by fastforce
  show ?thesis
  proof (cases r)
    case (Inl e)
    with Bootstrap_cases [OF b] otel_telemetry.shut_again [of s' oe] b show ?thesis by simp
  next
    case (Inr u)
    have all: "shutdownFuncs s' = [TracerProvider, MeterProvider, LoggerProvider]"
      using Bootstrap_cases [OF b] Inr by (simp add: all_providers_def)
    have "(\<forall>p. oeShutdown oe p = None) \<longleftrightarrow> (\<forall>p \<in> {TracerProvider, MeterProvider, LoggerProvider}. oeShutdown oe p = None)"
      by (metis (full_types) provider.exhaust insert_iff)
    moreover have "fst (otel_shutdown oe s') = None \<longleftrightarrow> (\<forall>p \<in> {TracerProvider, MeterProvider, LoggerProvider}. oeShutdown oe p = None)"
      by (auto simp: otel_shutdown_def all)
    ultimately show ?thesis
      using Bootstrap_cases [OF b] Inr b otel_telemetry.shut_twice [of oe s'] by (simp add: case_prod_unfold)
  qed
qed

section \<open>Names\<close>

lemma HasPrefix_append [simp]: "HasPrefix (p @ s) p" "HasPrefix p p"
  by (simp_all add: HasPrefix_def)

text \<open>All tracers are scoped to the repository, the ones of the services at their default too.\<close>

lemma Tracer_scoped: "HasPrefix (Tracer scope) instrumentationBaseScope"
  by (auto simp: Tracer_def Let_def)

lemma serviceTracer_scoped:
  "HasPrefix (orchestrator_serviceTracer None) instrumentationBaseScope" "HasPrefix (worker_serviceTracer None) instrumentationBaseScope"
  by (simp_all add: orchestrator_serviceTracer_def worker_serviceTracer_def Tracer_scoped)

lemma L_ContextWithLogger [simp]: "L_logger d (ContextWithLogger ctx l) = l"
  by (simp add: L_logger_def ContextWithLogger_def)

lemma report_query_attrs:
  "attrs (WithReportQueryContext l query) = attrs l @ [StringAttr ''pipeline'' (qPipeline query)]
     @ map (IntAttr ''run_no'') (case qRun query of None \<Rightarrow> [] | Some r \<Rightarrow> [r])
     @ map (StringAttr ''stage'') (filter (\<lambda>s. s \<noteq> '''') [qStage query]) @ map (StringAttr ''job'') (filter (\<lambda>s. s \<noteq> '''') [qJob query])"
  by (simp add: WithReportQueryContext_def logger_With_def Let_def split: option.split)

end
