(* ===== verification/Service_Process.thy ===== *)
theory Service_Process
  imports Observability System Validation Cli
begin

text \<open>
  The processes: \<open>cmd/*/main.go\<close>, the handlers they construct and close, the connection of the store
  (\<open>internal/store/store.go\<close>) and \<open>Execute\<close> of the command line. A process is the list of its actions with
  the stack of its deferred calls: a return from \<open>main\<close> runs them in reverse order, \<open>os.Exit\<close> runs none. What
  happens outside (signals, the listener, the consumer goroutine of the worker) is a list of events. Shown: how
  and in which order each process starts and shuts down.
\<close>

section \<open>The connection of the store\<close>

text \<open>\<open>database/sql\<close> with the MySQL driver is a parameter: opening a pool, pinging it and closing it.\<close>

record ('c, 'w) sqlDriver =
  sqOpen :: "string \<Rightarrow> ('w, 'c) op"
  sqPing :: "'c \<Rightarrow> ('w, unit) op"
  sqClose :: "'c \<Rightarrow> ('w, unit) op"

definition Store_New :: "('c, 'w) sqlDriver \<Rightarrow> string \<Rightarrow> ('w, 'c) op" where
  "Store_New drv connURL =
     andthen (sqOpen drv connURL) (\<lambda>db w.
       case sqPing drv db w of
         (Inl e, w1) \<Rightarrow> (Inl e, snd (sqClose drv db w1))
       | (Inr _, w1) \<Rightarrow> (Inr db, w1))"

definition Store_Close :: "('c, 'w) sqlDriver \<Rightarrow> 'c option \<Rightarrow> 'w \<Rightarrow> 'w" where
  "Store_Close drv db w = (case db of None \<Rightarrow> w | Some c \<Rightarrow> snd (sqClose drv c w))"

definition Store_Ping :: "('c, 'w) sqlDriver \<Rightarrow> 'c \<Rightarrow> ('w, unit) op" where
  "Store_Ping drv db = sqPing drv db"

section \<open>The handlers\<close>

text \<open>Both database services open the store only when \<open>DATABASE_URL\<close> is set.\<close>

definition open_store :: "('c, 'w) sqlDriver \<Rightarrow> (string \<Rightarrow> string) \<Rightarrow> ('w, 'c) op" where
  "open_store drv getenv w =
     (let connURL = TrimSpace (getenv ''DATABASE_URL'') in
      if connURL = '''' then (Inl (Errorf ''DATABASE_URL is required''), w) else Store_New drv connURL w)"

type_synonym ('c, 'p) orchestratorHandler = "'c \<times> 'p publisherManager \<times> string"

definition Orchestrator_NewHandler ::
  "('c, 'w) sqlDriver \<Rightarrow> (string \<Rightarrow> string) \<Rightarrow> (mqConfig \<Rightarrow> 'p broker) \<Rightarrow> ('w, ('c, 'p) orchestratorHandler) op" where
  "Orchestrator_NewHandler drv getenv net w =
     (let (st, w1) = open_store drv getenv w in (Orchestrator_NewService getenv (\<lambda>_. st) net, w1))"

definition Orchestrator_Handler_Close ::
  "('c, 'w) sqlDriver \<Rightarrow> ('c, 'p) orchestratorHandler \<Rightarrow> 'w \<Rightarrow> ('c, 'p) orchestratorHandler \<times> 'w" where
  "Orchestrator_Handler_Close drv h w =
     (case h of (st, m, url) \<Rightarrow> ((st, manager_Close m, url), Store_Close drv (Some st) w))"

definition Reporting_NewHandler :: "('c, 'w) sqlDriver \<Rightarrow> (string \<Rightarrow> string) \<Rightarrow> ('w, 'c) op" where
  "Reporting_NewHandler drv getenv w =
     (let (st, w1) = open_store drv getenv w in (Report_NewService getenv (\<lambda>_. st), w1))"

definition Reporting_Handler_Close :: "('c, 'w) sqlDriver \<Rightarrow> 'c \<Rightarrow> 'w \<Rightarrow> 'c \<times> 'w" where
  "Reporting_Handler_Close drv st w = (st, Store_Close drv (Some st) w)"

definition Validation_NewHandler ::
  "getenv \<Rightarrow> parse_duration \<Rightarrow> (string \<Rightarrow> goerr + redisOptions) \<Rightarrow> (redisOptions \<Rightarrow> 's redisClient) \<Rightarrow>
     goerr + 's validationService" where
  "Validation_NewHandler getenv parse parseURL newClient = NewValidationService getenv parse parseURL newClient"

definition Gateway_NewHandler :: "(string \<Rightarrow> string) \<Rightarrow> gatewayClient" where
  "Gateway_NewHandler getenv = NewClient getenv"

definition Worker_NewHandler :: "(string \<Rightarrow> string) \<Rightarrow> workerService" where
  "Worker_NewHandler getenv = NewService getenv 0"

text \<open>The fields of the worker's handler are never nil; the consumer goroutine is \<open>Start\<close> of the service.\<close>

definition Worker_Handler_Close :: "'w outside \<Rightarrow> 'w amqp \<Rightarrow> workerService \<Rightarrow> 'w \<Rightarrow> workerService \<times> 'w" where
  "Worker_Handler_Close ou am s w = Service_Close ou am (s, w)"

definition Worker_Handler_Run ::
  "'w outside \<Rightarrow> 'w amqp \<Rightarrow> (string \<Rightarrow> string) \<Rightarrow> (JobConsumer list \<Rightarrow> 'w \<Rightarrow> goerr option \<times> 'w) \<Rightarrow>
     workerService \<Rightarrow> 'w \<Rightarrow> (goerr option \<times> workerService \<times> 'w) option" where
  "Worker_Handler_Run ou am getenv consume s w = Service_Start ou am getenv consume (s, w)"

section \<open>Processes\<close>

record httpServer =
  srvAddr :: string
  srvReadHeaderTimeout :: int
  srvReadTimeout :: int
  srvWriteTimeout :: int
  srvIdleTimeout :: int

text \<open>What a process does that is seen outside. \<open>Consume\<close> is the start of the worker's second goroutine; the
  constructors from \<open>ServerShutdown\<close> on are the calls of the functions of that name, most of them deferred.\<close>

datatype action =
    Log level string
  | Listen httpServer
  | Consume
  | ServerShutdown
  | Stop
  | Cancel
  | ShutdownTelemetry
  | CloseHandler

record ('o, 'h, 'w) process =
  pOtel :: 'o
  pHandler :: "'h option"
  pWorld :: 'w
  pActions :: "action list"
  pDefers :: "action list"
  pExit :: "int option"

definition new_process :: "'o \<Rightarrow> 'w \<Rightarrow> ('o, 'h, 'w) process" where
  "new_process ot w = \<lparr>pOtel = ot, pHandler = None, pWorld = w, pActions = [], pDefers = [], pExit = None\<rparr>"

definition act :: "action \<Rightarrow> ('o, 'h, 'w) process \<Rightarrow> ('o, 'h, 'w) process" where
  "act a p = p\<lparr>pActions := pActions p @ [a]\<rparr>"

definition defer_call :: "action \<Rightarrow> ('o, 'h, 'w) process \<Rightarrow> ('o, 'h, 'w) process" where
  "defer_call a p = p\<lparr>pDefers := a # pDefers p\<rparr>"

definition os_Exit :: "int \<Rightarrow> ('o, 'h, 'w) process \<Rightarrow> ('o, 'h, 'w) process" where
  "os_Exit code p = p\<lparr>pExit := Some code\<rparr>"

definition run_deferred ::
  "('o \<Rightarrow> goerr option \<times> 'o) \<Rightarrow> ('h \<Rightarrow> 'w \<Rightarrow> 'h \<times> 'w) \<Rightarrow> action \<Rightarrow> ('o, 'h, 'w) process \<Rightarrow> ('o, 'h, 'w) process" where
  "run_deferred shut close a p0 =
     (let p = act a p0 in
      case a of
        ShutdownTelemetry \<Rightarrow>
          (case shut (pOtel p) of
             (None, ot) \<Rightarrow> p\<lparr>pOtel := ot\<rparr>
           | (Some e, ot) \<Rightarrow> act (Log LevelError ''observability shutdown failed'') (p\<lparr>pOtel := ot\<rparr>))
      | CloseHandler \<Rightarrow>
          (case pHandler p of
             None \<Rightarrow> p
           | Some h \<Rightarrow> let (h1, w1) = close h (pWorld p) in p\<lparr>pHandler := Some h1, pWorld := w1\<rparr>)
      | _ \<Rightarrow> p)"

definition main_return ::
  "('o \<Rightarrow> goerr option \<times> 'o) \<Rightarrow> ('h \<Rightarrow> 'w \<Rightarrow> 'h \<times> 'w) \<Rightarrow> ('o, 'h, 'w) process \<Rightarrow> ('o, 'h, 'w) process" where
  "main_return shut close p = (fold (run_deferred shut close) (pDefers p) p)\<lparr>pDefers := [], pExit := Some 0\<rparr>"

text \<open>What happens outside while a process waits: a signal, the end of \<open>ListenAndServe\<close> with an error or with
  \<open>http.ErrServerClosed\<close>, and the end of the worker's consumer goroutine.\<close>

datatype event = Signal | ListenFailed goerr | ListenClosed | ConsumerReturned "goerr option"

datatype wake = SignalReceived | ErrorReceived goerr

text \<open>The \<open>select\<close> of \<open>main\<close>, with the goroutines that feed its channels. Only the worker (\<open>consumes\<close>) has a
  consumer; its error is sent while the context is live, that is before any signal.\<close>

fun main_select :: "bool \<Rightarrow> event list \<Rightarrow> wake option" where
  "main_select consumes [] = None"
| "main_select consumes (Signal # es) = Some SignalReceived"
| "main_select consumes (ListenFailed e # es) = Some (ErrorReceived e)"
| "main_select consumes (ListenClosed # es) = main_select consumes es"
| "main_select consumes (ConsumerReturned None # es) = main_select consumes es"
| "main_select consumes (ConsumerReturned (Some e) # es) = (if consumes then Some (ErrorReceived e) else main_select consumes es)"

text \<open>In what the mains differ: names and messages, the server's timeouts in seconds (0 is none), whether the handler
  is closed, and whether there is a consumer, whose error also stops the signal context.\<close>

record service =
  svName :: string
  svDefaultPort :: string
  svInitError :: string
  svSelectError :: string
  svCloses :: bool
  svConsumes :: bool
  svServer :: "string \<Rightarrow> httpServer"

definition DefaultGatewayPort :: string where "DefaultGatewayPort = ''8000''"
definition DefaultValidationPort :: string where "DefaultValidationPort = ''8001''"
definition DefaultOrchestratorPort :: string where "DefaultOrchestratorPort = ''8002''"
definition DefaultWorkerPort :: string where "DefaultWorkerPort = ''8003''"
definition DefaultReportingPort :: string where "DefaultReportingPort = ''8004''"

definition api_gateway :: service where
  "api_gateway = \<lparr>svName = ''api-gateway'', svDefaultPort = DefaultGatewayPort, svInitError = '''', svSelectError = ''listen failed'',
     svCloses = False, svConsumes = False, svServer = (\<lambda>addr. \<lparr>srvAddr = addr, srvReadHeaderTimeout = 0,
       srvReadTimeout = 30, srvWriteTimeout = 1200, srvIdleTimeout = 60\<rparr>)\<rparr>"

definition validation_service :: service where
  "validation_service = \<lparr>svName = ''validation-service'', svDefaultPort = DefaultValidationPort, svInitError = ''failed to init handler'',
     svSelectError = ''listen failed'', svCloses = False, svConsumes = False, svServer = (\<lambda>addr. \<lparr>srvAddr = addr,
       srvReadHeaderTimeout = 2, srvReadTimeout = 10, srvWriteTimeout = 10, srvIdleTimeout = 60\<rparr>)\<rparr>"

definition orchestrator_service :: service where
  "orchestrator_service = \<lparr>svName = ''orchestrator-service'', svDefaultPort = DefaultOrchestratorPort, svInitError = ''handler init failed'',
     svSelectError = ''listen failed'', svCloses = True, svConsumes = False, svServer = (\<lambda>addr. \<lparr>srvAddr = addr,
       srvReadHeaderTimeout = 0, srvReadTimeout = 30, srvWriteTimeout = 1200, srvIdleTimeout = 60\<rparr>)\<rparr>"

definition worker_service :: service where
  "worker_service = \<lparr>svName = ''worker-service'', svDefaultPort = DefaultWorkerPort, svInitError = '''', svSelectError = ''service error'',
     svCloses = True, svConsumes = True, svServer = (\<lambda>addr. \<lparr>srvAddr = addr, srvReadHeaderTimeout = 0,
       srvReadTimeout = 15, srvWriteTimeout = 15, srvIdleTimeout = 60\<rparr>)\<rparr>"

definition reporting_service :: service where
  "reporting_service = \<lparr>svName = ''reporting-service'', svDefaultPort = DefaultReportingPort, svInitError = ''reporting service failed to initialize'',
     svSelectError = ''listen failed'', svCloses = True, svConsumes = False, svServer = (\<lambda>addr. \<lparr>srvAddr = addr,
       srvReadHeaderTimeout = 0, srvReadTimeout = 15, srvWriteTimeout = 15, srvIdleTimeout = 60\<rparr>)\<rparr>"

text \<open>The parts of \<open>main\<close>: from the first wake-up to the return, and from the construction of the handler on.\<close>

definition shut_down ::
  "service \<Rightarrow> ('o \<Rightarrow> goerr option \<times> 'o) \<Rightarrow> ('h \<Rightarrow> 'w \<Rightarrow> 'h \<times> 'w) \<Rightarrow> goerr option \<Rightarrow> wake \<Rightarrow>
     ('o, 'h, 'w) process \<Rightarrow> ('o, 'h, 'w) process" where
  "shut_down sv shut close serverErr wake p =
     (let p1 = (case wake of
            SignalReceived \<Rightarrow> act (Log LevelInfo ''shutdown signal received'') p
          | ErrorReceived e \<Rightarrow>
              let q = act (Log LevelError (svSelectError sv)) p in if svConsumes sv then act Stop q else q);
          p2 = defer_call Cancel (act (Log LevelInfo ''service shutting down'') p1);
          p3 = act ServerShutdown p2;
          p4 = (case serverErr of
            Some e \<Rightarrow> act (Log LevelError ''forced shutdown'') p3
          | None \<Rightarrow> act (Log LevelInfo ''service stopped'') p3)
      in main_return shut close p4)"

definition listen :: "service \<Rightarrow> (string \<Rightarrow> string) \<Rightarrow> ('o, 'h, 'w) process \<Rightarrow> ('o, 'h, 'w) process" where
  "listen sv getenv p =
     (let addr = '':'' @ GetEnvOrDefault getenv ''PORT'' (svDefaultPort sv);
          q = act (Listen (svServer sv addr)) (act (Log LevelInfo ''service starting'') p)
      in if svConsumes sv then act Consume q else q)"

definition service_main ::
  "service \<Rightarrow> ('o \<Rightarrow> (goerr + unit) \<times> 'o) \<Rightarrow> ('o \<Rightarrow> goerr option \<times> 'o) \<Rightarrow> (string \<Rightarrow> string) \<Rightarrow> ('w, 'h) op \<Rightarrow>
     ('h \<Rightarrow> 'w \<Rightarrow> 'h \<times> 'w) \<Rightarrow> goerr option \<Rightarrow> event list \<Rightarrow> 'o \<Rightarrow> 'w \<Rightarrow> ('o, 'h, 'w) process" where
  "service_main sv boot shut getenv newHandler close serverErr events ot w =
     (let p0 = defer_call Stop (new_process ot w) in
      case boot ot of
        (Inl e, ot1) \<Rightarrow> os_Exit 1 (act (Log LevelError ''failed to init observability'') (p0\<lparr>pOtel := ot1\<rparr>))
      | (Inr _, ot1) \<Rightarrow>
          let p1 = defer_call ShutdownTelemetry (p0\<lparr>pOtel := ot1\<rparr>) in
          (case newHandler w of
             (Inl e, w1) \<Rightarrow> os_Exit 1 (act (Log LevelError (svInitError sv)) (p1\<lparr>pWorld := w1\<rparr>))
           | (Inr h, w1) \<Rightarrow>
               let p2 = p1\<lparr>pHandler := Some h, pWorld := w1\<rparr>;
                   p3 = listen sv getenv (if svCloses sv then defer_call CloseHandler p2 else p2)
               in case main_select (svConsumes sv) events of
                    None \<Rightarrow> p3
                  | Some wake \<Rightarrow> shut_down sv shut close serverErr wake p3))"

text \<open>The five mains. The handlers of the gateway and of the validation service have no \<open>Close\<close>.\<close>

definition api_gateway_main ::
  "otelEnv \<Rightarrow> (string \<Rightarrow> string) \<Rightarrow> goerr option \<Rightarrow> event list \<Rightarrow> otel \<Rightarrow> 'w \<Rightarrow> (otel, gatewayClient, 'w) process" where
  "api_gateway_main oe getenv =
     service_main api_gateway (Bootstrap oe) (otel_shutdown oe) getenv (ret (Gateway_NewHandler getenv)) (\<lambda>h w. (h, w))"

definition validation_main ::
  "otelEnv \<Rightarrow> (string \<Rightarrow> string) \<Rightarrow> parse_duration \<Rightarrow> (string \<Rightarrow> goerr + redisOptions) \<Rightarrow> (redisOptions \<Rightarrow> 's redisClient) \<Rightarrow>
     goerr option \<Rightarrow> event list \<Rightarrow> otel \<Rightarrow> 'w \<Rightarrow> (otel, 's validationService, 'w) process" where
  "validation_main oe getenv parse parseURL newClient =
     service_main validation_service (Bootstrap oe) (otel_shutdown oe) getenv
       (\<lambda>w. (Validation_NewHandler getenv parse parseURL newClient, w)) (\<lambda>h w. (h, w))"

definition orchestrator_main ::
  "otelEnv \<Rightarrow> (string \<Rightarrow> string) \<Rightarrow> ('c, 'w) sqlDriver \<Rightarrow> (mqConfig \<Rightarrow> 'p broker) \<Rightarrow>
     goerr option \<Rightarrow> event list \<Rightarrow> otel \<Rightarrow> 'w \<Rightarrow> (otel, ('c, 'p) orchestratorHandler, 'w) process" where
  "orchestrator_main oe getenv drv net =
     service_main orchestrator_service (Bootstrap oe) (otel_shutdown oe) getenv
       (Orchestrator_NewHandler drv getenv net) (Orchestrator_Handler_Close drv)"

definition reporting_main ::
  "otelEnv \<Rightarrow> (string \<Rightarrow> string) \<Rightarrow> ('c, 'w) sqlDriver \<Rightarrow> goerr option \<Rightarrow> event list \<Rightarrow> otel \<Rightarrow> 'w \<Rightarrow> (otel, 'c, 'w) process" where
  "reporting_main oe getenv drv =
     service_main reporting_service (Bootstrap oe) (otel_shutdown oe) getenv
       (Reporting_NewHandler drv getenv) (Reporting_Handler_Close drv)"

definition worker_main ::
  "otelEnv \<Rightarrow> (string \<Rightarrow> string) \<Rightarrow> 'w outside \<Rightarrow> 'w amqp \<Rightarrow>
     goerr option \<Rightarrow> event list \<Rightarrow> otel \<Rightarrow> 'w \<Rightarrow> (otel, workerService, 'w) process" where
  "worker_main oe getenv ou am =
     service_main worker_service (Bootstrap oe) (otel_shutdown oe) getenv
       (ret (Worker_NewHandler getenv)) (Worker_Handler_Close ou am)"

text \<open>The handler that every server gets: the routes of the service inside the two middlewares.\<close>

definition wrapped :: "'w otelhttp \<Rightarrow> service \<Rightarrow> 'w http_handler \<Rightarrow> 'w http_handler" where
  "wrapped NewHandler sv mux = HTTPMetricsMiddleware (TracingMiddleware NewHandler (svName sv) mux)"

section \<open>The command line\<close>

text \<open>\<open>Execute\<close> and \<open>main\<close> of the command line: the error of the root command, the exit status, what is written to
  standard error, and the command whose usage is shown. Both calls of \<open>os.Exit\<close> have status 1.\<close>

definition cli_Execute ::
  "(string \<Rightarrow> string list) \<Rightarrow> command \<Rightarrow> goerr option \<Rightarrow> int \<times> string \<times> command option" where
  "cli_Execute suggestionsFor rootCmd result =
     (case result of
        None \<Rightarrow> (0, '''', None)
      | Some err \<Rightarrow> (1, ''Error: '' @ Error err @ [CHR 0x0A], handleUnknownCommandError suggestionsFor rootCmd err))"

definition cicd_main :: "(string \<Rightarrow> string list) \<Rightarrow> command \<Rightarrow> goerr option \<Rightarrow> int \<times> string \<times> command option" where
  "cicd_main suggestionsFor rootCmd result = cli_Execute suggestionsFor rootCmd result"

section \<open>Start and shutdown\<close>

text \<open>What ends the wait of a process.\<close>

definition wakes :: "bool \<Rightarrow> event \<Rightarrow> bool" where
  "wakes consumes e \<longleftrightarrow>
     (case e of Signal \<Rightarrow> True | ListenFailed _ \<Rightarrow> True | ListenClosed \<Rightarrow> False | ConsumerReturned r \<Rightarrow> consumes \<and> r \<noteq> None)"

lemma main_select_None: "main_select consumes es = None \<longleftrightarrow> (\<forall>e \<in> set es. \<not> wakes consumes e)"
proof (induction es)
  case (Cons e es)
  show ?case
  proof (cases e)
    case (ConsumerReturned r)
    with Cons show ?thesis by (cases r; cases consumes) (simp_all add: wakes_def)
  qed (use Cons in \<open>simp_all add: wakes_def\<close>)
qed simp

lemmas process_defs = new_process_def act_def defer_call_def os_Exit_def

text \<open>The actions up to the wait, and after it up to the end of the process.\<close>

definition startup :: "service \<Rightarrow> (string \<Rightarrow> string) \<Rightarrow> action list" where
  "startup sv getenv =
     [Log LevelInfo ''service starting'', Listen (svServer sv ('':'' @ GetEnvOrDefault getenv ''PORT'' (svDefaultPort sv)))]
     @ (if svConsumes sv then [Consume] else [])"

definition ending :: "service \<Rightarrow> goerr option \<Rightarrow> goerr option \<Rightarrow> wake \<Rightarrow> action list" where
  "ending sv serverErr telemetryErr wake =
     (case wake of
        SignalReceived \<Rightarrow> [Log LevelInfo ''shutdown signal received'']
      | ErrorReceived e \<Rightarrow> Log LevelError (svSelectError sv) # (if svConsumes sv then [Stop] else []))
     @ [Log LevelInfo ''service shutting down'', ServerShutdown,
        case serverErr of None \<Rightarrow> Log LevelInfo ''service stopped'' | Some e \<Rightarrow> Log LevelError ''forced shutdown'', Cancel]
     @ (if svCloses sv then [CloseHandler] else []) @ [ShutdownTelemetry]
     @ (case telemetryErr of None \<Rightarrow> [] | Some e \<Rightarrow> [Log LevelError ''observability shutdown failed'']) @ [Stop]"

text \<open>The deferred calls of a process, and what they leave.\<close>

definition deferred :: "service \<Rightarrow> action list" where
  "deferred sv = (if svCloses sv then [CloseHandler] else []) @ [ShutdownTelemetry, Stop]"

lemma main_return_effect:
  assumes "pDefers p = Cancel # deferred sv" and "pHandler p = Some h"
  shows "main_return shut close p =
    p\<lparr>pOtel := snd (shut (pOtel p)), pDefers := [], pExit := Some 0,
      pHandler := Some (if svCloses sv then fst (close h (pWorld p)) else h),
      pWorld := (if svCloses sv then snd (close h (pWorld p)) else pWorld p),
      pActions := pActions p @ [Cancel] @ (if svCloses sv then [CloseHandler] else []) @ [ShutdownTelemetry]
        @ (case fst (shut (pOtel p)) of None \<Rightarrow> [] | Some e \<Rightarrow> [Log LevelError ''observability shutdown failed'']) @ [Stop]\<rparr>"
proof (cases "shut (pOtel p)")
  case (Pair err ot)
  then show ?thesis
    using assms by (cases p; cases err; cases "svCloses sv") (simp_all add: deferred_def main_return_def run_deferred_def act_def case_prod_unfold Let_def)
qed

lemma shut_down_effect:
  assumes "pDefers p = deferred sv" and "pHandler p = Some h" and "q = shut_down sv shut close serverErr wake p"
  shows "pExit q = Some 0" and "pOtel q = snd (shut (pOtel p))"
    and "(pHandler q, pWorld q) = (if svCloses sv then map_prod Some id (close h (pWorld p)) else (Some h, pWorld p))"
    and "pActions q = pActions p @ ending sv serverErr (fst (shut (pOtel p))) wake"
proof -
  let ?log = "(case wake of
        SignalReceived \<Rightarrow> [Log LevelInfo ''shutdown signal received'']
      | ErrorReceived e \<Rightarrow> Log LevelError (svSelectError sv) # (if svConsumes sv then [Stop] else []))
    @ [Log LevelInfo ''service shutting down'', ServerShutdown,
        case serverErr of None \<Rightarrow> Log LevelInfo ''service stopped'' | Some e \<Rightarrow> Log LevelError ''forced shutdown'']"
  let ?p = "p\<lparr>pDefers := Cancel # deferred sv, pActions := pActions p @ ?log\<rparr>"
  have "q = main_return shut close ?p"
    using assms by (cases wake; cases serverErr) (simp_all add: shut_down_def act_def defer_call_def Let_def)
  then have q: "q = ?p\<lparr>pOtel := snd (shut (pOtel p)), pDefers := [], pExit := Some 0,
      pHandler := Some (if svCloses sv then fst (close h (pWorld p)) else h),
      pWorld := (if svCloses sv then snd (close h (pWorld p)) else pWorld p),
      pActions := pActions ?p @ [Cancel] @ (if svCloses sv then [CloseHandler] else []) @ [ShutdownTelemetry]
        @ (case fst (shut (pOtel p)) of None \<Rightarrow> [] | Some e \<Rightarrow> [Log LevelError ''observability shutdown failed'']) @ [Stop]\<rparr>"
    using main_return_effect [of ?p sv h shut close] assms(2) by simp
  show "pExit q = Some 0" "pOtel q = snd (shut (pOtel p))" by (simp_all add: q)
  show "(pHandler q, pWorld q) = (if svCloses sv then map_prod Some id (close h (pWorld p)) else (Some h, pWorld p))"
    by (simp add: q map_prod_def case_prod_unfold)
  show "pActions q = pActions p @ ending sv serverErr (fst (shut (pOtel p))) wake" by (simp add: q ending_def)
qed

context telemetry
begin

text \<open>The four ways a process can be found: without telemetry, without a handler, waiting, or ended.\<close>

lemma service_main_fails:
  "boot ot = (Inl e, ot1) \<Longrightarrow>
     let p = service_main sv boot shut getenv newHandler close serverErr events ot w in
     pExit p = Some 1 \<and> pending (pOtel p) = [] \<and> pActions p = [Log LevelError ''failed to init observability'']"
  "boot ot = (Inr u, ot1) \<Longrightarrow> newHandler w = (Inl e, w1) \<Longrightarrow>
     let p = service_main sv boot shut getenv newHandler close serverErr events ot w in
     pExit p = Some 1 \<and> pOtel p = ot1 \<and> pActions p = [Log LevelError (svInitError sv)]"
  using boot_fails [of ot e ot1] by (simp_all add: service_main_def process_defs)

lemma service_main_runs:
  assumes "boot ot = (Inr u, ot1)" and "newHandler w = (Inr h, w1)"
    and "p = service_main sv boot shut getenv newHandler close serverErr events ot w"
  shows "main_select (svConsumes sv) events = None \<Longrightarrow>
      pExit p = None \<and> pOtel p = ot1 \<and> pHandler p = Some h \<and> pWorld p = w1 \<and> pActions p = startup sv getenv"
    and "main_select (svConsumes sv) events = Some wake \<Longrightarrow>
      pExit p = Some 0 \<and> pOtel p = snd (shut ot1)
      \<and> (pHandler p, pWorld p) = (if svCloses sv then map_prod Some id (close h w1) else (Some h, w1))
      \<and> pActions p = startup sv getenv @ ending sv serverErr (fst (shut ot1)) wake"
proof -
  let ?q = "(defer_call ShutdownTelemetry ((defer_call Stop (new_process ot w))\<lparr>pOtel := ot1\<rparr>))\<lparr>pHandler := Some h, pWorld := w1\<rparr>"
  let ?p = "listen sv getenv (if svCloses sv then defer_call CloseHandler ?q else ?q)"
  have p: "p = (case main_select (svConsumes sv) events of None \<Rightarrow> ?p | Some wake \<Rightarrow> shut_down sv shut close serverErr wake ?p)"
    using assms by (simp add: service_main_def Let_def)
  have ready: "pDefers ?p = deferred sv" "pHandler ?p = Some h" "pWorld ?p = w1" "pOtel ?p = ot1" "pExit ?p = None" "pActions ?p = startup sv getenv"
    by (simp_all add: listen_def defer_call_def new_process_def act_def deferred_def startup_def Let_def)
  show "pExit p = None \<and> pOtel p = ot1 \<and> pHandler p = Some h \<and> pWorld p = w1 \<and> pActions p = startup sv getenv"
    if "main_select (svConsumes sv) events = None" using that ready by (simp add: p)
  show "pExit p = Some 0 \<and> pOtel p = snd (shut ot1)
      \<and> (pHandler p, pWorld p) = (if svCloses sv then map_prod Some id (close h w1) else (Some h, w1))
      \<and> pActions p = startup sv getenv @ ending sv serverErr (fst (shut ot1)) wake"
    if "main_select (svConsumes sv) events = Some wake"
  proof -
    have "p = shut_down sv shut close serverErr wake ?p" using that p by simp
    from shut_down_effect [OF ready(1,2) this] show ?thesis unfolding ready(3,4,6) by blast
  qed
qed

end

text \<open>C16. How a service process ends: it exits with status 1, having run no deferred call, exactly when the telemetry
  or the handler cannot be set up (and in the second case the telemetry stays open); otherwise it listens until a
  signal, a listen error or an error of the consumer, and then shuts the server down before it closes the handler, closes
  the handler before the telemetry, runs each of them once, leaves no provider open, and exits with status 0 even after an error.\<close>

theorem service_process_shutdown:
  assumes "p = service_main sv (Bootstrap oe) (otel_shutdown oe) getenv newHandler close serverErr events ot w"
    and "otel_inv ot" and "shutdownFuncs ot = []"
  shows "case pExit p of
      None \<Rightarrow> (\<forall>e \<in> set events. \<not> wakes (svConsumes sv) e) \<and> pActions p = startup sv getenv
    | Some code \<Rightarrow>
        if code = 0
        then otCreated (pOtel p) = otClosed (pOtel p) \<and> (\<exists>e \<in> set events. wakes (svConsumes sv) e)
          \<and> (\<exists>h w1. newHandler w = (Inr h, w1)
               \<and> (pHandler p, pWorld p) = (if svCloses sv then map_prod Some id (close h w1) else (Some h, w1)))
          \<and> (\<exists>err wake. pActions p = startup sv getenv @ ending sv serverErr err wake)
        else code = 1 \<and> (\<exists>m. pActions p = [Log LevelError m])
          \<and> (if isl (fst (Bootstrap oe ot)) then otCreated (pOtel p) = otClosed (pOtel p)
             else isl (fst (newHandler w)) \<and> shutdownFuncs (pOtel p) = all_providers)"
proof -
  obtain r ot1 where b: "Bootstrap oe ot = (r, ot1)" by fastforce
  have inv: "otel_inv ot1" using otel_telemetry.boot_inv [OF assms(2,3), of oe] b by simp
  show ?thesis
  proof (cases r)
    case (Inl e)
    with otel_telemetry.service_main_fails(1) [of oe ot e ot1 sv getenv newHandler close serverErr events w] b inv Bootstrap_cases [OF b]
    show ?thesis by (simp add: assms(1) Let_def otel_inv_def service_main_def process_defs)
  next
    case (Inr u)
    note b = b [unfolded Inr]
    obtain rh w1 where h: "newHandler w = (rh, w1)" by fastforce
    show ?thesis
    proof (cases rh)
      case (Inl e)
      with otel_telemetry.service_main_fails(2) [OF b, of newHandler w e w1 sv getenv close serverErr events] h b Bootstrap_cases [OF b]
      show ?thesis by (simp add: assms(1) Let_def)
    next
      case (Inr hd)
      note runs = otel_telemetry.service_main_runs [OF b h [unfolded Inr] assms(1)]
      show ?thesis
      proof (cases "main_select (svConsumes sv) events")
        case None
        with runs(1) show ?thesis using main_select_None by simp
      next
        case (Some wake)
        have "otel_inv (pOtel p)" "shutdownFuncs (pOtel p) = []" using runs(2) [OF Some] otel_shutdown_inv [OF inv] by simp_all
        then have "otCreated (pOtel p) = otClosed (pOtel p)" by (simp add: otel_inv_def)
        moreover have "\<exists>e \<in> set events. wakes (svConsumes sv) e" using main_select_None [of "svConsumes sv" events] Some by auto
        ultimately show ?thesis using runs(2) [OF Some] h Inr by auto
      qed
    qed
  qed
qed

text \<open>A database that notes what is done to it.\<close>

definition demo_driver :: "(nat, string list) sqlDriver" where
  "demo_driver = \<lparr>sqOpen = (\<lambda>url w. (Inr 0, w @ [''open''])), sqPing = (\<lambda>c w. (Inr (), w)), sqClose = (\<lambda>c w. (Inr (), w @ [''close'']))\<rparr>"

definition demo_otelEnv :: otelEnv where
  "demo_otelEnv = \<lparr>oeResource = None, oeExporter = (\<lambda>_. None), oeShutdown = (\<lambda>_. None)\<rparr>"

definition demo_otel :: otel where
  "demo_otel = \<lparr>shutdownFuncs = [], otCreated = [], otClosed = [], textMapPropagator = [], globalProviders = [], slogBridge = None\<rparr>"

lemma service_process_shutdown_witness:
  "let p = reporting_main demo_otelEnv (\<lambda>_. ''db'') demo_driver None [ListenClosed, Signal] demo_otel [] in
     pExit p = Some 0 \<and> otCreated (pOtel p) = otClosed (pOtel p) \<and> pWorld p = [''open'', ''close'']"
proof -
  let ?p = "reporting_main demo_otelEnv (\<lambda>_. ''db'') demo_driver None [ListenClosed, Signal] demo_otel []"
  have eq: "?p = service_main reporting_service (Bootstrap demo_otelEnv) (otel_shutdown demo_otelEnv) (\<lambda>_. ''db'')
      (Reporting_NewHandler demo_driver (\<lambda>_. ''db'')) (Reporting_Handler_Close demo_driver) None [ListenClosed, Signal] demo_otel []"
    by (simp add: reporting_main_def)
  have exit: "pExit ?p = Some 0" "pWorld ?p = [''open'', ''close'']" by code_simp+
  have "otel_inv demo_otel" "shutdownFuncs demo_otel = []" by (simp_all add: otel_inv_def demo_otel_def)
  from service_process_shutdown [OF eq this] exit
  show ?thesis by (simp add: Let_def)
qed

text \<open>When the consumer of the worker ends without an error, for instance because its error was lost, the process
  goes on serving its probes without a consumer.\<close>

lemma worker_without_consumer:
  assumes "Bootstrap oe ot = (Inr u, ot1)"
  shows "pExit (worker_main oe getenv ou am serverErr [ConsumerReturned None] ot w) = None"
  using otel_telemetry.service_main_runs(1) [OF assms, of "ret (Worker_NewHandler getenv)" w] unfolding worker_main_def
  by (simp add: ret_def)

text \<open>A handler that cannot be constructed leaves the telemetry open, so the log record of the failure may never be exported.\<close>

lemma init_failure_not_flushed:
  assumes "Bootstrap oe ot = (Inr u, ot1)" and "TrimSpace (getenv ''DATABASE_URL'') = ''''"
  shows "pExit (reporting_main oe getenv drv serverErr events ot w) = Some 1
    \<and> otClosed (pOtel (reporting_main oe getenv drv serverErr events ot w)) = otClosed ot"
proof -
  have "Reporting_NewHandler drv getenv w = (Inl (Errorf ''DATABASE_URL is required''), w)"
    using assms(2) by (simp add: Reporting_NewHandler_def open_store_def Report_NewService_def)
  from otel_telemetry.service_main_fails(2) [OF assms(1), of "Reporting_NewHandler drv getenv", OF this] Bootstrap_cases [OF assms(1)]
  show ?thesis by (simp add: reporting_main_def Let_def)
qed

text \<open>A database that does not answer is closed again.\<close>

lemma Store_New_closes:
  assumes "sqOpen drv connURL w = (Inr db, w1)" and "Store_New drv connURL w = (Inl e, w')"
  shows "sqPing drv db w1 = (Inl e, w2) \<Longrightarrow> w' = snd (sqClose drv db w2)" and "\<exists>w2. sqPing drv db w1 = (Inl e, w2)"
  using assms by (auto simp: Store_New_def andthen_def split: prod.splits sum.splits)

end
