(* ===== verification/Spec2Isabelle.thy ===== *)
theory Spec2Isabelle
  imports Validation Gateway Cli System Run_To_End Service_Process
begin

text \<open>
  A verification development of the cicd-system: a command line, an API gateway and four services that
  validate pipelines written in YAML, plan and run their jobs in containers, and report on the runs.

  \<^bold>\<open>The program.\<close> The command line (\<open>internal/cli\<close>) reads a pipeline file from the git repository and sends
  it to the gateway (\<open>internal/services/gateway\<close>), which forwards each request to one service. The
  validation service parses and verifies the file and answers dry runs from a response cache. The
  orchestrator plans a run, records it with its stages and jobs in a MySQL database (\<open>internal/store\<close>), keeps a
  runtime of it in memory and publishes the jobs that are ready to RabbitMQ (\<open>internal/mq\<close>). A worker takes a
  job message, executes the job in a Docker container and posts the start and the result back to
  the orchestrator, which records the result and publishes the jobs it releases. The reporting
  service answers queries over the same database.

  \<^bold>\<open>Theories and sources\<close> (paths under \<open>src/internal\<close>).

  \<^item> \<open>Prelude\<close>, \<open>Gostd\<close>, \<open>Query_String\<close>: strings, errors, maps, number parsing and query strings of Go's standard
    library as far as the sources use them; the state and error monad (\<open>andthen\<close>, \<open>wrap_err\<close>), operations that
    keep a part of the state (\<open>keeps\<close>) or preserve a predicate (\<open>preserves\<close>).
  \<^item> \<open>Models\<close>, \<open>Http\<close>: the types of \<open>models\<close>, \<open>messages\<close>, \<open>api/types.go\<close>; requests and answers, \<open>api/response.go\<close>.
  \<^item> \<open>Parser\<close>, \<open>Cycle_Check\<close>, \<open>Planner\<close>, \<open>Verifier\<close>: \<open>common/parser\<close>, \<open>common/planner\<close>, \<open>common/verifier\<close>. The tree that
    the YAML library hands over is the input. A silent \<open>Verify\<close> means a well-typed document and a
    well-formed pipeline, and its plan contains every job once, after its needs. Iteration over Go
    maps is a parameter \<open>ord\<close>, and the results hold for every order.
  \<^item> \<open>Store\<close>: \<open>store/write.go\<close>, \<open>store/read.go\<close>, \<open>store/dto.go\<close> with the schema of the migrations. SQL statements are
    functions on lists of rows; the collation, the isolation level, concurrent transactions and the
    failures of statements are parameters. The unique keys of the schema are tests in the statements that insert or update; what
    \<open>CreateRunOrGetActive\<close> does on top of them, that requests with one key share one run, is a claim of its own.
  \<^item> \<open>Stage_State\<close>: \<open>stageState\<close> of \<open>services/orchestrator/service.go\<close>, which decides when a job is handed out.
  \<^item> \<open>Publisher\<close>: \<open>services/orchestrator/publisher.go\<close>, as a step relation whose steps are the critical sections.
  \<^item> \<open>Orchestrator\<close>, \<open>Runs\<close>, \<open>Run_Start\<close>, \<open>Lifetime\<close>, \<open>Orchestrator_Http\<close>: \<open>service.go\<close>, \<open>callbacks.go\<close>, \<open>dispatch.go\<close>,
    \<open>persistence.go\<close>, \<open>validation.go\<close>, \<open>handler.go\<close> of the orchestrator. Its world is a record of the database,
    the runtimes (objects behind pointers), the publisher manager, the network, the clock and the
    goroutines to run. \<open>Runs\<close> evaluates a run of two stages. \<open>Lifetime\<close> is the reachability relation of the
    whole service (requests, goroutines, callbacks, changes of the surroundings) with its invariant on the tables.
  \<^item> \<open>Run_Reports\<close>, \<open>Run_To_End\<close>: one run of the orchestrator from the request to its end. \<open>run_history\<close> is the relation of
    all sequences of callbacks about published messages, with any status, repeated and late ones included. What they mean is given by
    the automaton \<open>run_step\<close> on \<open>run_view\<close> (a verdict, the jobs that passed, the entry of each job); \<open>run_live\<close> and \<open>run_over\<close> are the
    invariant that ties it to the stages in memory, the log of messages and the rows. Jobs are published once and in order, the rows
    are those of the automaton, and the run leaves the memory exactly when it has a verdict: success when all jobs have passed, failure with
    the first report that a job failed which may not. The hypotheses are bundled in \<open>startable\<close>: a verified
    pipeline whose names are not blank, a database and a broker without failures, a request that is not in flight. Other runs
    may be in the tables and in memory, but their callbacks are not interleaved.
  \<^item> \<open>Cache\<close>, \<open>Validation\<close>: \<open>cache\<close> and \<open>services/validation\<close>. The locale \<open>cache_store\<close> is the contract of a store; both
    stores of the code are interpreted. Every call brings its own map iteration orders; a cached answer is one that was computed for the same
    content, in this call or an earlier one, when path and commit determine the content.
  \<^item> \<open>Mq\<close>: \<open>mq\<close>. \<open>amqp_broker\<close> states what the code relies on; publishing is at least once and at most three times, and
    the consumer loop loses no message.
  \<^item> \<open>Execute\<close>, \<open>Worker\<close>: \<open>services/worker\<close>. Workspace, archive, container limits in 64-bit arithmetic, \<open>ExecuteJob\<close> with
    its deferred clean-up; the worker's dependencies, messages, callbacks, consumer group and endpoints.
  \<^item> \<open>Reporting\<close>, \<open>Gateway\<close>: \<open>services/reporting\<close>, \<open>services/gateway\<close>. Status codes and contents of reports, and that the
    gateway does not change them.
  \<^item> \<open>Pipeline_Path\<close>, \<open>Git\<close>, \<open>Cli\<close>: \<open>common/pipelinepath\<close>, \<open>common/gitutil\<close>, \<open>common/formatter\<close>, \<open>cli\<close>. Path confinement, worktrees, and
    the four commands.
  \<^item> \<open>System\<close>: the worker over HTTP against the orchestrator's endpoints. An acknowledged job message has
    its result in the database.
  \<^item> \<open>Observability\<close>, \<open>Service_Process\<close>: \<open>observability\<close>, \<open>cmd\<close>, \<open>store/store.go\<close> and the constructors of the handlers. A
    process is the list of its actions with the stack of its deferred calls; signals, the listener and the end of the worker's
    consumer are events. A failed set-up of the telemetry leaves nothing open, and every service shuts down its server,
    its handler and its telemetry in this order.

  \<^bold>\<open>Interfaces.\<close> Third-party code is a record of its calls on a world state, passed as an argument: the
  container engine (\<open>docker\<close>), the file system and git (\<open>host\<close>, \<open>git\<close>), the broker (\<open>amqp\<close>), Redis, HTTP
  and JSON, floating point numbers. What the code relies on is the \<open>assumes\<close> of a locale (\<open>job_host\<close>,
  \<open>worktree_host\<close>, \<open>amqp_broker\<close>, \<open>amqp_consumer\<close>, \<open>redis_client\<close>, \<open>worker_clock\<close>), and each is
  interpreted on an implementation in memory that can fail at every call. What other instances of the orchestrator may do to the database is
  \<open>orchestrator_peers\<close>, interpreted for no peer and for one that takes a request in the middle of a transaction. JSON is
  asked to carry the values of the calls in question only, not all strings. Locales between the
  development's own components (\<open>cache_store\<close>, \<open>job_scheduler\<close>, \<open>finish_invariant\<close>, \<open>telemetry\<close>) are interpreted on the model's
  definitions. \<open>finish_invariant\<close> is used twice: for the types of all rows in \<open>Lifetime\<close> and for the record
  of one job in \<open>System\<close>.

  \<^bold>\<open>Termination.\<close> No definition uses fuel. The loops over finite data are total functions with measures
  (\<open>dfs_loop\<close>, \<open>kahn_loop\<close>, \<open>publish_from\<close>). The loops that wait for a peer (\<open>report_loop\<close>, \<open>ensure_loop\<close>,
  \<open>start_loop\<close>, \<open>consume_loop\<close>) may run for ever and are partial functions into \<open>option\<close>; \<open>report_loop\<close> is shown to
  return exactly when an attempt is accepted or a wait is cut off, and the consumer loop is also a
  step function whose visited states carry the claim.

  \<^bold>\<open>Numbers and time.\<close> Words of 64 bits where the code can overflow (container limits, the round-robin
  counter); run numbers are integers with the range check of the \<open>INT\<close> column. Times are readings of a
  counter.

  \<^bold>\<open>Not modelled.\<close> The log records and spans that the services emit on the way (their set-up and shutdown are
  modelled, the calls have no effect on the state of the services; \<open>observability/metrics.go\<close> is an empty function and
  commented-out code); the wiring of flags by the command library; the
  lengths of \<open>VARCHAR\<close> columns; unsynchronized access to the maps of a \<open>stageState\<close> by concurrent callbacks
  (callbacks are atomic here, the publisher pool is not); Go's panics as such (a call on a nil publisher in \<open>publish_attempts\<close> is an
  error); the closing of publishers and connections that never became part of a set, and what closing a set does to its connection;
  messages that the broker confirms and drops because no queue takes them; base URLs with a query of their own; the time limits of contexts (a call that is cut off is a
  call that fails); the decoding of floating point literals; symbolic links in path resolution; content sniffing by the
  HTTP server.
\<close>

end
